(* ===== verification/Prelude.thy ===== *)
theory Prelude
  imports Main Complex_Main "HOL-Library.Sublist"
begin

text \<open>
  What every component shares: the result type of code that may raise (\<open>'e + 'a\<close>, with
  \<open>rbind\<close> for statements in sequence), database tables as lists of rows with the SQL
  statements the services issue (\<open>update_where\<close>, \<open>count_where\<close>, \<open>fetch\<close>,
  \<open>delete_where\<close>), JSON values, and the generic lemmas and fact collections the component
  proofs rest on.
\<close>

named_theorems table_simps \<open>rows of a table after an UPDATE, INSERT or DELETE\<close>
named_theorems status_simps \<open>what an operation does to the status of a job\<close>
named_theorems frame_simps \<open>tables an operation leaves alone\<close>

section \<open>Results of code that may raise\<close>

definition rbind :: "'e + 'a \<Rightarrow> ('a \<Rightarrow> 'e + 'b) \<Rightarrow> 'e + 'b" where
  "rbind m f = (case m of Inl e \<Rightarrow> Inl e | Inr x \<Rightarrow> f x)"

lemma rbind_simps [simp]:
  "rbind (Inl e) f = Inl e"
  "rbind (Inr x) f = f x"
  by (simp_all add: rbind_def)

lemma rbind_Inr_iff: "rbind m f = Inr y \<longleftrightarrow> (\<exists>x. m = Inr x \<and> f x = Inr y)"
  by (cases m) simp_all

lemma rbind_Inl_iff: "rbind m f = Inl e \<longleftrightarrow> m = Inl e \<or> (\<exists>x. m = Inr x \<and> f x = Inl e)"
  by (cases m) simp_all

lemma rbind_InrE [elim]:
  assumes "rbind m f = Inr y"
  obtains x where "m = Inr x" "f x = Inr y"
  using assms by (auto simp: rbind_Inr_iff)

definition of_option :: "'e \<Rightarrow> 'a option \<Rightarrow> 'e + 'a" where
  "of_option e x = (case x of None \<Rightarrow> Inl e | Some v \<Rightarrow> Inr v)"

lemma of_option_simps [simp]:
  "of_option e None = Inl e"
  "of_option e (Some v) = Inr v"
  by (simp_all add: of_option_def)

lemma of_option_Inr_iff [simp]: "of_option e x = Inr v \<longleftrightarrow> x = Some v"
  by (cases x) simp_all

definition is_ok :: "'e + 'a \<Rightarrow> bool" where
  "is_ok m = (case m of Inl _ \<Rightarrow> False | Inr _ \<Rightarrow> True)"

lemma is_ok_simps [simp]: "\<not> is_ok (Inl e)" "is_ok (Inr x)"
  by (simp_all add: is_ok_def)

section \<open>Tables\<close>

text \<open>
  A table is the list of its rows in insertion order. \<open>UPDATE ... WHERE\<close> is
  \<open>update_where\<close>, its \<open>rowcount\<close> is \<open>count_where\<close>, \<open>SELECT ... .first()\<close>
  is \<open>fetch\<close> and \<open>DELETE ... WHERE\<close> is \<open>delete_where\<close>.
\<close>

definition update_where :: "('r \<Rightarrow> bool) \<Rightarrow> ('r \<Rightarrow> 'r) \<Rightarrow> 'r list \<Rightarrow> 'r list" where
  "update_where p f t = map (\<lambda>r. if p r then f r else r) t"

definition count_where :: "('r \<Rightarrow> bool) \<Rightarrow> 'r list \<Rightarrow> nat" where
  "count_where p t = length (filter p t)"

definition delete_where :: "('r \<Rightarrow> bool) \<Rightarrow> 'r list \<Rightarrow> 'r list" where
  "delete_where p t = filter (\<lambda>r. \<not> p r) t"

definition fetch :: "('r \<Rightarrow> bool) \<Rightarrow> 'r list \<Rightarrow> 'r option" where
  "fetch p t = (case filter p t of [] \<Rightarrow> None | r # _ \<Rightarrow> Some r)"

lemma fetch_Nil [simp]: "fetch p [] = None"
  by (simp add: fetch_def)

lemma fetch_Cons [simp]: "fetch p (r # t) = (if p r then Some r else fetch p t)"
  by (simp add: fetch_def)

lemma fetch_SomeD: "fetch p t = Some r \<Longrightarrow> r \<in> set t \<and> p r"
  by (induction t) (auto split: if_splits)

lemma fetch_None_iff: "fetch p t = None \<longleftrightarrow> (\<forall>r \<in> set t. \<not> p r)"
  by (induction t) auto

lemma fetch_append: "fetch p (t @ u) = (case fetch p t of None \<Rightarrow> fetch p u | Some r \<Rightarrow> Some r)"
  by (induction t) auto

lemma fetch_cong: "(\<And>r. r \<in> set t \<Longrightarrow> p r = q r) \<Longrightarrow> fetch p t = fetch q t"
  by (induction t) auto

lemma fetch_unique:
  "r \<in> set t \<Longrightarrow> p r \<Longrightarrow> (\<And>s. s \<in> set t \<Longrightarrow> p s \<Longrightarrow> s = r) \<Longrightarrow> fetch p t = Some r"
  by (metis fetch_None_iff fetch_SomeD option.exhaust)

lemma set_update_where:
  "set (update_where p f t) = (\<lambda>r. if p r then f r else r) ` set t"
  by (simp add: update_where_def)

lemma in_update_whereE:
  assumes "s \<in> set (update_where p f t)"
  obtains r where "r \<in> set t" "s = (if p r then f r else r)"
  using assms by (auto simp: update_where_def)

lemma update_where_Nil [simp]: "update_where p f [] = []"
  by (simp add: update_where_def)

lemma update_where_Cons [simp]:
  "update_where p f (r # t) = (if p r then f r else r) # update_where p f t"
  by (simp add: update_where_def)

lemma update_where_append [simp]:
  "update_where p f (t @ u) = update_where p f t @ update_where p f u"
  by (simp add: update_where_def)

lemma length_update_where [simp]: "length (update_where p f t) = length t"
  by (simp add: update_where_def)

lemma map_update_where:
  "(\<And>r. p r \<Longrightarrow> g (f r) = g r) \<Longrightarrow> map g (update_where p f t) = map g t"
  by (simp add: update_where_def)

lemma update_where_none: "(\<And>r. r \<in> set t \<Longrightarrow> \<not> p r) \<Longrightarrow> update_where p f t = t"
  by (induction t) auto

lemma count_where_0_iff: "count_where p t = 0 \<longleftrightarrow> (\<forall>r \<in> set t. \<not> p r)"
  by (simp add: count_where_def filter_empty_conv)

lemma count_where_pos_iff: "0 < count_where p t \<longleftrightarrow> (\<exists>r \<in> set t. p r)"
  using count_where_0_iff[of p t] by auto

lemma count_where_Nil [simp]: "count_where p [] = 0"
  by (simp add: count_where_def)

lemma count_where_Cons [simp]: "count_where p (r # t) = (if p r then 1 else 0) + count_where p t"
  by (simp add: count_where_def)

lemma count_where_append [simp]: "count_where p (t @ u) = count_where p t + count_where p u"
  by (simp add: count_where_def)

lemma set_delete_where [simp]: "set (delete_where p t) = {r \<in> set t. \<not> p r}"
  by (auto simp: delete_where_def)

lemma delete_where_code [simp]:
  "delete_where p [] = []"
  "delete_where p (r # t) = (if p r then delete_where p t else r # delete_where p t)"
  by (simp_all add: delete_where_def)

lemma distinct_map_delete_where [intro]: "distinct (map f t) \<Longrightarrow> distinct (map f (delete_where p t))"
  by (induction t) auto

text \<open>
  A table with a primary key: the rows' key function, which no UPDATE of the services changes.
  Every statement that names one key therefore touches at most one row.
\<close>

locale keyed =
  fixes key :: "'r \<Rightarrow> 'k"
begin

lemma row_unique:
  "distinct (map key t) \<Longrightarrow> r \<in> set t \<Longrightarrow> s \<in> set t \<Longrightarrow> key r = key s \<Longrightarrow> r = s"
  by (induction t) (auto simp: image_iff)

lemma fetch_key:
  "distinct (map key t) \<Longrightarrow> r \<in> set t \<Longrightarrow> fetch (\<lambda>s. key s = key r) t = Some r"
  by (rule fetch_unique) (auto intro: row_unique)

lemma fetch_key_iff:
  "distinct (map key t) \<Longrightarrow> fetch (\<lambda>s. key s = k) t = Some r \<longleftrightarrow> r \<in> set t \<and> key r = k"
  using fetch_key fetch_SomeD by fastforce

lemma count_key_le:
  assumes "distinct (map key t)" and "\<And>r. p r \<Longrightarrow> key r = k"
  shows "count_where p t \<le> 1"
  using assms
proof (induction t)
  case Nil
  then show ?case by simp
next
  case (Cons r t)
  show ?case
  proof (cases "p r")
    case True
    with Cons.prems have "\<forall>s \<in> set t. \<not> p s"
      by (metis distinct.simps(2) image_eqI list.set_map list.simps(9))
    then have "count_where p t = 0" by (simp add: count_where_0_iff)
    with True show ?thesis by simp
  next
    case False
    with Cons show ?thesis by simp
  qed
qed

lemma fetch_update_other:
  assumes "\<And>r. p r \<Longrightarrow> key r \<noteq> k" and "\<And>r. p r \<Longrightarrow> key (f r) = key r"
  shows "fetch (\<lambda>s. key s = k) (update_where p f t) = fetch (\<lambda>s. key s = k) t"
  using assms by (induction t) auto

lemma fetch_update:
  assumes "\<And>r. p r \<Longrightarrow> key (f r) = key r"
  shows "fetch (\<lambda>s. key s = k) (update_where p f t) =
         map_option (\<lambda>r. if p r then f r else r) (fetch (\<lambda>s. key s = k) t)"
  using assms by (induction t) auto

end

section \<open>Systems with an invariant\<close>

text \<open>
  What a client of a stateful component relies on: every step keeps the component's invariant.
  Its lemmas lift facts about one step to runs of any length and interleaving.
\<close>

locale invariant_system =
  fixes step :: "'s \<Rightarrow> 's \<Rightarrow> bool" and good :: "'s \<Rightarrow> bool"
  assumes good_step: "good s \<Longrightarrow> step s t \<Longrightarrow> good t"
begin

lemma good_run: "rtranclp step s t \<Longrightarrow> good s \<Longrightarrow> good t"
  by (induction rule: rtranclp_induct) (auto intro: good_step)

lemma stable_run:
  assumes "rtranclp step s t" "good s" "P s"
    and "\<And>x y. good x \<Longrightarrow> step x y \<Longrightarrow> P x \<Longrightarrow> P y"
  shows "P t"
proof -
  from assms(1) have "good t \<and> P t"
  proof (induction rule: rtranclp_induct)
    case (step y z)
    then show ?case using assms(4) good_step by blast
  qed (simp add: assms(2,3))
  then show ?thesis ..
qed

lemma relation_run:
  assumes "rtranclp step s t" "good s"
    and "\<And>x. good x \<Longrightarrow> R x x"
    and "\<And>x y. good x \<Longrightarrow> step x y \<Longrightarrow> R x y"
    and "\<And>x y z. R x y \<Longrightarrow> R y z \<Longrightarrow> R x z"
  shows "R s t"
proof -
  from assms(1) have "good t \<and> R s t"
  proof (induction rule: rtranclp_induct)
    case (step y z)
    then show ?case using assms(4,5) good_step by blast
  qed (simp add: assms(2,3))
  then show ?thesis ..
qed

end

section \<open>Lists\<close>

lemma sort_key_hd_min:
  fixes f :: "'a \<Rightarrow> 'k::linorder"
  assumes "sort_key f xs = y # ys"
  shows "y \<in> set xs \<and> (\<forall>x \<in> set xs. f y \<le> f x)"
proof -
  have s: "set (y # ys) = set xs" using assms by (metis set_sort)
  have "sorted (map f (y # ys))" using assms by (metis sorted_sort_key)
  then have "\<forall>x \<in> set (y # ys). f y \<le> f x" by auto
  with s show ?thesis by auto
qed

lemma sum_list_map_filter_split:
  fixes f :: "'a \<Rightarrow> 'b::comm_monoid_add"
  shows "sum_list (map f xs) = sum_list (map f (filter p xs)) + sum_list (map f (filter (\<lambda>x. \<not> p x) xs))"
  by (induction xs) (auto simp: ac_simps)

lemma dedup_length_le: "length (remdups xs) \<le> length xs"
  by (rule length_remdups_leq)

section \<open>JSON values\<close>

text \<open>
  A \<open>JSONB\<close> column or a decoded reply. Objects are association lists: the decoder keeps the
  first-to-last order of keys, and \<open>jget\<close> is Python's \<open>dict.get\<close>.
\<close>

datatype json =
    JNull
  | JBool bool
  | JInt int
  | JFloat rat
  | JStr string
  | JArr "json list"
  | JObj "(string \<times> json) list"

definition jget :: "json \<Rightarrow> string \<Rightarrow> json option" where
  "jget j k = (case j of JObj kvs \<Rightarrow> map_of kvs k | _ \<Rightarrow> None)"

lemma jget_JObj [simp]: "jget (JObj kvs) k = map_of kvs k"
  by (simp add: jget_def)

text \<open>\<open>column ->> key\<close>: the text of a string member; SQL NULL for an absent or null member.\<close>

definition jtext :: "json \<Rightarrow> string \<Rightarrow> string option" where
  "jtext j k = (case jget j k of Some (JStr s) \<Rightarrow> Some s | _ \<Rightarrow> None)"

lemma jtext_SomeD: "jtext j k = Some s \<Longrightarrow> jget j k = Some (JStr s)"
  by (auto simp: jtext_def split: option.splits json.splits)

text \<open>Python's truth value of a JSON member, as \<open>if value:\<close> reads it.\<close>

fun truthy :: "json \<Rightarrow> bool" where
  "truthy JNull = False"
| "truthy (JBool b) = b"
| "truthy (JInt n) = (n \<noteq> 0)"
| "truthy (JFloat q) = (q \<noteq> 0)"
| "truthy (JStr s) = (s \<noteq> [])"
| "truthy (JArr xs) = (xs \<noteq> [])"
| "truthy (JObj kvs) = (kvs \<noteq> [])"

end
