(* ===== verification/Pystd.thy ===== *)
theory Pystd
  imports Prelude "HOL-Library.Word"
begin

text \<open>
  The part of Python's standard library the services compute with: \<open>int(text, base)\<close>,
  \<open>uuid.UUID(text)\<close> and \<open>str(uuid)\<close>, and the string methods \<open>strip\<close>,
  \<open>split\<close>, \<open>lower\<close>, \<open>rstrip\<close> and \<open>replace\<close>. A string is a list of
  characters of the Latin-1 range. The last section proves that printing and parsing an
  identifier are inverse.
\<close>

section \<open>Characters and string methods\<close>

definition cval :: "char \<Rightarrow> nat" where
  "cval c = (of_char c :: nat)"

definition is_space :: "char \<Rightarrow> bool" where
  "is_space c = (let n = cval c in (9 \<le> n \<and> n \<le> 13) \<or> (28 \<le> n \<and> n \<le> 32) \<or> n = 133 \<or> n = 160)"

definition to_lower :: "char \<Rightarrow> char" where
  "to_lower c = (let n = cval c in
     if (65 \<le> n \<and> n \<le> 90) \<or> (192 \<le> n \<and> n \<le> 222 \<and> n \<noteq> 215) then char_of (n + 32) else c)"

definition py_lower :: "string \<Rightarrow> string" where
  "py_lower s = map to_lower s"

definition strip_by :: "(char \<Rightarrow> bool) \<Rightarrow> string \<Rightarrow> string" where
  "strip_by p s = rev (dropWhile p (rev (dropWhile p s)))"

definition py_strip :: "string \<Rightarrow> string" where
  "py_strip s = strip_by is_space s"

definition rstrip_by :: "(char \<Rightarrow> bool) \<Rightarrow> string \<Rightarrow> string" where
  "rstrip_by p s = rev (dropWhile p (rev s))"

text \<open>\<open>text.split(sep)\<close> for a one-character separator: always at least one part.\<close>

fun split_on :: "char \<Rightarrow> string \<Rightarrow> string list" where
  "split_on c [] = [[]]"
| "split_on c (x # s) =
     (if x = c then [] # split_on c s
      else case split_on c s of [] \<Rightarrow> [[x]] | p # ps \<Rightarrow> (x # p) # ps)"

text \<open>\<open>text.split()\<close>: the maximal runs of characters that are no white space.\<close>

fun words_aux :: "string \<Rightarrow> string \<Rightarrow> string list" where
  "words_aux acc [] = (if acc = [] then [] else [rev acc])"
| "words_aux acc (x # s) =
     (if is_space x then (if acc = [] then words_aux [] s else rev acc # words_aux [] s)
      else words_aux (x # acc) s)"

definition py_split :: "string \<Rightarrow> string list" where
  "py_split s = words_aux [] s"

fun join_with :: "string \<Rightarrow> string list \<Rightarrow> string" where
  "join_with sep [] = []"
| "join_with sep [p] = p"
| "join_with sep (p # ps) = p @ sep @ join_with sep ps"

text \<open>\<open>text.replace(pattern, "")\<close> for a non-empty pattern.\<close>

function remove_all :: "string \<Rightarrow> string \<Rightarrow> string" where
  "remove_all pat [] = []"
| "remove_all pat (c # s) =
     (if pat \<noteq> [] \<and> prefix pat (c # s) then remove_all pat (drop (length pat) (c # s))
      else c # remove_all pat s)"
  by pat_completeness auto
termination
  by (relation "measure (\<lambda>(pat, s). length s)") (auto simp: less_Suc_eq_le length_greater_0_conv[symmetric] simp del: length_greater_0_conv)

lemma split_on_nonempty [simp]: "split_on c s \<noteq> []"
  by (induction s) (auto split: list.splits)

lemma split_on_no_sep: "p \<in> set (split_on c s) \<Longrightarrow> c \<notin> set p"
  by (induction s arbitrary: p) (force split: list.splits if_splits)+

lemma remove_all_id: "(\<forall>c \<in> set s. c \<noteq> hd pat) \<Longrightarrow> pat \<noteq> [] \<Longrightarrow> remove_all pat s = s"
proof (induction s)
  case (Cons a s)
  then have "\<not> prefix pat (a # s)" by (cases pat) auto
  with Cons show ?case by simp
qed simp

lemma remove_all_append1:
  "c \<notin> set u \<Longrightarrow> remove_all [c] (u @ c # v) = u @ remove_all [c] v"
  by (induction u) (auto simp: prefix_def)

lemma dropWhile_hd_id: "s \<noteq> [] \<Longrightarrow> \<not> p (hd s) \<Longrightarrow> dropWhile p s = s"
  by (cases s) auto

lemma strip_by_id: "(\<forall>c \<in> set s. \<not> p c) \<Longrightarrow> strip_by p s = s"
proof (cases "s = []")
  case False
  assume a: "\<forall>c \<in> set s. \<not> p c"
  with False have "dropWhile p s = s" by (simp add: dropWhile_hd_id)
  moreover have "dropWhile p (rev s) = rev s"
    using False a by (simp add: dropWhile_hd_id hd_rev)
  ultimately show ?thesis by (simp add: strip_by_def)
qed (simp add: strip_by_def)

section \<open>int(text, base)\<close>

definition digit_val :: "char \<Rightarrow> nat option" where
  "digit_val c = (let n = cval c in
     if 48 \<le> n \<and> n \<le> 57 then Some (n - 48)
     else if 97 \<le> n \<and> n \<le> 122 then Some (n - 87)
     else if 65 \<le> n \<and> n \<le> 90 then Some (n - 55)
     else None)"

text \<open>Digits with single underscores between them; \<open>ok\<close> is set after a digit.\<close>

fun digits_from :: "nat \<Rightarrow> bool \<Rightarrow> nat \<Rightarrow> string \<Rightarrow> nat option" where
  "digits_from b ok acc [] = (if ok then Some acc else None)"
| "digits_from b ok acc (c # s) =
     (if c = CHR ''_'' then (if ok then digits_from b False acc s else None)
      else case digit_val c of
             None \<Rightarrow> None
           | Some d \<Rightarrow> if d < b then digits_from b True (acc * b + d) s else None)"

text \<open>The decimal length limit of the interpreter (4300 digits) applies to base 10 only.\<close>

definition unsigned_int :: "nat \<Rightarrow> string \<Rightarrow> nat option" where
  "unsigned_int b s =
     (if b = 10 \<and> 4300 < length (filter (\<lambda>c. c \<noteq> CHR ''_'') s) then None
      else digits_from b False 0 s)"

definition drop_base :: "nat \<Rightarrow> string \<Rightarrow> string" where
  "drop_base b s =
     (if (b = 16 \<and> (prefix ''0x'' s \<or> prefix ''0X'' s)) \<or>
         (b = 8 \<and> (prefix ''0o'' s \<or> prefix ''0O'' s))
      then (case drop 2 s of [] \<Rightarrow> [] | c # r \<Rightarrow> if c = CHR ''_'' then r else c # r)
      else s)"

definition py_int :: "nat \<Rightarrow> string \<Rightarrow> int option" where
  "py_int b s = (case py_strip s of
       [] \<Rightarrow> None
     | c # r \<Rightarrow>
         if c = CHR ''-'' then map_option (\<lambda>n. - int n) (unsigned_int b (drop_base b r))
         else if c = CHR ''+'' then map_option int (unsigned_int b (drop_base b r))
         else map_option int (unsigned_int b (drop_base b (c # r))))"

text \<open>\<open>str(n)\<close> of an integer.\<close>

fun show_nat :: "nat \<Rightarrow> string" where
  "show_nat n = (if n < 10 then [char_of (n + 48)] else show_nat (n div 10) @ [char_of (n mod 10 + 48)])"

declare show_nat.simps [simp del]

definition show_int :: "int \<Rightarrow> string" where
  "show_int n = (if n < 0 then CHR ''-'' # show_nat (nat (- n)) else show_nat (nat n))"

section \<open>UUIDs\<close>

type_synonym uuid = "128 word"

definition hexchar :: "nat \<Rightarrow> char" where
  "hexchar d = ''0123456789abcdef'' ! d"

fun to_base16 :: "nat \<Rightarrow> nat \<Rightarrow> nat list" where
  "to_base16 0 n = []"
| "to_base16 (Suc k) n = to_base16 k (n div 16) @ [n mod 16]"

definition hex32 :: "uuid \<Rightarrow> string" where
  "hex32 u = map hexchar (to_base16 32 (unat u))"

definition str_uuid :: "uuid \<Rightarrow> string" where
  "str_uuid u = (let h = hex32 u in
     take 8 h @ ''-'' @ take 4 (drop 8 h) @ ''-'' @ take 4 (drop 12 h) @ ''-'' @
     take 4 (drop 16 h) @ ''-'' @ drop 20 h)"

definition parse_uuid :: "string \<Rightarrow> uuid option" where
  "parse_uuid s =
     (let h = remove_all ''-'' (strip_by (\<lambda>c. c = CHR ''{'' \<or> c = CHR ''}'')
                (remove_all ''uuid:'' (remove_all ''urn:'' s)))
      in if length h \<noteq> 32 then None
         else case py_int 16 h of
                None \<Rightarrow> None
              | Some n \<Rightarrow> if 0 \<le> n \<and> n < 2 ^ 128 then Some (of_nat (nat n)) else None)"

subsection \<open>Printing and parsing are inverse\<close>

lemma length_to_base16 [simp]: "length (to_base16 k n) = k"
  by (induction k arbitrary: n) auto

lemma to_base16_lt: "d \<in> set (to_base16 k n) \<Longrightarrow> d < 16"
  by (induction k arbitrary: n) auto

lemma length_hex32 [simp]: "length (hex32 u) = 32"
  by (simp add: hex32_def)

lemma hexchar_table:
  "\<forall>d \<in> {0, 1, 2, 3, 4, 5, 6, 7, 8, 9, 10, 11, 12, 13, 14, 15}.
     digit_val (hexchar d) = Some d \<and> hexchar d \<notin> set ''-{}_u+xXoO'' \<and> \<not> is_space (hexchar d)"
  by (simp add: hexchar_def digit_val_def cval_def is_space_def Let_def)

lemma hex_digit_cases:
  "(d::nat) < 16 \<Longrightarrow> d \<in> {0, 1, 2, 3, 4, 5, 6, 7, 8, 9, 10, 11, 12, 13, 14, 15}"
  by simp presburger

lemma hexchar_facts:
  assumes "d < 16"
  shows "digit_val (hexchar d) = Some d" and "hexchar d \<notin> set ''-{}_u+xXoO''"
    and "\<not> is_space (hexchar d)"
  using bspec[OF hexchar_table hex_digit_cases[OF assms]] by blast+

lemma digits_from_hex:
  assumes "\<And>d. d \<in> set ds \<Longrightarrow> d < 16" and "ok \<or> ds \<noteq> []"
  shows "digits_from 16 ok acc (map hexchar ds) = Some (foldl (\<lambda>a d. a * 16 + d) acc ds)"
  using assms
proof (induction ds arbitrary: acc ok)
  case Nil
  then show ?case by simp
next
  case (Cons d ds)
  then have d: "d < 16" by simp
  have "hexchar d \<noteq> CHR ''_''" using hexchar_facts(2)[OF d] by auto
  with Cons d show ?case by (simp add: hexchar_facts(1))
qed

lemma foldl_to_base16: "foldl (\<lambda>a d. a * 16 + d) 0 (to_base16 k n) = n mod 16 ^ k"
proof (induction k arbitrary: n)
  case 0
  then show ?case by simp
next
  case (Suc k)
  have "n mod 16 ^ Suc k = (n div 16 mod 16 ^ k) * 16 + n mod 16"
    by (simp add: mod_mult2_eq mult.commute)
  with Suc show ?case by simp
qed

lemma hex32_chars: "c \<in> set (hex32 u) \<Longrightarrow> c \<notin> set ''-{}_u+xXoO'' \<and> \<not> is_space c"
  using hexchar_facts to_base16_lt by (auto simp: hex32_def)

lemma hex32_char_neq:
  assumes "c \<in> set (hex32 u)"
  shows "c \<noteq> CHR ''-''" "c \<noteq> CHR ''{''" "c \<noteq> CHR ''}''" "c \<noteq> CHR ''u''" "c \<noteq> CHR ''+''"
    "c \<noteq> CHR ''x''" "c \<noteq> CHR ''X''"
  using hex32_chars[OF assms] by auto

lemma str_uuid_chars: "c \<in> set (str_uuid u) \<Longrightarrow> c = CHR ''-'' \<or> c \<in> set (hex32 u)"
  by (auto simp: str_uuid_def Let_def dest: in_set_takeD in_set_dropD)

lemma take_drop_split:
  assumes "length h = 32"
  shows "take 8 h @ take 4 (drop 8 h) @ take 4 (drop 12 h) @ take 4 (drop 16 h) @ drop 20 h = h"
proof -
  have "take 4 (drop 16 h) @ drop 20 h = drop 16 h"
    using append_take_drop_id[of 4 "drop 16 h"] by simp
  moreover have "take 4 (drop 12 h) @ drop 16 h = drop 12 h"
    using append_take_drop_id[of 4 "drop 12 h"] by simp
  moreover have "take 4 (drop 8 h) @ drop 12 h = drop 8 h"
    using append_take_drop_id[of 4 "drop 8 h"] by simp
  ultimately show ?thesis by simp
qed

lemma str_uuid_no_hyphen: "remove_all ''-'' (str_uuid u) = hex32 u"
proof -
  let ?h = "hex32 u"
  have n: "CHR ''-'' \<notin> set ?h" using hex32_char_neq(1) by blast
  then have m: "CHR ''-'' \<notin> set (take k (drop j ?h))" "CHR ''-'' \<notin> set (drop j ?h)"
    "CHR ''-'' \<notin> set (take k ?h)" for k j
    by (auto dest: in_set_takeD in_set_dropD)
  have last: "remove_all ''-'' (drop 20 ?h) = drop 20 ?h"
    by (rule remove_all_id) (use m in auto)
  show ?thesis
    unfolding str_uuid_def Let_def
    using take_drop_split[of ?h] last
    by (simp add: remove_all_append1 m del: drop_drop take_drop)
qed

lemma str_uuid_clean:
  "strip_by (\<lambda>c. c = CHR ''{'' \<or> c = CHR ''}'')
     (remove_all ''uuid:'' (remove_all ''urn:'' (str_uuid u))) = str_uuid u"
proof -
  have c: "c \<noteq> CHR ''u'' \<and> c \<noteq> CHR ''{'' \<and> c \<noteq> CHR ''}''" if "c \<in> set (str_uuid u)" for c
    using str_uuid_chars[OF that]
  proof
    assume "c \<in> set (hex32 u)"
    then show ?thesis by (intro conjI hex32_char_neq)
  qed simp
  have "remove_all ''urn:'' (str_uuid u) = str_uuid u"
    by (rule remove_all_id) (use c in auto)
  moreover have "remove_all ''uuid:'' (str_uuid u) = str_uuid u"
    by (rule remove_all_id) (use c in auto)
  moreover have "strip_by (\<lambda>c. c = CHR ''{'' \<or> c = CHR ''}'') (str_uuid u) = str_uuid u"
    by (rule strip_by_id) (use c in auto)
  ultimately show ?thesis by simp
qed

lemma py_int_hex32: "py_int 16 (hex32 u) = Some (int (unat u))"
proof -
  let ?h = "hex32 u"
  have s: "py_strip ?h = ?h"
    unfolding py_strip_def by (rule strip_by_id) (use hex32_chars in blast)
  obtain c r where h: "?h = c # r" using length_hex32[of u] by (cases ?h) auto
  have cr: "c \<in> set ?h" "\<And>d. d \<in> set r \<Longrightarrow> d \<in> set ?h" using h by auto
  have "\<not> prefix ''0x'' ?h" "\<not> prefix ''0X'' ?h"
    using hex32_char_neq(6,7)[of "CHR ''x''" u] hex32_char_neq(6,7)[of "CHR ''X''" u]
    by (auto simp: h prefix_def)
  then have d: "drop_base 16 ?h = ?h" by (simp add: drop_base_def)
  have "digits_from 16 False 0 ?h = Some (foldl (\<lambda>a d. a * 16 + d) 0 (to_base16 32 (unat u)))"
    unfolding hex32_def
  proof (rule digits_from_hex)
    show "False \<or> to_base16 32 (unat u) \<noteq> []" by (metis length_to_base16 list.size(3) zero_neq_numeral)
  qed (rule to_base16_lt)
  also have "\<dots> = Some (unat u)"
    using unsigned_less[where ?'a = nat, of u] by (simp add: foldl_to_base16)
  finally have "unsigned_int 16 ?h = Some (unat u)" by (simp add: unsigned_int_def)
  with s d h hex32_char_neq(1,5)[OF cr(1)] show ?thesis
    by (simp add: py_int_def)
qed

lemma parse_str_uuid [simp]: "parse_uuid (str_uuid u) = Some u"
proof -
  have "int (unat u) < 2 ^ 128"
    using uint_bounded[of u] by simp
  then show ?thesis
    by (simp add: parse_uuid_def Let_def str_uuid_clean str_uuid_no_hyphen py_int_hex32)
qed

lemma str_uuid_inject [simp]: "str_uuid u = str_uuid v \<longleftrightarrow> u = v"
  by (metis option.inject parse_str_uuid)

end
