(* ===== verification/Contract.thy ===== *)
theory Contract
  imports Pystd
begin

text \<open>
  The typed values the services exchange: the interpretation vocabulary of
  \<open>backend/services/claims.py\<close> with its validators, and the claim, evidence, assessment,
  report-version, analysis and export models of \<open>backend/services/api/schemas.py\<close>. Times
  are seconds since the epoch as exact rationals. A literal type is a datatype with one constructor
  per literal.
\<close>

type_synonym time = rat

section \<open>Interpretation of a claim\<close>

datatype taxonomy =
    TaxEmpirical | TaxCausal | TaxDocumentary | TaxPredictive | TaxNormative | TaxMixed | TaxUnclear

datatype assertion_mode =
    Asserted | Reported | Questioned | Hypothetical | Counterfactual | ModeUnclear

datatype speaker_commitment = Endorsed | Rejected | Uncommitted | CommitmentUnclear

datatype eligibility_reason =
    FactualClaim | FactualPremise | Opinion | QuotedNotEndorsed | InsufficientContext | NotAClaim

datatype uncertainty_flag =
    UnresolvedReference | MissingContext | AmbiguousAttribution | AmbiguousCommitment
  | AmbiguousMeaning | SourceTextConflict

record source_ref =
  observation_id :: string
  start_char :: int
  end_char :: int

record interp =
  taxonomy :: taxonomy
  source_refs :: "source_ref list"
  context_refs :: "source_ref list"
  assertion_mode :: assertion_mode
  speaker_commitment :: speaker_commitment
  attributed_to :: "string option"
  eligibility_reason :: eligibility_reason
  uncertainty_flags :: "uncertainty_flag list"

text \<open>\<open>Text\<close>: at least one character that is no white space.\<close>

definition text_ok :: "string \<Rightarrow> bool" where
  "text_ok s = (\<exists>c \<in> set s. \<not> is_space c)"

definition source_ref_ok :: "source_ref \<Rightarrow> bool" where
  "source_ref_ok r = (text_ok (observation_id r) \<and> 0 \<le> start_char r \<and> 0 \<le> end_char r
     \<and> start_char r < end_char r)"

definition eligible :: "interp \<Rightarrow> bool" where
  "eligible i = (eligibility_reason i \<in> {FactualClaim, FactualPremise})"

text \<open>\<open>Interpretation.consistent\<close>: the message of the first test that fails.\<close>

definition consistent :: "interp \<Rightarrow> string option" where
  "consistent i =
     (if taxonomy i = TaxNormative \<and> eligible i
        then Some ''A pure normative judgment is not empirically eligible''
      else if assertion_mode i \<in> {Questioned, Hypothetical} \<and> eligible i
        then Some ''A question or invented scenario is not an asserted factual event''
      else if eligibility_reason i = QuotedNotEndorsed \<and> speaker_commitment i = Endorsed
        then Some ''An endorsed claim cannot be excluded as not endorsed''
      else if \<not> distinct (uncertainty_flags i)
        then Some ''Duplicate uncertainty flags''
      else None)"

definition interpretation_ok :: "interp \<Rightarrow> bool" where
  "interpretation_ok i =
     (source_refs i \<noteq> [] \<and> list_all source_ref_ok (source_refs i)
      \<and> list_all source_ref_ok (context_refs i)
      \<and> (case attributed_to i of None \<Rightarrow> True | Some s \<Rightarrow> text_ok s)
      \<and> consistent i = None)"

lemma interpretation_ok_eligible:
  "interpretation_ok i \<Longrightarrow> eligible i \<Longrightarrow>
     taxonomy i \<noteq> TaxNormative \<and> assertion_mode i \<notin> {Questioned, Hypothetical}"
  by (auto simp: interpretation_ok_def consistent_def split: if_splits)

text \<open>\<open>unique_object\<close>: the decoder's hook that refuses a repeated key.\<close>

fun unique_object :: "(string \<times> json) list \<Rightarrow> (string \<times> json) list \<Rightarrow> string + (string \<times> json) list" where
  "unique_object acc [] = Inr acc"
| "unique_object acc ((k, v) # kvs) =
     (if k \<in> fst ` set acc then Inl ''Duplicate JSON key'' else unique_object (acc @ [(k, v)]) kvs)"

lemma unique_object_Inr_iff:
  "unique_object acc kvs = Inr r \<longleftrightarrow>
     r = acc @ kvs \<and> distinct (map fst kvs) \<and> fst ` set acc \<inter> fst ` set kvs = {}"
  by (induction acc kvs rule: unique_object.induct) (auto simp: image_iff)

section \<open>Claims, evidence, assessments and report versions\<close>

datatype timebase = CaptureTime | MediaTime

datatype modality = Speech | TextMod | BothMod

datatype relation = RelSupport | RelChallenge | RelQualify | RelMixed | RelInsufficient

datatype overall_assessment =
    Supported | Challenged | Qualified | Mixed | InsufficientEvidence

datatype inspection_level = AbstractOnly | FullText | MetadataOnly | UnknownLevel

datatype source_type =
    PeerReviewed | Preprint | Government | News | ReferenceWork | PrimaryDocument | Organization
  | OtherSource

datatype relevance = HighRel | MediumRel | LowRel

datatype retraction_status = NotRetracted | Corrected | Retracted | Withdrawn | UnknownRetraction

datatype attribution = ByUser | ByPipeline

record interval =
  start_ms :: int
  end_ms :: int
  timebase :: timebase

definition interval_ok :: "interval \<Rightarrow> bool" where
  "interval_ok i = (0 \<le> start_ms i \<and> 0 < end_ms i)"

record claim_correction =
  corrected_by :: attribution
  corrected_at :: time
  superseded_proposition :: string

record claim =
  claim_id :: string
  occurrence_id :: string
  claim_interval :: interval
  claim_modality :: modality
  original_text :: string
  claim_proposition :: string
  correction :: "claim_correction option"
  claim_interpretation :: "interp option"
  corrects_occurrence_id :: "string option"
  superseded_by_occurrence_id :: "string option"

record evidence_source =
  source_id :: string
  source_title :: string
  source_publisher :: string
  source_url :: "string option"
  source_published_at :: "time option"

record evidence =
  evidence_id :: string
  evidence_claim :: string
  evidence_source :: evidence_source
  evidence_source_type :: source_type
  evidence_level :: inspection_level
  evidence_relevance :: relevance
  evidence_retraction :: retraction_status
  excerpt :: "string option"
  retrieved_at :: time

record evidence_relation =
  related_evidence :: string
  relation :: relation
  rel_note :: "string option"

record assessment =
  assessment_id :: string
  assessed_claim :: string
  assessment_version :: int
  relations :: "evidence_relation list"
  overall :: overall_assessment
  assessment_provisional :: bool
  assessment_summary :: string

record processing_attempt =
  att_provider :: string
  att_model :: "string option"
  att_decision_id :: "string option"
  att_task :: string
  att_outcome :: string
  att_prompt_tokens :: "int option"
  att_completion_tokens :: "int option"
  att_total_tokens :: "int option"
  att_thinking_leaked :: bool
  att_fenced :: bool
  att_repair :: bool
  att_feedback :: "string option"

record reconciliation_summary =
  coverage_limited :: bool
  reassessment_claim_ids :: "string list"

record report_version =
  report_id :: string
  report_investigation :: uuid
  report_version :: int
  report_created_at :: time
  report_provisional :: bool
  change_summary :: string
  supersedes :: "string option"
  claims :: "claim list"
  evidences :: "evidence list"
  assessments :: "assessment list"
  report_fixture :: bool
  processing_attempts :: "processing_attempt list option"
  reconciliation :: "reconciliation_summary option"

section \<open>Device text\<close>

text \<open>
  The completed-upload text handoff of \<open>backend/services/api/text_schemas.py\<close>: frames with
  their recognised regions, immutable batches and the explicit completion, with the validators.
\<close>

definition count_ok :: "int \<Rightarrow> bool" where
  "count_ok n = (0 \<le> n \<and> n \<le> 1000000)"

record text_observation =
  obs_id :: uuid
  obs_text :: string
  obs_box :: "int list"
  obs_frame_pts :: int

definition text_observation_ok :: "text_observation \<Rightarrow> bool" where
  "text_observation_ok t =
     (1 \<le> length (obs_text t) \<and> length (obs_text t) \<le> 4096 \<and> count_ok (obs_frame_pts t)
      \<and> list_all (\<lambda>x. 0 \<le> x \<and> x \<le> 10000) (obs_box t)
      \<and> (case obs_box t of
            [l, t', r, b] \<Rightarrow> l < r \<and> t' < b \<and> py_strip (obs_text t) \<noteq> []
          | _ \<Rightarrow> False))"

datatype frame_status = FrameRecognized | FrameNoText | FrameFailed

record text_frame =
  frame_pts :: int
  frame_status :: frame_status
  frame_regions :: int
  frame_recognition_ms :: int
  failed_regions :: int
  text_observations :: "text_observation list"

text \<open>\<open>TextFrame.consistent_outcome\<close> after the field constraints.\<close>

definition text_frame_ok :: "text_frame \<Rightarrow> bool" where
  "text_frame_ok f =
     (count_ok (frame_pts f) \<and> 0 \<le> frame_regions f \<and> frame_regions f \<le> 100
      \<and> count_ok (frame_recognition_ms f) \<and> 0 \<le> failed_regions f \<and> failed_regions f \<le> 100
      \<and> length (text_observations f) \<le> 100 \<and> list_all text_observation_ok (text_observations f)
      \<and> \<not> failed_regions f > frame_regions f
      \<and> \<not> (frame_status f = FrameNoText \<and>
            (frame_regions f \<noteq> 0 \<or> failed_regions f \<noteq> 0 \<or> text_observations f \<noteq> []))
      \<and> \<not> (frame_status f = FrameFailed \<and>
            (frame_regions f = 0 \<or> failed_regions f \<noteq> frame_regions f \<or> text_observations f \<noteq> []))
      \<and> \<not> (frame_status f = FrameRecognized \<and> frame_regions f \<le> failed_regions f)
      \<and> \<not> list_ex (\<lambda>t. obs_frame_pts t \<noteq> frame_pts f) (text_observations f))"

record text_batch =
  batch_id :: int
  batch_frames :: "text_frame list"

record text_completion =
  batch_count :: int
  dropped_frames :: int
  capped_frames :: int
  unfinished_frames :: int

definition text_completion_ok :: "text_completion \<Rightarrow> bool" where
  "text_completion_ok c = (0 \<le> batch_count c \<and> batch_count c \<le> 64 \<and> count_ok (dropped_frames c)
     \<and> count_ok (capped_frames c) \<and> count_ok (unfinished_frames c))"

lemma text_frame_ok_observations:
  "text_frame_ok f \<Longrightarrow> text_observations f \<noteq> [] \<Longrightarrow> frame_status f = FrameRecognized"
  by (cases "frame_status f") (auto simp: text_frame_ok_def)

section \<open>Analysis reads and exports\<close>

datatype analysis_status = AnalysisPending | AnalysisPartial | NoUsable | AnalysisComplete

datatype analysis_modality = SpeechModality | TextModality

datatype gap_reason =
    NO_AUDIO_TRACK | ASR_QUOTA_EXHAUSTED | ASR_OUTCOME_UNKNOWN | ASR_DISABLED | ASR_UNAVAILABLE
  | DEVICE_TEXT_MISSING | DEVICE_TEXT_INCOMPLETE | DEVICE_TEXT_FRAME_FAILED
  | CAPTURE_CHUNK_MISSING | CAPTURE_CHUNK_INVALID

datatype speech_status = SpeechPending | SpeechRunning | SpeechCompleted | SpeechUnavailable

record speech_segment =
  seg_text :: string
  seg_interval :: interval

record speech_result =
  speech_status :: speech_status
  speech_reason :: "string option"
  speech_provider :: "string option"
  speech_model :: "string option"
  speech_version :: "int option"
  speech_source_sha256 :: "string option"
  speech_audio_sha256 :: "string option"
  speech_settings_sha256 :: "string option"
  speech_segments :: "speech_segment list"

record analysis_gap =
  gap_modality :: analysis_modality
  gap_reason :: gap_reason
  gap_interval :: "interval option"

record device_text_read =
  dtr_investigation :: uuid
  dtr_upload :: uuid
  dtr_sha256 :: string
  dtr_completed :: bool
  dtr_job :: "uuid option"
  dtr_batches :: "text_batch list"
  dtr_completion :: "text_completion option"

record analysis_read =
  analysis_status :: analysis_status
  text_deadline :: "time option"
  text_expired :: bool
  analyzed_modalities :: "analysis_modality list"
  pending_modalities :: "analysis_modality list"
  unavailable_modalities :: "analysis_modality list"
  analysis_gaps :: "analysis_gap list"
  analysis_text :: "device_text_read option"
  captions :: "speech_segment list"

record export_assessment =
  exp_overall :: overall_assessment
  exp_summary :: string
  exp_provisional :: bool

record export_claim =
  exc_id :: string
  exc_proposition :: string
  exc_interval :: interval
  exc_corrected :: bool
  exc_assessment :: "export_assessment option"

record export_source =
  exs_evidence_id :: string
  exs_claim_id :: string
  exs_title :: string
  exs_publisher :: string
  exs_url :: "string option"
  exs_published_at :: "time option"
  exs_retrieved_at :: time
  exs_source_type :: source_type
  exs_level :: inspection_level
  exs_retraction :: retraction_status
  exs_relation :: "relation option"

record report_export =
  exr_investigation :: uuid
  exr_report_id :: string
  exr_version :: int
  exr_supersedes :: "string option"
  exr_provisional :: bool
  exr_fixture :: bool
  exr_report_created_at :: time
  exr_retrieved_at :: time
  exr_change_summary :: string
  exr_claims :: "export_claim list"
  exr_sources :: "export_source list"
  exr_limitations :: "string list"

end
