(* ===== verification/Observations.thy ===== *)
theory Observations
  imports Contract
begin

text \<open>
  The inputs of claim extraction: \<open>Observation\<close> and \<open>ObservationWindow\<close> of
  \<open>pipeline/extraction.py\<close> with their validators, \<open>ExtractionPolicy\<close> of
  \<open>pipeline/incremental.py\<close>, and the ledger that module keeps in
  \<open>extraction_runs.data\<close>, one field per key. A key that may be absent is an option, a job
  identifier that is stored as text is the identifier, and \<open>unadmitted\<close>, stored only when it
  has an item, is a list.
\<close>

section \<open>Observations and windows\<close>

datatype obs_role = TargetRole | ContextRole

record observation =
  ob_id :: string
  ob_role :: obs_role
  ob_text :: string
  ob_modality :: modality
  ob_timebase :: timebase
  ob_start :: int
  ob_end :: int
  ob_speaker :: "string option"

definition MAX_WINDOW_CHARS :: nat where
  "MAX_WINDOW_CHARS = 24000"

definition named :: "string \<Rightarrow> bool" where
  "named s \<longleftrightarrow> 1 \<le> length s \<and> length s \<le> 200 \<and> text_ok s"

definition observation_ok :: "observation \<Rightarrow> bool" where
  "observation_ok x \<longleftrightarrow> named (ob_id x) \<and> 1 \<le> length (ob_text x) \<and> length (ob_text x) \<le> 8000
     \<and> ob_modality x \<noteq> BothMod \<and> 0 \<le> ob_start x \<and> 0 < ob_end x
     \<and> (case ob_speaker x of None \<Rightarrow> True | Some s \<Rightarrow> text_ok s)
     \<and> \<not> (ob_end x \<le> ob_start x \<or> py_strip (ob_text x) = [])"

definition characters :: "observation list \<Rightarrow> nat" where
  "characters xs = sum_list (map (\<lambda>x. length (ob_text x)) xs)"

record observation_window =
  win_id :: string
  win_hosted :: bool
  win_groq :: bool
  win_observations :: "observation list"

definition window_ok :: "observation_window \<Rightarrow> bool" where
  "window_ok w \<longleftrightarrow> named (win_id w)
     \<and> 1 \<le> length (win_observations w) \<and> length (win_observations w) \<le> 128
     \<and> list_all observation_ok (win_observations w)
     \<and> distinct (map ob_id (win_observations w))
     \<and> card (ob_timebase ` set (win_observations w)) = 1
     \<and> list_ex (\<lambda>x. ob_role x = TargetRole) (win_observations w)
     \<and> \<not> characters (win_observations w) > MAX_WINDOW_CHARS"

lemma characters_simps [simp]:
  "characters [] = 0"
  "characters (x # xs) = length (ob_text x) + characters xs"
  "characters (xs @ ys) = characters xs + characters ys"
  by (simp_all add: characters_def)

text \<open>The observation a window names: identifiers are unique in a validated window.\<close>

definition observed :: "observation_window \<Rightarrow> string \<Rightarrow> observation option" where
  "observed w i = fetch (\<lambda>x. ob_id x = i) (win_observations w)"

lemma observed_SomeD: "observed w i = Some x \<Longrightarrow> x \<in> set (win_observations w) \<and> ob_id x = i"
  by (auto simp: observed_def dest: fetch_SomeD)

section \<open>The extraction ledger\<close>

record extraction_policy =
  pol_max_requests :: int
  pol_max_tokens :: int
  pol_reserved_requests :: int
  pol_reserved_tokens :: int
  pol_batch :: int
  pol_overlap :: int
  pol_max_observations :: int

definition policy_ok :: "extraction_policy \<Rightarrow> bool" where
  "policy_ok p \<longleftrightarrow> 1 \<le> pol_max_requests p \<and> pol_max_requests p \<le> 10000
     \<and> 1 \<le> pol_max_tokens p \<and> pol_max_tokens p \<le> 2147483647
     \<and> 1 \<le> pol_reserved_requests p \<and> 1 \<le> pol_reserved_tokens p
     \<and> 1 \<le> pol_batch p \<and> pol_batch p \<le> 64 \<and> 1 \<le> pol_overlap p \<and> pol_overlap p \<le> 32
     \<and> 1 \<le> pol_max_observations p \<and> pol_max_observations p \<le> 4096
     \<and> \<not> (pol_reserved_requests p \<ge> pol_max_requests p \<or> pol_reserved_tokens p \<ge> pol_max_tokens p)"

record ledger_entry =
  led_source :: observation
  led_job :: "uuid option"
  led_windows :: "uuid list"
  led_reason :: "string option"

record unadmitted_item =
  una_id :: string
  una_start :: int
  una_end :: int
  una_timebase :: timebase
  una_reason :: string

record producer =
  pro_source :: string
  pro_reconcile :: bool

record sealed_input =
  sea_accepted :: "string list"
  sea_job :: "uuid option"

record extraction_ledger =
  xl_policy :: extraction_policy
  xl_hosted :: bool
  xl_groq :: bool
  xl_producer :: "producer option"
  xl_closed :: bool
  xl_observations :: "ledger_entry list"
  xl_windows :: "uuid list"
  xl_requests :: int
  xl_tokens :: int
  xl_unadmitted :: "unadmitted_item list"
  xl_sealed :: "sealed_input option"

end
