(* ===== verification/JobStates.thy ===== *)
theory JobStates
  imports Prelude
begin

text \<open>
  The pure job state machine of \<open>backend/services/jobs/states.py\<close>: the persisted state with
  the \<open>cancel_requested\<close> flag, the events, the transition function and the documented
  invariants. An illegal event is the error value \<open>IllegalTransition\<close>.
\<close>

section \<open>States, events and transitions\<close>

datatype job_state = QUEUED | LEASED | RUNNING | PUBLISHED | CANCELLED | DELETED | FAILED

datatype job_event =
    CLAIM | START | PUBLISH | FAIL | RELEASE | RETRY | EXPIRE | REQUEST_CANCEL | CANCEL | DELETE

fun state_value :: "job_state \<Rightarrow> string" where
  "state_value QUEUED = ''queued''"
| "state_value LEASED = ''leased''"
| "state_value RUNNING = ''running''"
| "state_value PUBLISHED = ''published''"
| "state_value CANCELLED = ''cancelled''"
| "state_value DELETED = ''deleted''"
| "state_value FAILED = ''failed''"

record job_status =
  state :: job_state
  cancel_requested :: bool

datatype illegal_transition = IllegalTransition job_status job_event

definition TERMINAL :: "job_state list" where
  "TERMINAL = [PUBLISHED, CANCELLED, DELETED, FAILED]"

definition LEASED_STATES :: "job_state list" where
  "LEASED_STATES = [LEASED, RUNNING]"

definition ACTIVE :: "job_state list" where
  "ACTIVE = QUEUED # LEASED_STATES"

text \<open>The \<open>match\<close> of \<open>apply\<close>: the first case whose guard holds, else the exception.\<close>

fun apply_event :: "job_status \<Rightarrow> job_event \<Rightarrow> illegal_transition + job_status" where
  "apply_event s CLAIM =
     (if state s = QUEUED then Inr (s\<lparr>state := LEASED\<rparr>) else Inl (IllegalTransition s CLAIM))"
| "apply_event s START =
     (if state s = LEASED \<and> \<not> cancel_requested s then Inr (s\<lparr>state := RUNNING\<rparr>)
      else Inl (IllegalTransition s START))"
| "apply_event s PUBLISH =
     (if state s = RUNNING \<and> \<not> cancel_requested s then Inr (s\<lparr>state := PUBLISHED\<rparr>)
      else Inl (IllegalTransition s PUBLISH))"
| "apply_event s FAIL =
     (if state s \<in> set LEASED_STATES then Inr (s\<lparr>state := FAILED\<rparr>)
      else Inl (IllegalTransition s FAIL))"
| "apply_event s REQUEST_CANCEL =
     (if state s = QUEUED then Inr \<lparr>state = CANCELLED, cancel_requested = True\<rparr>
      else if state s \<in> set LEASED_STATES then Inr (s\<lparr>cancel_requested := True\<rparr>)
      else Inl (IllegalTransition s REQUEST_CANCEL))"
| "apply_event s CANCEL =
     (if state s \<in> set ACTIVE then Inr \<lparr>state = CANCELLED, cancel_requested = True\<rparr>
      else Inl (IllegalTransition s CANCEL))"
| "apply_event s DELETE =
     (if state s \<noteq> DELETED then Inr (s\<lparr>state := DELETED\<rparr>) else Inl (IllegalTransition s DELETE))"
| "apply_event s e =
     (if state s \<in> set LEASED_STATES
      then (if cancel_requested s then Inr (s\<lparr>state := CANCELLED\<rparr>) else Inr (s\<lparr>state := QUEUED\<rparr>))
      else Inl (IllegalTransition s e))"

definition is_legal :: "job_status \<Rightarrow> job_event \<Rightarrow> bool" where
  "is_legal s e = is_ok (apply_event s e)"

text \<open>\<open>check_invariants\<close> raises exactly when one of its three tests succeeds.\<close>

definition check_invariants :: "job_status \<Rightarrow> string option" where
  "check_invariants s =
     (if state s = PUBLISHED \<and> cancel_requested s
        then Some ''A published job cannot carry a cancellation request''
      else if state s = QUEUED \<and> cancel_requested s
        then Some ''A queued cancellation request must be effective immediately''
      else if state s = CANCELLED \<and> \<not> cancel_requested s
        then Some ''Effective cancellation must record the request''
      else None)"

definition status_ok :: "job_status \<Rightarrow> bool" where
  "status_ok s = (check_invariants s = None)"

section \<open>Facts about single events\<close>

lemma LEASED_STATES_iff [simp]: "x \<in> set LEASED_STATES \<longleftrightarrow> x = LEASED \<or> x = RUNNING"
  by (simp add: LEASED_STATES_def)

lemma ACTIVE_iff [simp]: "x \<in> set ACTIVE \<longleftrightarrow> x = QUEUED \<or> x = LEASED \<or> x = RUNNING"
  by (simp add: ACTIVE_def)

lemma TERMINAL_iff: "x \<in> set TERMINAL \<longleftrightarrow> x \<notin> set ACTIVE"
  by (cases x) (simp_all add: TERMINAL_def)

lemma status_ok_iff:
  "status_ok s \<longleftrightarrow>
     (state s = PUBLISHED \<longrightarrow> \<not> cancel_requested s) \<and> (state s = QUEUED \<longrightarrow> \<not> cancel_requested s) \<and>
     (state s = CANCELLED \<longrightarrow> cancel_requested s)"
  by (auto simp: status_ok_def check_invariants_def)

text \<open>Which target a legal event reaches, as an elimination rule for the proofs.\<close>

fun_cases apply_event_InrE: "apply_event s e = Inr t"

lemma apply_event_status_ok: "apply_event s e = Inr t \<Longrightarrow> status_ok s \<Longrightarrow> status_ok t"
  by (cases e) (auto simp: status_ok_iff split: if_splits)

lemma apply_event_cancel_sticky:
  "apply_event s e = Inr t \<Longrightarrow> cancel_requested s \<Longrightarrow> cancel_requested t"
  by (cases e) (auto split: if_splits)

lemma apply_event_terminal:
  "apply_event s e = Inr t \<Longrightarrow> state s \<in> set TERMINAL \<Longrightarrow> e = DELETE \<and> state t = DELETED"
  by (cases e) (auto simp: TERMINAL_iff split: if_splits)

lemma apply_event_published:
  "apply_event s e = Inr t \<Longrightarrow> state t = PUBLISHED \<Longrightarrow> e = PUBLISH \<and> state s = RUNNING"
  by (cases e) (auto split: if_splits)

section \<open>Runs\<close>

text \<open>The statuses a sequence of legal events passes through.\<close>

inductive status_steps :: "job_status \<Rightarrow> job_status \<Rightarrow> bool" where
  steps_refl: "status_steps s s"
| steps_event: "status_steps s t \<Longrightarrow> apply_event t e = Inr u \<Longrightarrow> status_steps s u"

lemma status_steps_one: "apply_event s e = Inr t \<Longrightarrow> status_steps s t"
  by (blast intro: status_steps.intros)

lemma status_steps_trans: "status_steps t u \<Longrightarrow> status_steps s t \<Longrightarrow> status_steps s u"
  by (induction rule: status_steps.induct) (auto intro: status_steps.intros)

lemma status_steps_ok: "status_steps s t \<Longrightarrow> status_ok s \<Longrightarrow> status_ok t"
  by (induction rule: status_steps.induct) (auto dest: apply_event_status_ok)

lemma status_steps_cancel_sticky:
  "status_steps s t \<Longrightarrow> cancel_requested s \<Longrightarrow> cancel_requested t"
  by (induction rule: status_steps.induct) (auto dest: apply_event_cancel_sticky)

lemma status_steps_terminal:
  "status_steps s t \<Longrightarrow> state s \<in> set TERMINAL \<Longrightarrow> t = s \<or> state t = DELETED"
proof (induction rule: status_steps.induct)
  case (steps_event s t e u)
  then have "state t \<in> set TERMINAL" by (auto simp: TERMINAL_iff)
  with steps_event.hyps(2) show ?case by (auto dest: apply_event_terminal)
qed simp

lemma status_steps_deleted: "status_steps s t \<Longrightarrow> state s = DELETED \<Longrightarrow> state t = DELETED"
  using status_steps_terminal[of s t] by (auto simp: TERMINAL_iff)

lemma status_steps_cancel_unpublished:
  assumes "status_steps s t" and "cancel_requested s" and "state s \<noteq> PUBLISHED"
  shows "state t \<noteq> PUBLISHED"
  using assms
proof (induction rule: status_steps.induct)
  case (steps_event s t e u)
  have "cancel_requested t"
    using steps_event.hyps(1) steps_event.prems(1) by (rule status_steps_cancel_sticky)
  moreover have "state t \<noteq> PUBLISHED" using steps_event by blast
  ultimately show ?case
    using steps_event.hyps(2) by (cases e) (auto split: if_splits)
qed simp

definition queued_status :: job_status where
  "queued_status = \<lparr>state = QUEUED, cancel_requested = False\<rparr>"

lemma queued_status_ok [simp]: "status_ok queued_status"
  by (simp add: queued_status_def status_ok_iff)

section \<open>Properties of the state machine\<close>

text \<open>C39: Every status reachable from a freshly queued job satisfies the documented invariants
  (\<open>check_invariants\<close> never raises), a job that carried a cancellation request before it
  published never becomes published, and the only way to leave a terminal status is deletion.\<close>

theorem state_machine_sound:
  assumes "status_steps queued_status s" and "status_steps s t"
  shows "check_invariants t = None
    \<and> (cancel_requested s \<longrightarrow> state t \<noteq> PUBLISHED)
    \<and> (state s \<in> set TERMINAL \<longrightarrow> t = s \<or> state t = DELETED)"
proof -
  have "status_ok s" using assms(1) queued_status_ok by (rule status_steps_ok)
  then have "cancel_requested s \<Longrightarrow> state s \<noteq> PUBLISHED" by (auto simp: status_ok_iff)
  with assms \<open>status_ok s\<close> show ?thesis
    by (auto simp: status_ok_def[symmetric] dest: status_steps_ok status_steps_cancel_unpublished
        status_steps_terminal)
qed

theorem state_machine_sound_witness:
  "check_invariants \<lparr>state = CANCELLED, cancel_requested = True\<rparr> = None"
proof -
  let ?s = "\<lparr>state = RUNNING, cancel_requested = True\<rparr>"
  have a: "status_steps queued_status ?s"
    by (rule steps_event[of _ "\<lparr>state = RUNNING, cancel_requested = False\<rparr>" REQUEST_CANCEL],
        rule steps_event[of _ "\<lparr>state = LEASED, cancel_requested = False\<rparr>" START],
        rule steps_event[of _ queued_status CLAIM], rule steps_refl)
       (simp_all add: queued_status_def)
  have b: "status_steps ?s \<lparr>state = CANCELLED, cancel_requested = True\<rparr>"
    by (rule status_steps_one[of _ RELEASE]) simp
  from state_machine_sound[OF a b] show ?thesis by simp
qed

end
