(* ===== verification/JobRetries.thy ===== *)
theory JobRetries
  imports Prelude "HOL-Library.AList"
begin

text \<open>
  Retry classes, the typed exceptions of stage handlers and the retry policy of
  \<open>backend/services/jobs/retries.py\<close>. Python floats are exact rationals; the injected
  \<open>jitter\<close> is a parameter of the policy functions, its value the next random number.
\<close>

section \<open>Classes and exceptions\<close>

datatype retry_class =
    TRANSIENT | RATE_LIMITED | NON_RETRIABLE_INPUT | INVALID_MODEL_SCHEMA | UNKNOWN_OUTCOME

fun class_value :: "retry_class \<Rightarrow> string" where
  "class_value TRANSIENT = ''transient''"
| "class_value RATE_LIMITED = ''rate_limited''"
| "class_value NON_RETRIABLE_INPUT = ''non_retriable_input''"
| "class_value INVALID_MODEL_SCHEMA = ''invalid_model_schema''"
| "class_value UNKNOWN_OUTCOME = ''unknown_outcome''"

lemma class_value_inject [simp]: "class_value c = class_value d \<longleftrightarrow> c = d"
  by (cases c; cases d) simp_all

text \<open>
  The exception hierarchy. \<open>Subclass name base\<close> is a subclass defined elsewhere, which keeps
  the retry class and the delay of its base and has a type name of its own.
\<close>

datatype retryable_error =
    Transient
  | RateLimited "rat option"
  | ProviderCooldown "rat option"
  | NonRetriableInput
  | InvalidModelSchema
  | UnknownOutcome
  | Subclass string retryable_error

fun error_class :: "retryable_error \<Rightarrow> retry_class" where
  "error_class Transient = TRANSIENT"
| "error_class (RateLimited _) = RATE_LIMITED"
| "error_class (ProviderCooldown _) = RATE_LIMITED"
| "error_class NonRetriableInput = NON_RETRIABLE_INPUT"
| "error_class InvalidModelSchema = INVALID_MODEL_SCHEMA"
| "error_class UnknownOutcome = UNKNOWN_OUTCOME"
| "error_class (Subclass _ e) = error_class e"

text \<open>\<open>isinstance(error, RateLimited)\<close> with a hint, and \<open>isinstance(error, ProviderCooldown)\<close>.\<close>

fun hint_of :: "retryable_error \<Rightarrow> rat option" where
  "hint_of (RateLimited h) = h"
| "hint_of (ProviderCooldown h) = h"
| "hint_of (Subclass _ e) = hint_of e"
| "hint_of _ = None"

fun is_cooldown :: "retryable_error \<Rightarrow> bool" where
  "is_cooldown (ProviderCooldown _) = True"
| "is_cooldown (Subclass _ e) = is_cooldown e"
| "is_cooldown _ = False"

fun error_name :: "retryable_error \<Rightarrow> string" where
  "error_name Transient = ''Transient''"
| "error_name (RateLimited _) = ''RateLimited''"
| "error_name (ProviderCooldown _) = ''ProviderCooldown''"
| "error_name NonRetriableInput = ''NonRetriableInput''"
| "error_name InvalidModelSchema = ''InvalidModelSchema''"
| "error_name UnknownOutcome = ''UnknownOutcome''"
| "error_name (Subclass n _) = n"

section \<open>The policy\<close>

text \<open>\<open>jobs.retry_counts\<close>: scheduled retries per class value.\<close>

type_synonym retry_counts = "(string \<times> int) list"

definition count_of :: "retry_counts \<Rightarrow> retry_class \<Rightarrow> int" where
  "count_of m c = (case map_of m (class_value c) of None \<Rightarrow> 0 | Some n \<Rightarrow> n)"

record retry_decision =
  decided_class :: retry_class
  decided_count :: int
  delay_seconds :: "rat option"

definition exhausted :: "retry_decision \<Rightarrow> bool" where
  "exhausted d = (delay_seconds d = None)"

record retry_policy =
  transient_attempts :: int
  rate_limited_attempts :: int
  schema_repair_attempts :: int
  unknown_outcome_attempts :: int
  backoff_seconds :: rat
  max_backoff_seconds :: rat

definition default_policy :: retry_policy where
  "default_policy = \<lparr>transient_attempts = 5, rate_limited_attempts = 5, schema_repair_attempts = 2,
     unknown_outcome_attempts = 3, backoff_seconds = 1, max_backoff_seconds = 60\<rparr>"

fun cap :: "retry_policy \<Rightarrow> retry_class \<Rightarrow> int" where
  "cap p TRANSIENT = transient_attempts p"
| "cap p RATE_LIMITED = rate_limited_attempts p"
| "cap p INVALID_MODEL_SCHEMA = schema_repair_attempts p"
| "cap p UNKNOWN_OUTCOME = unknown_outcome_attempts p"
| "cap p NON_RETRIABLE_INPUT = 0"

text \<open>\<open>2 ** (count - 1)\<close>: a negative exponent gives a fraction in Python.\<close>

definition pow2 :: "int \<Rightarrow> rat" where
  "pow2 n = (if 0 \<le> n then 2 ^ nat n else 1 / 2 ^ nat (- n))"

definition backoff :: "retry_policy \<Rightarrow> rat \<Rightarrow> int \<Rightarrow> rat" where
  "backoff p jitter count = min (max_backoff_seconds p) (backoff_seconds p * pow2 (count - 1)) * jitter"

definition decide :: "retry_policy \<Rightarrow> rat \<Rightarrow> retryable_error \<Rightarrow> retry_counts \<Rightarrow> bool \<Rightarrow> retry_decision" where
  "decide p jitter err counts request_id_recorded =
     (let c = error_class err; n = count_of counts c + 1
      in if n > cap p c then \<lparr>decided_class = c, decided_count = n, delay_seconds = None\<rparr>
         else if c = UNKNOWN_OUTCOME \<and> \<not> request_id_recorded
           then \<lparr>decided_class = c, decided_count = n, delay_seconds = None\<rparr>
         else case hint_of err of
             Some h \<Rightarrow>
               if is_cooldown err
               then \<lparr>decided_class = c, decided_count = n, delay_seconds = Some h\<rparr>
               else \<lparr>decided_class = c, decided_count = n,
                      delay_seconds = Some (min (max h 0) (max_backoff_seconds p))\<rparr>
           | None \<Rightarrow> \<lparr>decided_class = c, decided_count = n, delay_seconds = Some (backoff p jitter n)\<rparr>)"

section \<open>Facts\<close>

text \<open>What the retry counter of a class becomes, as \<open>queue.retry\<close> writes it.\<close>

definition count_up :: "retry_class \<Rightarrow> retry_counts \<Rightarrow> retry_counts" where
  "count_up c m = AList.update (class_value c) (count_of m c + 1) m"

lemma count_of_count_up [simp]:
  "count_of (count_up c m) d = (if c = d then count_of m c + 1 else count_of m d)"
  by (auto simp: count_up_def count_of_def update_conv')

lemma pow2_pos [simp]: "0 < pow2 n"
  by (simp add: pow2_def)

lemma pow2_step: "0 \<le> n \<Longrightarrow> pow2 (n + 1) = 2 * pow2 n"
  by (simp add: pow2_def nat_add_distrib)

lemma backoff_range:
  assumes "0 \<le> jitter" "jitter < 1" "0 \<le> backoff_seconds p" "0 \<le> max_backoff_seconds p"
  shows "0 \<le> backoff p jitter n \<and> backoff p jitter n \<le> max_backoff_seconds p"
proof -
  let ?c = "min (max_backoff_seconds p) (backoff_seconds p * pow2 (n - 1))"
  have c: "0 \<le> ?c" using assms by (simp add: less_imp_le)
  have "?c * jitter \<le> ?c * 1" by (rule mult_left_mono) (use assms c in auto)
  then show ?thesis using assms c by (simp add: backoff_def)
qed

lemma decide_simps [simp]:
  "decided_class (decide p j e m r) = error_class e"
  "decided_count (decide p j e m r) = count_of m (error_class e) + 1"
  by (simp_all add: decide_def Let_def split: option.splits)

lemma exhausted_decide_iff:
  "exhausted (decide p j e m r) \<longleftrightarrow>
     cap p (error_class e) \<le> count_of m (error_class e) \<or>
     (error_class e = UNKNOWN_OUTCOME \<and> \<not> r)"
  by (auto simp: exhausted_def decide_def Let_def split: option.splits)

lemma not_cooldown_hint_class: "hint_of e = Some h \<Longrightarrow> error_class e = RATE_LIMITED"
  by (induction e) auto

lemma decide_delay_range:
  assumes "delay_seconds (decide p j e m r) = Some d" "\<not> is_cooldown e"
    and "0 \<le> j" "j < 1" "0 \<le> backoff_seconds p" "0 \<le> max_backoff_seconds p"
  shows "0 \<le> d \<and> d \<le> max_backoff_seconds p"
  using assms backoff_range[of j p "count_of m (error_class e) + 1"]
  by (auto simp: decide_def Let_def split: option.splits if_splits)

section \<open>Retrying until the policy gives up\<close>

text \<open>
  A handler that keeps failing: each round the policy decides on the stored counts and either
  schedules a retry (counted by \<open>count_up\<close>) or gives up. The list is the sequence of errors.
\<close>

fun scheduled :: "retry_policy \<Rightarrow> rat \<Rightarrow> bool \<Rightarrow> retry_counts \<Rightarrow> retryable_error list \<Rightarrow> retryable_error list" where
  "scheduled p j r m [] = []"
| "scheduled p j r m (e # es) =
     (if exhausted (decide p j e m r) then [] else e # scheduled p j r (count_up (error_class e) m) es)"

lemma scheduled_class_bound:
  "int (length (filter (\<lambda>e. error_class e = c) (scheduled p j r m es))) \<le> max 0 (cap p c - count_of m c)"
proof (induction es arbitrary: m)
  case Nil
  then show ?case by simp
next
  case (Cons e es)
  show ?case
  proof (cases "exhausted (decide p j e m r)")
    case True
    then show ?thesis by simp
  next
    case False
    then have "count_of m (error_class e) < cap p (error_class e)"
      by (auto simp: exhausted_decide_iff)
    with Cons[of "count_up (error_class e) m"] False show ?thesis by auto
  qed
qed



end
