(* ===== verification/Schema.thy ===== *)
theory Schema
  imports Observations JobStates JobRetries
begin

text \<open>
  The tables of \<open>backend/services/jobs/models.py\<close> and \<open>backend/services/models.py\<close>
  that the modelled operations read or write, one record per row and one list per table, the
  exceptions the operations raise, and the clocks a transaction reads. A nullable column is an
  option. An operation of one transaction is a function from the database to
  \<open>exn + (result \<times> db)\<close>; \<open>Inl\<close> is a raised exception, after which the transaction has
  rolled back and the database is the one it started from.
\<close>

section \<open>Clocks and exceptions\<close>

text \<open>
  \<open>tx_now\<close> is \<open>now()\<close>, the start of the transaction; \<open>stmt_now\<close> is
  \<open>clock_timestamp()\<close>, read while a statement runs; \<open>wall\<close> is the worker's
  \<open>datetime.now(UTC)\<close>.
\<close>

record clk =
  tx_now :: time
  stmt_now :: time
  wall :: time

datatype exn =
    LeaseLost
  | PublishRejected string
  | CancellationRequested
  | Retryable retryable_error
  | Infrastructure
  | IntegrityError
  | ValueError
  | KeyError
  | TypeError
  | LookupError
  | OtherError string

section \<open>The job queue's tables\<close>

record stage_key =
  key_version :: int
  key_stage :: string
  key_input_hash :: string

record job_row =
  job_id :: uuid
  job_owner :: "uuid option"
  job_cancel_outcome :: "string option"
  job_key :: stage_key
  job_status :: job_status
  job_fencing :: int
  job_generation :: int
  job_attempts :: int
  job_lease_owner :: "string option"
  job_lease_expires :: "time option"
  job_available :: time
  job_payload :: json
  job_stage_data :: json
  job_failure :: "string option"
  job_retry_class :: "retry_class option"
  job_retry_counts :: retry_counts
  job_request_id :: "string option"
  job_created :: time
  job_updated :: time

record result_row =
  res_job :: uuid
  res_key :: stage_key
  res_fencing :: int
  res_generation :: int
  res_result :: json
  res_published_at :: time

abbreviation job_state :: "job_row \<Rightarrow> job_state" where
  "job_state r \<equiv> state (job_status r)"

abbreviation job_cancel :: "job_row \<Rightarrow> bool" where
  "job_cancel r \<equiv> cancel_requested (job_status r)"

section \<open>The shared tables\<close>

record principal_row =
  prn_id :: uuid
  prn_kind :: string
  prn_created :: time
  prn_google_sub :: "string option"
  prn_merged_into :: "uuid option"
  prn_merged_at :: "time option"

record credential_row =
  crd_id :: uuid
  crd_principal :: uuid
  crd_hash :: string
  crd_created :: time
  crd_revoked :: "time option"

record usage_row =
  use_owner :: uuid
  use_day :: int
  use_checks :: int
  use_bytes :: int

record slot_row =
  slot_provider :: string
  slot_no :: int
  slot_lease :: uuid
  slot_expires :: time

record upload_row =
  upl_id :: uuid
  upl_owner :: uuid
  upl_state :: string
  upl_size :: int
  upl_sha256 :: string
  upl_content_type :: string
  upl_max_bytes :: int
  upl_storage_key :: string
  upl_expires :: time
  upl_created :: time
  upl_completed :: "time option"

record investigation_row =
  inv_id :: uuid
  inv_owner :: uuid
  inv_source_kind :: string
  inv_source_url :: "string option"
  inv_upload :: "uuid option"
  inv_declared_ms :: "int option"
  inv_state :: string
  inv_stage :: string
  inv_version :: int
  inv_error_code :: "string option"
  inv_created :: time
  inv_updated :: time

record session_row =
  ses_id :: uuid
  ses_owner :: uuid
  ses_request_key :: string
  ses_chunk_ms :: int
  ses_state :: string
  ses_started :: time
  ses_closed :: "time option"
  ses_expires :: time
  ses_continue :: "bool option"
  ses_duration :: "int option"

record chunk_row =
  chk_session :: uuid
  chk_seq :: int
  chk_end_ms :: int
  chk_size :: int
  chk_sha256 :: string
  chk_content_type :: string
  chk_modality :: string
  chk_storage_key :: string
  chk_received :: "time option"
  chk_job :: "uuid option"

record report_row =
  rep_id :: uuid
  rep_investigation :: uuid
  rep_owner :: uuid
  rep_version :: int
  rep_summary :: string
  rep_fixture :: bool
  rep_payload :: report_version
  rep_created :: time

record saved_row =
  sav_owner :: uuid
  sav_report_id :: uuid
  sav_investigation :: uuid
  sav_version :: int
  sav_report :: report_version
  sav_at :: time

text \<open>\<open>response\<close> is kept as JSON; the reanalysis module fixes its members.\<close>

record reanalysis_row =
  rea_id :: uuid
  rea_owner :: uuid
  rea_investigation :: uuid
  rea_key :: string
  rea_hash :: string
  rea_reason :: string
  rea_base_version :: int
  rea_published_version :: "int option"
  rea_result_version :: "int option"
  rea_job :: "uuid option"
  rea_response :: json
  rea_created :: time
  rea_source :: "uuid option"

record bucket_row =
  bkt_name :: string
  bkt_tokens :: rat
  bkt_updated :: time
  bkt_held_until :: "time option"

record asr_row =
  asr_id :: uuid
  asr_job :: "uuid option"
  asr_account :: string
  asr_model :: string
  asr_audio_seconds :: int
  asr_created :: time
  asr_outcome :: string
  asr_result :: "json option"
  asr_retry_index :: int
  asr_retry_after :: "int option"

record text_row =
  txt_id :: uuid
  txt_job :: "uuid option"
  txt_media_job :: "uuid option"
  txt_batches :: "text_batch list"
  txt_completion :: "text_completion option"

record analysis_row =
  ana_media_job :: uuid
  ana_investigation :: uuid
  ana_grace :: int
  ana_deadline :: "time option"
  ana_expired :: bool

record idempotency_row =
  idm_owner :: uuid
  idm_key :: string
  idm_hash :: string
  idm_investigation :: uuid
  idm_status :: int
  idm_body :: json
  idm_created :: time

record run_row =
  run_investigation :: uuid
  run_data :: extraction_ledger

record voice_row =
  voi_owner :: uuid
  voi_request :: string
  voi_action :: string
  voi_target_kind :: "string option"
  voi_target_id :: "string option"
  voi_result :: string
  voi_error :: "string option"
  voi_response :: json
  voi_created :: time

record speech_retry_row =
  srt_owner :: uuid
  srt_key :: string
  srt_investigation :: uuid
  srt_response :: json

section \<open>The database\<close>

record db =
  jobs :: "job_row list"
  job_results :: "result_row list"
  principals :: "principal_row list"
  credentials :: "credential_row list"
  quota_usage :: "usage_row list"
  provider_slots :: "slot_row list"
  uploads :: "upload_row list"
  investigations :: "investigation_row list"
  capture_sessions :: "session_row list"
  capture_chunks :: "chunk_row list"
  report_versions :: "report_row list"
  saved_reports :: "saved_row list"
  reanalysis_requests :: "reanalysis_row list"
  provider_buckets :: "bucket_row list"
  asr_requests :: "asr_row list"
  upload_text :: "text_row list"
  media_analysis :: "analysis_row list"
  idempotency_keys :: "idempotency_row list"
  extraction_runs :: "run_row list"
  voice_actions :: "voice_row list"
  speech_retries :: "speech_retry_row list"

definition empty_db :: db where
  "empty_db = \<lparr>jobs = [], job_results = [], principals = [], credentials = [], quota_usage = [],
     provider_slots = [], uploads = [], investigations = [], capture_sessions = [],
     capture_chunks = [], report_versions = [], saved_reports = [], reanalysis_requests = [],
     provider_buckets = [], asr_requests = [], upload_text = [], media_analysis = [],
     idempotency_keys = [], extraction_runs = [], voice_actions = [], speech_retries = []\<rparr>"

text \<open>The primary keys of the tables give the lemmas about keyed tables for each of them.\<close>

interpretation jobs_table: keyed job_id .
interpretation results_table: keyed res_job .
interpretation analysis_table: keyed ana_media_job .
interpretation buckets_table: keyed bkt_name .
interpretation text_table: keyed txt_id .

text \<open>The row of a job, and its stage key.\<close>

definition job_of :: "db \<Rightarrow> uuid \<Rightarrow> job_row option" where
  "job_of d i = fetch (\<lambda>r. job_id r = i) (jobs d)"

definition result_of :: "db \<Rightarrow> uuid \<Rightarrow> result_row option" where
  "result_of d i = fetch (\<lambda>r. res_job r = i) (job_results d)"

text \<open>\<open>order_by(available_at, created_at)\<close> as an ordered type.\<close>

datatype claim_order = ClaimOrder (order_available: time) (order_created: time)

instantiation claim_order :: linorder
begin

definition less_eq_claim_order :: "claim_order \<Rightarrow> claim_order \<Rightarrow> bool" where
  "less_eq_claim_order x y \<longleftrightarrow> order_available x < order_available y \<or>
     (order_available x = order_available y \<and> order_created x \<le> order_created y)"

definition less_claim_order :: "claim_order \<Rightarrow> claim_order \<Rightarrow> bool" where
  "less_claim_order x y \<longleftrightarrow> order_available x < order_available y \<or>
     (order_available x = order_available y \<and> order_created x < order_created y)"

instance
proof
  fix x y z :: claim_order
  show "x < y \<longleftrightarrow> x \<le> y \<and> \<not> y \<le> x"
    by (auto simp: less_eq_claim_order_def less_claim_order_def)
  show "x \<le> x" by (simp add: less_eq_claim_order_def)
  show "x \<le> y \<Longrightarrow> y \<le> z \<Longrightarrow> x \<le> z" by (auto simp: less_eq_claim_order_def)
  show "x \<le> y \<Longrightarrow> y \<le> x \<Longrightarrow> x = y"
    by (cases x; cases y) (auto simp: less_eq_claim_order_def)
  show "x \<le> y \<or> y \<le> x" by (auto simp: less_eq_claim_order_def)
qed

end

end
