(* ===== verification/Analysis.thy ===== *)
theory Analysis
  imports Schema
begin

text \<open>
  Extraction deadlines and observations, \<open>backend/services/pipeline/analysis.py\<close>:
  \<open>record_terminal\<close> runs inside the queue's publish and fail transactions, \<open>resolve_due\<close>
  inside claim, and \<open>summarize\<close> builds the read model of an uploaded investigation.
\<close>

section \<open>Terminal publication\<close>

text \<open>\<open>UUID(payload[field])\<close>: a missing member is a \<open>KeyError\<close>, a member that is no text an
  attribute error, other text that is no identifier a \<open>ValueError\<close>.\<close>

definition payload_uuid :: "json \<Rightarrow> string \<Rightarrow> exn + uuid" where
  "payload_uuid p k = (case jget p k of
       None \<Rightarrow> Inl KeyError
     | Some (JStr s) \<Rightarrow> of_option ValueError (parse_uuid s)
     | Some _ \<Rightarrow> Inl (OtherError ''AttributeError''))"

text \<open>\<open>result["text_grace_seconds"]\<close>: the handler stores the integer setting.\<close>

definition grace_of :: "json \<Rightarrow> exn + int" where
  "grace_of res = (case jget res ''text_grace_seconds'' of
       Some (JInt n) \<Rightarrow> Inr n
     | _ \<Rightarrow> Inl TypeError)"

definition insert_analysis :: "analysis_row \<Rightarrow> db \<Rightarrow> exn + db" where
  "insert_analysis a d =
     (if fetch (\<lambda>r. ana_media_job r = ana_media_job a) (media_analysis d) \<noteq> None then Inr d
      else if fetch (\<lambda>r. inv_id r = ana_investigation a) (investigations d) = None
        then Inl IntegrityError
      else Inr (d\<lparr>media_analysis := media_analysis d @ [a]\<rparr>))"

definition start_text_deadline :: "clk \<Rightarrow> uuid \<Rightarrow> db \<Rightarrow> db" where
  "start_text_deadline c media d =
     (case fetch (\<lambda>r. ana_media_job r = media) (media_analysis d) of
        None \<Rightarrow> d
      | Some a \<Rightarrow>
          if ana_deadline a = None
          then d\<lparr>media_analysis := update_where (\<lambda>r. ana_media_job r = media)
                   (\<lambda>r. r\<lparr>ana_deadline := Some (wall c + of_int (ana_grace a))\<rparr>) (media_analysis d)\<rparr>
          else d)"

definition record_terminal :: "clk \<Rightarrow> uuid \<Rightarrow> json option \<Rightarrow> db \<Rightarrow> exn + db" where
  "record_terminal c i res d =
     (case job_of d i of
        None \<Rightarrow> Inl Infrastructure
      | Some job \<Rightarrow>
          (case (if key_stage (job_key job) = ''media_validation'' then res else None) of
             Some r \<Rightarrow>
               if jget r ''text_grace_seconds'' \<noteq> None
               then rbind (payload_uuid (job_payload job) ''investigation_id'') (\<lambda>identifier.
                    rbind (grace_of r) (\<lambda>grace.
                      insert_analysis
                        \<lparr>ana_media_job = i, ana_investigation = identifier, ana_grace = grace,
                          ana_deadline = (if jget r ''speech'' \<noteq> None
                                          then Some (wall c + of_int grace) else None),
                          ana_expired = False\<rparr> d))
               else Inr d
           | None \<Rightarrow>
               if key_stage (job_key job) = ''upload_asr''
                  \<and> (case jget (job_payload job) ''media_job_id'' of None \<Rightarrow> False | Some v \<Rightarrow> truthy v)
               then rbind (payload_uuid (job_payload job) ''media_job_id'')
                      (\<lambda>media. Inr (start_text_deadline c media d))
               else Inr d))"

section \<open>Due deadlines\<close>

definition resolve_due :: "clk \<Rightarrow> db \<Rightarrow> db" where
  "resolve_due c d =
     d\<lparr>media_analysis := update_where
        (\<lambda>a. \<not> ana_expired a
             \<and> (case ana_deadline a of None \<Rightarrow> False | Some t \<Rightarrow> t \<le> wall c)
             \<and> \<not> list_ex (\<lambda>t. txt_media_job t = Some (ana_media_job a) \<and> txt_completion t \<noteq> None)
                   (upload_text d))
        (\<lambda>a. a\<lparr>ana_expired := True\<rparr>) (media_analysis d)\<rparr>"

section \<open>The read model\<close>

definition speech_gap :: "string option \<Rightarrow> gap_reason" where
  "speech_gap reason = (case reason of
       None \<Rightarrow> ASR_UNAVAILABLE
     | Some r \<Rightarrow>
         if r = ''no_audio_track'' then NO_AUDIO_TRACK
         else if r = ''quota_exhausted'' then ASR_QUOTA_EXHAUSTED
         else if r = ''unknown_outcome'' then ASR_OUTCOME_UNKNOWN
         else if r = ''disabled'' then ASR_DISABLED
         else ASR_UNAVAILABLE)"

definition speech_part ::
    "interval \<Rightarrow> speech_result \<Rightarrow> analysis_modality list \<times> analysis_modality list \<times> analysis_modality list \<times> analysis_gap list"
where
  "speech_part whole s = (case speech_status s of
       SpeechCompleted \<Rightarrow> ([SpeechModality], [], [], [])
     | SpeechPending \<Rightarrow> ([], [SpeechModality], [], [])
     | SpeechRunning \<Rightarrow> ([], [SpeechModality], [], [])
     | SpeechUnavailable \<Rightarrow> ([], [], [SpeechModality],
         [\<lparr>gap_modality = SpeechModality, gap_reason = speech_gap (speech_reason s),
           gap_interval = Some whole\<rparr>]))"

definition text_frames :: "device_text_read option \<Rightarrow> text_frame list" where
  "text_frames t = (case t of None \<Rightarrow> [] | Some r \<Rightarrow> concat (map batch_frames (dtr_batches r)))"

definition completion_of :: "device_text_read option \<Rightarrow> text_completion option" where
  "completion_of t = (case t of None \<Rightarrow> None | Some r \<Rightarrow> dtr_completion r)"

definition frame_gaps :: "text_frame list \<Rightarrow> analysis_gap list" where
  "frame_gaps fs = map (\<lambda>f. \<lparr>gap_modality = TextModality, gap_reason = DEVICE_TEXT_FRAME_FAILED,
       gap_interval = None\<rparr>) (filter (\<lambda>f. frame_status f = FrameFailed \<or> failed_regions f \<noteq> 0) fs)"

definition usable_content :: "speech_result \<Rightarrow> device_text_read option \<Rightarrow> bool" where
  "usable_content speech text =
     (speech_segments speech \<noteq> [] \<or> list_ex (\<lambda>f. text_observations f \<noteq> []) (text_frames text))"

text \<open>The three modality lists and the gaps, each in the order the code appends to it.\<close>

definition analyzed_of :: "interval \<Rightarrow> speech_result \<Rightarrow> device_text_read option \<Rightarrow> analysis_modality list" where
  "analyzed_of whole speech text = fst (speech_part whole speech)
     @ (if list_ex (\<lambda>f. frame_status f \<in> {FrameRecognized, FrameNoText}) (text_frames text)
        then [TextModality] else [])"

definition pending_of :: "interval \<Rightarrow> speech_result \<Rightarrow> device_text_read option \<Rightarrow> bool \<Rightarrow> analysis_modality list" where
  "pending_of whole speech text expired = fst (snd (speech_part whole speech))
     @ (if completion_of text = None \<and> \<not> expired then [TextModality] else [])"

definition unavailable_of :: "interval \<Rightarrow> speech_result \<Rightarrow> device_text_read option \<Rightarrow> bool \<Rightarrow> analysis_modality list" where
  "unavailable_of whole speech text expired = fst (snd (snd (speech_part whole speech)))
     @ (if completion_of text = None \<and> expired then [TextModality] else [])"

definition text_gap :: "interval \<Rightarrow> gap_reason \<Rightarrow> analysis_gap" where
  "text_gap whole reason = \<lparr>gap_modality = TextModality, gap_reason = reason, gap_interval = Some whole\<rparr>"

definition gaps_of :: "interval \<Rightarrow> speech_result \<Rightarrow> device_text_read option \<Rightarrow> bool \<Rightarrow> analysis_gap list" where
  "gaps_of whole speech text expired = snd (snd (snd (speech_part whole speech)))
     @ (if completion_of text = None \<and> expired
        then [text_gap whole (if text_frames text \<noteq> [] then DEVICE_TEXT_INCOMPLETE else DEVICE_TEXT_MISSING)]
        else [])
     @ frame_gaps (text_frames text)
     @ (case completion_of text of
          Some c \<Rightarrow> if dropped_frames c \<noteq> 0 \<or> capped_frames c \<noteq> 0 \<or> unfinished_frames c \<noteq> 0
                    then [text_gap whole DEVICE_TEXT_INCOMPLETE] else []
        | None \<Rightarrow> [])"

definition summarize ::
    "int \<Rightarrow> speech_result \<Rightarrow> device_text_read option \<Rightarrow> time option \<Rightarrow> bool \<Rightarrow> analysis_read"
where
  "summarize total_ms speech text deadline expired =
     (let whole = \<lparr>start_ms = 0, end_ms = total_ms, timebase = MediaTime\<rparr>;
          pending = pending_of whole speech text expired;
          gaps = gaps_of whole speech text expired
      in \<lparr>analysis_status =
            (if usable_content speech text
             then (if gaps \<noteq> [] \<or> pending \<noteq> [] then AnalysisPartial else AnalysisComplete)
             else (if pending \<noteq> [] then AnalysisPending else NoUsable)),
          text_deadline = deadline, text_expired = expired,
          analyzed_modalities = analyzed_of whole speech text, pending_modalities = pending,
          unavailable_modalities = unavailable_of whole speech text expired,
          analysis_gaps = gaps, analysis_text = text, captions = []\<rparr>)"

definition text_read :: "investigation_row \<Rightarrow> upload_row \<Rightarrow> text_row \<Rightarrow> device_text_read" where
  "text_read inq source document =
     \<lparr>dtr_investigation = inv_id inq, dtr_upload = upl_id source, dtr_sha256 = upl_sha256 source,
      dtr_completed = (txt_completion document \<noteq> None), dtr_job = txt_job document,
      dtr_batches = txt_batches document, dtr_completion = txt_completion document\<rparr>"

text \<open>\<open>None\<close> inside \<open>Inr\<close> is the read that reports no analysis.\<close>

definition uploaded_analysis ::
    "db \<Rightarrow> investigation_row \<Rightarrow> int \<Rightarrow> speech_result \<Rightarrow> exn + analysis_read option"
where
  "uploaded_analysis d inq total_ms speech =
     (case fetch (\<lambda>a. ana_investigation a = inv_id inq \<and> job_of d (ana_media_job a) \<noteq> None)
             (media_analysis d) of
        None \<Rightarrow> Inr None
      | Some a \<Rightarrow>
          if map_option job_state (job_of d (ana_media_job a)) \<noteq> Some PUBLISHED then Inr None
          else (case fetch (\<lambda>t. txt_id t = inv_id inq) (upload_text d) of
              None \<Rightarrow> Inr (Some (summarize total_ms speech None (ana_deadline a) (ana_expired a)))
            | Some document \<Rightarrow>
                (case Option.bind (txt_job document) (job_of d) of
                   None \<Rightarrow> Inr None
                 | Some text_job \<Rightarrow>
                     if txt_media_job document \<noteq> Some (ana_media_job a)
                        \<or> job_state text_job \<in> {CANCELLED, DELETED} \<or> job_cancel text_job
                     then Inr None
                     else (case Option.bind (inv_upload inq) (\<lambda>u. fetch (\<lambda>r. upl_id r = u) (uploads d)) of
                         None \<Rightarrow> Inl Infrastructure
                       | Some source \<Rightarrow>
                           Inr (Some (summarize total_ms speech (Some (text_read inq source document))
                                        (ana_deadline a) (ana_expired a)))))))"

section \<open>Facts\<close>

lemma start_text_deadline_frame [frame_simps]:
  "jobs (start_text_deadline c m d) = jobs d"
  "job_results (start_text_deadline c m d) = job_results d"
  "asr_requests (start_text_deadline c m d) = asr_requests d"
  "upload_text (start_text_deadline c m d) = upload_text d"
  "investigations (start_text_deadline c m d) = investigations d"
  by (simp_all add: start_text_deadline_def split: option.splits)

lemma record_terminal_frame:
  assumes "record_terminal c i res d = Inr e"
  shows "jobs e = jobs d" "job_results e = job_results d" "asr_requests e = asr_requests d"
    "upload_text e = upload_text d" "investigations e = investigations d"
  using assms
  by (auto simp: record_terminal_def insert_analysis_def frame_simps rbind_Inr_iff
      split: option.splits if_splits)

lemma resolve_due_frame [simp]:
  "jobs (resolve_due c d) = jobs d" "job_results (resolve_due c d) = job_results d"
  "asr_requests (resolve_due c d) = asr_requests d" "upload_text (resolve_due c d) = upload_text d"
  "investigations (resolve_due c d) = investigations d"
  by (simp_all add: resolve_due_def)

text \<open>Resolving is idempotent at one instant and never revives an expired deadline.\<close>

lemma resolve_due_expired_mono:
  assumes "a \<in> set (media_analysis d)" "ana_expired a"
  shows "a \<in> set (media_analysis (resolve_due c d))"
  using assms by (force simp: resolve_due_def set_update_where)

lemma resolve_due_idem: "resolve_due c (resolve_due c d) = resolve_due c d"
  unfolding resolve_due_def by (simp add: update_where_def)

text \<open>An analysis is reported complete exactly when something usable was recognised or
  transcribed and nothing is pending and no gap is recorded; it is reported pending or without
  usable content only when there is neither a speech segment nor a recognised text; text that never
  arrived is pending before its grace deadline expired and a visible gap afterwards.\<close>

theorem summarize_truthful:
  shows "(analysis_status (summarize n s t dl e) = AnalysisComplete \<longleftrightarrow>
            usable_content s t
            \<and> pending_modalities (summarize n s t dl e) = [] \<and> analysis_gaps (summarize n s t dl e) = [])
    \<and> (analysis_status (summarize n s t dl e) \<in> {AnalysisPending, NoUsable} \<longleftrightarrow>
            speech_segments s = [] \<and> \<not> list_ex (\<lambda>f. text_observations f \<noteq> []) (text_frames t))
    \<and> (completion_of t = None \<longrightarrow>
         (if e then TextModality \<in> set (unavailable_modalities (summarize n s t dl e))
                    \<and> (\<exists>g \<in> set (analysis_gaps (summarize n s t dl e)). gap_modality g = TextModality
                         \<and> gap_reason g \<in> {DEVICE_TEXT_MISSING, DEVICE_TEXT_INCOMPLETE})
          else TextModality \<in> set (pending_modalities (summarize n s t dl e))))"
  by (simp add: summarize_def Let_def pending_of_def unavailable_of_def usable_content_def gaps_of_def text_gap_def)

theorem summarize_truthful_witness:
  "TextModality \<in> set (pending_modalities (summarize 1000
     \<lparr>speech_status = SpeechCompleted, speech_reason = None, speech_provider = None,
      speech_model = None, speech_version = None, speech_source_sha256 = None,
      speech_audio_sha256 = None, speech_settings_sha256 = None, speech_segments = []\<rparr> None None False))"
  (is "_ \<in> set (pending_modalities (summarize 1000 ?s None None False))")
proof -
  have "completion_of None = None" by (simp add: completion_of_def)
  with summarize_truthful[of 1000 ?s None None False] show ?thesis by simp
qed

end
