(* ===== verification/JobQueue.thy ===== *)
theory JobQueue
  imports Analysis
begin

text \<open>
  The PostgreSQL job queue, \<open>backend/services/jobs/queue.py\<close>: one definition per method of
  \<open>JobQueue\<close>, each the body of one transaction over the database of theory Schema. A fresh
  \<open>uuid4()\<close> is a parameter; \<open>locked\<close> says which rows another transaction holds, which
  \<open>SKIP LOCKED\<close> passes over.
\<close>

section \<open>Leases and results\<close>

record lease =
  lease_job :: uuid
  lease_worker :: string
  lease_fencing :: int
  lease_generation :: int
  lease_expires_at :: time

record claimed_job =
  cj_lease :: lease
  cj_key :: stage_key
  cj_payload :: json
  cj_attempts :: int
  cj_retry_counts :: retry_counts
  cj_request_id :: "string option"
  cj_stage_data :: json

record enqueued =
  enq_job_id :: uuid
  enq_created :: bool

record job_record =
  rec_id :: uuid
  rec_key :: stage_key
  rec_status :: job_status
  rec_fencing :: int
  rec_generation :: int
  rec_attempts :: int
  rec_lease_owner :: "string option"
  rec_lease_expires :: "time option"
  rec_failure :: "string option"
  rec_retry_class :: "retry_class option"
  rec_retry_counts :: retry_counts
  rec_request_id :: "string option"
  rec_available :: time

record published_result =
  pub_job :: uuid
  pub_key :: stage_key
  pub_fencing :: int
  pub_generation :: int
  pub_result :: json

datatype cancel_outcome = EFFECTIVE | REQUESTED | NOT_CANCELLABLE

text \<open>The \<open>WHERE\<close> clause that makes every lease-holder write a compare-and-set.\<close>

definition owned :: "lease \<Rightarrow> job_row \<Rightarrow> bool" where
  "owned l r \<longleftrightarrow> job_id r = lease_job l \<and> job_lease_owner r = Some (lease_worker l)
     \<and> job_fencing r = lease_fencing l \<and> job_generation r = lease_generation l"

definition cleared :: "clk \<Rightarrow> job_row \<Rightarrow> job_row" where
  "cleared c r = r\<lparr>job_lease_owner := None, job_lease_expires := None, job_updated := tx_now c\<rparr>"

definition unexpired :: "clk \<Rightarrow> job_row \<Rightarrow> bool" where
  "unexpired c r = (case job_lease_expires r of None \<Rightarrow> False | Some t \<Rightarrow> t > stmt_now c)"

definition set_state :: "job_state \<Rightarrow> job_row \<Rightarrow> job_row" where
  "set_state st r = r\<lparr>job_status := (job_status r)\<lparr>state := st\<rparr>\<rparr>"

text \<open>The two \<open>CASE cancel_requested\<close> columns of release, retry and lease expiry.\<close>

definition requeue :: "job_row \<Rightarrow> job_row" where
  "requeue r = (set_state (if job_cancel r then CANCELLED else QUEUED) r)
     \<lparr>job_generation := job_generation r + (if job_cancel r then 1 else 0)\<rparr>"

definition update_jobs :: "(job_row \<Rightarrow> bool) \<Rightarrow> (job_row \<Rightarrow> job_row) \<Rightarrow> db \<Rightarrow> db" where
  "update_jobs p f d = d\<lparr>jobs := update_where p f (jobs d)\<rparr>"

section \<open>Enqueue\<close>

definition new_job :: "clk \<Rightarrow> uuid \<Rightarrow> stage_key \<Rightarrow> json \<Rightarrow> uuid option \<Rightarrow> job_row" where
  "new_job c i key payload owner =
     \<lparr>job_id = i, job_owner = owner, job_cancel_outcome = None, job_key = key,
      job_status = queued_status, job_fencing = 0, job_generation = 0, job_attempts = 0,
      job_lease_owner = None, job_lease_expires = None, job_available = tx_now c,
      job_payload = payload, job_stage_data = JObj [], job_failure = None, job_retry_class = None,
      job_retry_counts = [], job_request_id = None, job_created = tx_now c, job_updated = tx_now c\<rparr>"

definition enqueue ::
    "clk \<Rightarrow> uuid \<Rightarrow> stage_key \<Rightarrow> json \<Rightarrow> uuid option \<Rightarrow> db \<Rightarrow> exn + enqueued \<times> db"
where
  "enqueue c new_id key payload owner d =
     (case fetch (\<lambda>r. job_key r = key) (jobs d) of
        None \<Rightarrow>
          if fetch (\<lambda>r. job_id r = new_id) (jobs d) \<noteq> None then Inl IntegrityError
          else Inr (\<lparr>enq_job_id = new_id, enq_created = True\<rparr>,
                    d\<lparr>jobs := jobs d @ [new_job c new_id key payload owner]\<rparr>)
      | Some row \<Rightarrow>
          if job_owner row \<noteq> owner then Inl ValueError
          else Inr (\<lparr>enq_job_id = job_id row, enq_created = False\<rparr>, d))"

section \<open>Claim\<close>

definition overdue :: "clk \<Rightarrow> job_row \<Rightarrow> bool" where
  "overdue c r \<longleftrightarrow> job_state r \<in> set LEASED_STATES
     \<and> (case job_lease_expires r of None \<Rightarrow> False | Some t \<Rightarrow> t < tx_now c)"

definition expire_overdue :: "clk \<Rightarrow> db \<Rightarrow> db" where
  "expire_overdue c d = update_jobs (overdue c) (\<lambda>r. cleared c (requeue r)) d"

definition claimable :: "clk \<Rightarrow> string list \<Rightarrow> job_row \<Rightarrow> bool" where
  "claimable c stages r \<longleftrightarrow> key_stage (job_key r) \<in> set stages \<and> job_state r = QUEUED
     \<and> job_available r \<le> tx_now c"

definition row_order :: "job_row \<Rightarrow> claim_order" where
  "row_order r = ClaimOrder (job_available r) (job_created r)"

definition candidate :: "clk \<Rightarrow> (uuid \<Rightarrow> bool) \<Rightarrow> string list \<Rightarrow> db \<Rightarrow> job_row option" where
  "candidate c locked stages d =
     (case sort_key row_order (filter (\<lambda>r. claimable c stages r \<and> \<not> locked (job_id r)) (jobs d)) of
        [] \<Rightarrow> None | r # _ \<Rightarrow> Some r)"

definition leased_to :: "clk \<Rightarrow> string \<Rightarrow> rat \<Rightarrow> job_row \<Rightarrow> job_row" where
  "leased_to c worker lease_seconds r = (set_state LEASED r)
     \<lparr>job_lease_owner := Some worker, job_lease_expires := Some (tx_now c + lease_seconds),
      job_fencing := job_fencing r + 1, job_attempts := job_attempts r + 1, job_updated := tx_now c\<rparr>"

definition claimed_of :: "string \<Rightarrow> job_row \<Rightarrow> time \<Rightarrow> claimed_job" where
  "claimed_of worker r expires =
     \<lparr>cj_lease = \<lparr>lease_job = job_id r, lease_worker = worker, lease_fencing = job_fencing r,
                   lease_generation = job_generation r, lease_expires_at = expires\<rparr>,
      cj_key = job_key r, cj_payload = job_payload r, cj_attempts = job_attempts r,
      cj_retry_counts = job_retry_counts r, cj_request_id = job_request_id r,
      cj_stage_data = job_stage_data r\<rparr>"

definition claim ::
    "clk \<Rightarrow> (uuid \<Rightarrow> bool) \<Rightarrow> string \<Rightarrow> string list \<Rightarrow> rat \<Rightarrow> db \<Rightarrow> claimed_job option \<times> db"
where
  "claim c locked worker stages lease_seconds d =
     (if stages = [] then (None, d)
      else let d1 = expire_overdue c (resolve_due c d)
           in case candidate c locked stages d1 of
                None \<Rightarrow> (None, d1)
              | Some r \<Rightarrow>
                  (Some (claimed_of worker (leased_to c worker lease_seconds r) (tx_now c + lease_seconds)),
                   update_jobs (\<lambda>s. job_id s = job_id r) (leased_to c worker lease_seconds) d1))"

section \<open>Lease-holder operations\<close>

text \<open>\<open>_fenced_update\<close>; \<open>failing\<close> is its test that the new state is \<open>FAILED\<close>.\<close>

definition fenced_update ::
    "clk \<Rightarrow> lease \<Rightarrow> bool \<Rightarrow> (job_row \<Rightarrow> job_row) \<Rightarrow> db \<Rightarrow> exn + bool \<times> db"
where
  "fenced_update c l failing f d =
     (let p = (\<lambda>r. owned l r \<and> job_state r \<in> set LEASED_STATES);
          d1 = update_jobs p (\<lambda>r. f (r\<lparr>job_updated := tx_now c\<rparr>)) d
      in if count_where p (jobs d) = 1
         then if failing then rbind (record_terminal c (lease_job l) None d1) (\<lambda>d2. Inr (True, d2))
              else Inr (True, d1)
         else Inr (False, d1))"

definition start :: "clk \<Rightarrow> lease \<Rightarrow> db \<Rightarrow> bool \<times> db" where
  "start c l d =
     (let p = (\<lambda>r. owned l r \<and> job_state r = LEASED \<and> \<not> job_cancel r)
      in (count_where p (jobs d) = 1,
          update_jobs p (\<lambda>r. (set_state RUNNING r)\<lparr>job_updated := tx_now c\<rparr>) d))"

definition heartbeat :: "clk \<Rightarrow> lease \<Rightarrow> rat \<Rightarrow> db \<Rightarrow> exn + bool \<times> db" where
  "heartbeat c l lease_seconds d =
     (let p = (\<lambda>r. owned l r \<and> job_state r \<in> set LEASED_STATES \<and> unexpired c r)
      in case fetch p (jobs d) of
           None \<Rightarrow> Inl LeaseLost
         | Some row \<Rightarrow> Inr (job_cancel row,
             update_jobs p (\<lambda>r. r\<lparr>job_lease_expires := Some (tx_now c + lease_seconds),
                                   job_updated := tx_now c\<rparr>) d))"

text \<open>The guard of publication and of everything a running stage writes.\<close>

definition active_lease :: "clk \<Rightarrow> lease \<Rightarrow> job_row \<Rightarrow> bool" where
  "active_lease c l r \<longleftrightarrow> owned l r \<and> job_state r = RUNNING \<and> \<not> job_cancel r \<and> unexpired c r"

definition insert_result :: "clk \<Rightarrow> lease \<Rightarrow> stage_key \<Rightarrow> json \<Rightarrow> db \<Rightarrow> exn + db" where
  "insert_result c l key res d =
     (if fetch (\<lambda>r. res_job r = lease_job l \<or> res_key r = key) (job_results d) \<noteq> None
      then Inl IntegrityError
      else Inr (d\<lparr>job_results := job_results d @
             [\<lparr>res_job = lease_job l, res_key = key, res_fencing = lease_fencing l,
               res_generation = lease_generation l, res_result = res, res_published_at = tx_now c\<rparr>]\<rparr>))"

text \<open>The successors in order; \<open>gen n\<close> is the identifier drawn for the \<open>n\<close>-th of them.\<close>

fun enqueue_all ::
    "clk \<Rightarrow> (nat \<Rightarrow> uuid) \<Rightarrow> nat \<Rightarrow> uuid option \<Rightarrow> (stage_key \<times> json) list \<Rightarrow> db \<Rightarrow> exn + db"
where
  "enqueue_all c gen n owner [] d = Inr d"
| "enqueue_all c gen n owner ((key, payload) # rest) d =
     rbind (enqueue c (gen n) key payload owner d) (\<lambda>(_, d1). enqueue_all c gen (Suc n) owner rest d1)"

text \<open>The body of \<open>publish\<close> inside its transaction; \<open>None\<close> is the internal \<open>_NotOwned\<close>.\<close>

definition publish_tx ::
    "clk \<Rightarrow> (nat \<Rightarrow> uuid) \<Rightarrow> lease \<Rightarrow> json \<Rightarrow> (db \<Rightarrow> exn + db) \<Rightarrow> (stage_key \<times> json) list \<Rightarrow> db
       \<Rightarrow> (exn + published_result \<times> db) option"
where
  "publish_tx c gen l res on_publish successors d =
     (case fetch (active_lease c l) (jobs d) of
        None \<Rightarrow> None
      | Some row \<Rightarrow> Some (
          let d1 = update_jobs (active_lease c l) (\<lambda>r. cleared c (set_state PUBLISHED r)) d
          in rbind (insert_result c l (job_key row) res d1) (\<lambda>d2.
             rbind (enqueue_all c gen 0 (job_owner row) successors d2) (\<lambda>d3.
             rbind (record_terminal c (lease_job l) (Some res) d3) (\<lambda>d4.
             rbind (on_publish d4) (\<lambda>d5.
               Inr (\<lparr>pub_job = lease_job l, pub_key = job_key row, pub_fencing = lease_fencing l,
                      pub_generation = lease_generation l, pub_result = res\<rparr>, d5)))))))"

definition record_of :: "job_row \<Rightarrow> job_record" where
  "record_of r =
     \<lparr>rec_id = job_id r, rec_key = job_key r, rec_status = job_status r, rec_fencing = job_fencing r,
      rec_generation = job_generation r, rec_attempts = job_attempts r,
      rec_lease_owner = job_lease_owner r, rec_lease_expires = job_lease_expires r,
      rec_failure = job_failure r, rec_retry_class = job_retry_class r,
      rec_retry_counts = job_retry_counts r, rec_request_id = job_request_id r,
      rec_available = job_available r\<rparr>"

definition get :: "uuid \<Rightarrow> db \<Rightarrow> job_record option" where
  "get i d = map_option record_of (job_of d i)"

definition rejection_reason :: "lease \<Rightarrow> db \<Rightarrow> string" where
  "rejection_reason l d = (case get (lease_job l) d of
       None \<Rightarrow> ''the job no longer exists''
     | Some r \<Rightarrow>
         if rec_generation r \<noteq> lease_generation l
           then ''the job was '' @ state_value (state (rec_status r)) @ '' (generation changed)''
         else if rec_fencing r \<noteq> lease_fencing l then ''the lease is stale (fencing token changed)''
         else if state (rec_status r) \<notin> set LEASED_STATES
           then ''the job is '' @ state_value (state (rec_status r))
         else if rec_lease_owner r \<noteq> Some (lease_worker l) then ''the lease is stale (owner changed)''
         else if cancel_requested (rec_status r) then ''cancellation was requested''
         else ''the job is '' @ state_value (state (rec_status r)))"

text \<open>Any integrity error of the transaction is reported as a duplicate result.\<close>

definition publish ::
    "clk \<Rightarrow> (nat \<Rightarrow> uuid) \<Rightarrow> lease \<Rightarrow> json \<Rightarrow> (db \<Rightarrow> exn + db) \<Rightarrow> (stage_key \<times> json) list \<Rightarrow> db
       \<Rightarrow> exn + published_result \<times> db"
where
  "publish c gen l res on_publish successors d =
     (case publish_tx c gen l res on_publish successors d of
        None \<Rightarrow> Inl (PublishRejected (rejection_reason l d))
      | Some (Inl IntegrityError) \<Rightarrow> Inl (PublishRejected ''a result for this stage key already exists'')
      | Some r \<Rightarrow> r)"

definition save_stage_data :: "clk \<Rightarrow> lease \<Rightarrow> json \<Rightarrow> db \<Rightarrow> exn + db" where
  "save_stage_data c l data d =
     (if count_where (active_lease c l) (jobs d) = 1
      then Inr (update_jobs (active_lease c l)
             (\<lambda>r. r\<lparr>job_stage_data := data, job_updated := tx_now c\<rparr>) d)
      else Inl LeaseLost)"

definition fail_job :: "clk \<Rightarrow> lease \<Rightarrow> string \<Rightarrow> retry_class option \<Rightarrow> db \<Rightarrow> exn + bool \<times> db" where
  "fail_job c l reason cls d = fenced_update c l True
     (\<lambda>r. cleared c ((set_state FAILED r)\<lparr>job_failure := Some reason, job_retry_class := cls\<rparr>)) d"

definition retry_job :: "clk \<Rightarrow> lease \<Rightarrow> retry_class \<Rightarrow> rat \<Rightarrow> db \<Rightarrow> exn + bool \<times> db" where
  "retry_job c l cls delay d = fenced_update c l False
     (\<lambda>r. cleared c ((requeue r)
        \<lparr>job_available := tx_now c + delay, job_retry_class := Some cls,
         job_retry_counts := count_up cls (job_retry_counts r)\<rparr>)) d"

definition record_request_id :: "clk \<Rightarrow> lease \<Rightarrow> string \<Rightarrow> db \<Rightarrow> exn + db" where
  "record_request_id c l request d =
     rbind (fenced_update c l False (\<lambda>r. r\<lparr>job_request_id := Some request\<rparr>) d)
       (\<lambda>(ok, d1). if ok then Inr d1 else Inl LeaseLost)"

definition lock_active :: "clk \<Rightarrow> lease \<Rightarrow> db \<Rightarrow> exn + unit" where
  "lock_active c l d = (case fetch (active_lease c l) (jobs d) of None \<Rightarrow> Inl LeaseLost | Some _ \<Rightarrow> Inr ())"

definition find_by_request_id :: "string \<Rightarrow> db \<Rightarrow> job_record option" where
  "find_by_request_id request d =
     map_option record_of (fetch (\<lambda>r. job_request_id r = Some request) (jobs d))"

definition release :: "clk \<Rightarrow> lease \<Rightarrow> db \<Rightarrow> exn + bool \<times> db" where
  "release c l d = fenced_update c l False (\<lambda>r. cleared c (requeue r)) d"

definition mark_cancelled :: "clk \<Rightarrow> job_row \<Rightarrow> job_row" where
  "mark_cancelled c r = cleared c (r\<lparr>job_status := \<lparr>state = CANCELLED, cancel_requested = True\<rparr>,
     job_generation := job_generation r + 1\<rparr>)"

definition cancel :: "clk \<Rightarrow> lease \<Rightarrow> db \<Rightarrow> exn + bool \<times> db" where
  "cancel c l d = fenced_update c l False (mark_cancelled c) d"

section \<open>Owner operations\<close>

definition request_cancel :: "clk \<Rightarrow> uuid \<Rightarrow> db \<Rightarrow> cancel_outcome \<times> db" where
  "request_cancel c i d = (case job_of d i of
       None \<Rightarrow> (NOT_CANCELLABLE, d)
     | Some row \<Rightarrow>
         if job_state row = QUEUED
         then (EFFECTIVE, update_jobs (\<lambda>r. job_id r = i) (mark_cancelled c) d)
         else if job_state row \<in> set LEASED_STATES
         then (REQUESTED,
               if job_cancel row then d
               else update_jobs (\<lambda>r. job_id r = i)
                      (\<lambda>r. r\<lparr>job_status := (job_status r)\<lparr>cancel_requested := True\<rparr>,
                             job_updated := tx_now c\<rparr>) d)
         else (NOT_CANCELLABLE, d))"

text \<open>\<open>UUID(str(payload.get(field)))\<close>, with a \<open>ValueError\<close> read as no identifier.\<close>

definition payload_identifier :: "json \<Rightarrow> string \<Rightarrow> uuid option" where
  "payload_identifier p k = (case jget p k of
       Some (JStr s) \<Rightarrow> parse_uuid s
     | Some (JInt n) \<Rightarrow> parse_uuid (show_int n)
     | _ \<Rightarrow> None)"

definition prerequisite_stages :: "string list" where
  "prerequisite_stages = [''intake'', ''media_validation'', ''upload_asr'']"

text \<open>The content-free text fence of an owned upload investigation: insert, or clear on conflict.\<close>

definition fence_upload_text :: "uuid \<Rightarrow> uuid option \<Rightarrow> db \<Rightarrow> db" where
  "fence_upload_text identifier owner d =
     (if fetch (\<lambda>q. inv_id q = identifier \<and> Some (inv_owner q) = owner
                     \<and> inv_source_kind q = ''upload'') (investigations d) = None
      then d
      else if fetch (\<lambda>t. txt_id t = identifier) (upload_text d) = None
      then d\<lparr>upload_text := upload_text d @
             [\<lparr>txt_id = identifier, txt_job = None, txt_media_job = None, txt_batches = [],
               txt_completion = None\<rparr>]\<rparr>
      else d\<lparr>upload_text := update_where (\<lambda>t. txt_id t = identifier)
             (\<lambda>t. t\<lparr>txt_media_job := None, txt_batches := [], txt_completion := None\<rparr>)
             (upload_text d)\<rparr>)"

definition tombstone :: "clk \<Rightarrow> job_row \<Rightarrow> job_row" where
  "tombstone c r = cleared c ((set_state DELETED r)
     \<lparr>job_generation := job_generation r + 1, job_payload := JObj [], job_stage_data := JObj []\<rparr>)"

definition erase_content :: "uuid \<Rightarrow> db \<Rightarrow> db" where
  "erase_content i d =
     d\<lparr>job_results := delete_where (\<lambda>r. res_job r = i) (job_results d),
       asr_requests := update_where (\<lambda>a. asr_job a = Some i) (\<lambda>a. a\<lparr>asr_result := None\<rparr>) (asr_requests d),
       upload_text := update_where (\<lambda>t. txt_job t = Some i \<or> txt_media_job t = Some i)
         (\<lambda>t. t\<lparr>txt_batches := [], txt_completion := None\<rparr>) (upload_text d)\<rparr>"

definition delete :: "clk \<Rightarrow> uuid \<Rightarrow> db \<Rightarrow> bool \<times> db" where
  "delete c i d =
     (let prerequisite = fetch (\<lambda>r. job_id r = i \<and> key_stage (job_key r) \<in> set prerequisite_stages) (jobs d);
          p = (\<lambda>r. job_id r = i \<and> job_state r \<noteq> DELETED)
      in if count_where p (jobs d) \<noteq> 1 then (False, update_jobs p (tombstone c) d)
         else let d1 = erase_content i (update_jobs p (tombstone c) d)
              in case prerequisite of
                   None \<Rightarrow> (True, d1)
                 | Some q \<Rightarrow>
                     (case payload_identifier (job_payload q) ''investigation_id'' of
                        None \<Rightarrow> (True, d1)
                      | Some identifier \<Rightarrow> (True, fence_upload_text identifier (job_owner q) d1)))"

section \<open>Reads\<close>

definition published :: "stage_key \<Rightarrow> db \<Rightarrow> published_result list" where
  "published key d =
     map (\<lambda>r. \<lparr>pub_job = res_job r, pub_key = res_key r, pub_fencing = res_fencing r,
               pub_generation = res_generation r, pub_result = res_result r\<rparr>)
       (filter (\<lambda>r. res_key r = key) (job_results d))"

definition owned_leases :: "string \<Rightarrow> db \<Rightarrow> uuid list" where
  "owned_leases worker d =
     map job_id (filter (\<lambda>r. job_lease_owner r = Some worker \<and> job_state r \<in> set LEASED_STATES) (jobs d))"

end
