(* ===== verification/QueueRows.thy ===== *)
theory QueueRows
  imports JobQueue
begin

text \<open>
  What each statement of the queue does to one row: \<open>row_ok\<close> is the invariant of a row of
  \<open>jobs\<close>, \<open>row_trans\<close> the transitions an update may make. One lemma per update function
  of theory JobQueue shows that it is such a transition, and how it is built from events of the
  pure state machine of theory JobStates.
\<close>

section \<open>Row invariant and row transitions\<close>

definition row_ok :: "job_row \<Rightarrow> bool" where
  "row_ok r \<longleftrightarrow> status_ok (job_status r)
     \<and> (job_lease_owner r \<noteq> None \<longleftrightarrow> job_state r \<in> set LEASED_STATES)
     \<and> (job_lease_expires r \<noteq> None \<longleftrightarrow> job_state r \<in> set LEASED_STATES)
     \<and> 0 \<le> job_fencing r \<and> job_attempts r = job_fencing r
     \<and> (job_state r = CANCELLED \<longrightarrow> job_generation r = 1)
     \<and> (job_state r = DELETED \<longrightarrow> job_generation r \<in> {1, 2})
     \<and> (job_state r \<notin> {CANCELLED, DELETED} \<longrightarrow> job_generation r = 0)
     \<and> (job_state r \<in> {LEASED, RUNNING, PUBLISHED} \<longrightarrow> 0 < job_fencing r)"

definition row_trans :: "job_row \<Rightarrow> job_row \<Rightarrow> bool" where
  "row_trans r s \<longleftrightarrow> job_id s = job_id r \<and> job_key s = job_key r \<and> job_owner s = job_owner r
     \<and> status_steps (job_status r) (job_status s) \<and> row_ok s
     \<and> job_fencing r \<le> job_fencing s \<and> job_generation r \<le> job_generation s
     \<and> (job_fencing s = job_fencing r \<longrightarrow>
          job_lease_owner s = None \<or> job_lease_owner s = job_lease_owner r)
     \<and> (job_payload s = job_payload r \<or> job_payload s = JObj [])
     \<and> (job_state r = DELETED \<longrightarrow> job_stage_data s = job_stage_data r)"

lemma row_transD:
  assumes "row_trans r s"
  shows "job_id s = job_id r" "job_key s = job_key r" "job_owner s = job_owner r"
    "status_steps (job_status r) (job_status s)" "row_ok s"
    "job_fencing r \<le> job_fencing s" "job_generation r \<le> job_generation s"
    "job_payload s = job_payload r \<or> job_payload s = JObj []"
    "job_state r = DELETED \<Longrightarrow> job_stage_data s = job_stage_data r"
    "job_fencing s = job_fencing r \<Longrightarrow> job_lease_owner s = None \<or> job_lease_owner s = job_lease_owner r"
  using assms by (simp_all add: row_trans_def)

lemma row_trans_refl: "row_ok r \<Longrightarrow> row_trans r r"
  by (simp add: row_trans_def steps_refl)

lemma row_trans_trans:
  assumes "row_trans r s" "row_trans s t"
  shows "row_trans r t"
  unfolding row_trans_def
proof (intro conjI impI)
  note a = row_transD[OF assms(1)] and b = row_transD[OF assms(2)]
  show "job_id t = job_id r" "job_key t = job_key r" "job_owner t = job_owner r"
    using a(1-3) b(1-3) by simp_all
  show "job_fencing r \<le> job_fencing t" "job_generation r \<le> job_generation t"
    by (rule order_trans[OF a(6) b(6)], rule order_trans[OF a(7) b(7)])
  show "status_steps (job_status r) (job_status t)" by (rule status_steps_trans[OF b(4) a(4)])
  show "row_ok t" by (rule b(5))
  show "job_payload t = job_payload r \<or> job_payload t = JObj []" using a(8) b(8) by auto
  show "job_stage_data t = job_stage_data r" if "job_state r = DELETED"
    using a(9)[OF that] b(9) status_steps_deleted[OF a(4) that] by simp
  show "job_lease_owner t = None \<or> job_lease_owner t = job_lease_owner r"
    if "job_fencing t = job_fencing r"
  proof -
    have "job_fencing s = job_fencing r" "job_fencing t = job_fencing s" using that a(6) b(6) by simp_all
    then show ?thesis using a(10) b(10) by auto
  qed
qed

text \<open>Ownership is never gained without a larger fencing token.\<close>

lemma row_ok_generation: "row_ok r \<Longrightarrow> 0 \<le> job_generation r"
  by (cases "job_state r"; simp add: row_ok_def; elim conjE disjE; simp)

lemma row_trans_not_owned:
  assumes "row_trans r s" and "row_ok r" and "job_id r = lease_job l"
    and "lease_fencing l \<le> job_fencing r" and "\<not> owned l r"
  shows "\<not> owned l s"
proof
  assume o: "owned l s"
  from assms(1) have le: "job_fencing r \<le> job_fencing s" "job_generation r \<le> job_generation s"
    and ok: "row_ok s" by (simp_all add: row_trans_def)
  from o assms(4) le have f: "job_fencing s = job_fencing r" by (simp add: owned_def)
  with o assms(1) have owner: "job_lease_owner r = Some (lease_worker l)"
    by (simp add: owned_def row_trans_def)
  from o ok have "job_state s \<in> set LEASED_STATES" by (simp add: owned_def row_ok_def)
  with ok have "job_generation s = 0" by (cases "job_state s"; simp add: row_ok_def)
  with le row_ok_generation[OF assms(2)] have "job_generation r = job_generation s" by simp
  with f owner o assms(3,5) show False by (simp add: owned_def)
qed

section \<open>The update functions\<close>

lemma set_state_simps [simp]:
  "job_id (set_state st r) = job_id r" "job_key (set_state st r) = job_key r"
  "job_owner (set_state st r) = job_owner r" "job_state (set_state st r) = st"
  "job_cancel (set_state st r) = job_cancel r" "job_fencing (set_state st r) = job_fencing r"
  "job_generation (set_state st r) = job_generation r" "job_attempts (set_state st r) = job_attempts r"
  "job_lease_owner (set_state st r) = job_lease_owner r"
  "job_lease_expires (set_state st r) = job_lease_expires r"
  "job_status (set_state st r) = (job_status r)\<lparr>state := st\<rparr>"
  "job_payload (set_state st r) = job_payload r" "job_stage_data (set_state st r) = job_stage_data r"
  by (simp_all add: set_state_def)

lemma cleared_simps [simp]:
  "job_id (cleared c r) = job_id r" "job_key (cleared c r) = job_key r"
  "job_owner (cleared c r) = job_owner r" "job_status (cleared c r) = job_status r"
  "job_fencing (cleared c r) = job_fencing r" "job_generation (cleared c r) = job_generation r"
  "job_attempts (cleared c r) = job_attempts r" "job_lease_owner (cleared c r) = None"
  "job_lease_expires (cleared c r) = None" "job_payload (cleared c r) = job_payload r"
  "job_retry_counts (cleared c r) = job_retry_counts r" "job_failure (cleared c r) = job_failure r"
  "job_available (cleared c r) = job_available r" "job_retry_class (cleared c r) = job_retry_class r"
  "job_stage_data (cleared c r) = job_stage_data r" "job_request_id (cleared c r) = job_request_id r"
  "job_created (cleared c r) = job_created r" "job_cancel_outcome (cleared c r) = job_cancel_outcome r"
  by (simp_all add: cleared_def)

lemma requeue_simps [simp]:
  "job_id (requeue r) = job_id r" "job_key (requeue r) = job_key r"
  "job_owner (requeue r) = job_owner r" "job_fencing (requeue r) = job_fencing r"
  "job_attempts (requeue r) = job_attempts r" "job_payload (requeue r) = job_payload r"
  "job_retry_counts (requeue r) = job_retry_counts r" "job_stage_data (requeue r) = job_stage_data r"
  "job_generation (requeue r) = job_generation r + (if job_cancel r then 1 else 0)"
  "job_status (requeue r) = (job_status r)\<lparr>state := if job_cancel r then CANCELLED else QUEUED\<rparr>"
  by (simp_all add: requeue_def set_state_def)

lemma leased_to_simps [simp]:
  "job_id (leased_to c w s r) = job_id r" "job_key (leased_to c w s r) = job_key r"
  "job_owner (leased_to c w s r) = job_owner r" "job_state (leased_to c w s r) = LEASED"
  "job_cancel (leased_to c w s r) = job_cancel r" "job_fencing (leased_to c w s r) = job_fencing r + 1"
  "job_generation (leased_to c w s r) = job_generation r"
  "job_lease_owner (leased_to c w s r) = Some w"
  "job_lease_expires (leased_to c w s r) = Some (tx_now c + s)"
  "job_payload (leased_to c w s r) = job_payload r"
  "job_stage_data (leased_to c w s r) = job_stage_data r"
  by (simp_all add: leased_to_def)

lemma mark_cancelled_simps [simp]:
  "job_id (mark_cancelled c r) = job_id r" "job_key (mark_cancelled c r) = job_key r"
  "job_owner (mark_cancelled c r) = job_owner r"
  "job_status (mark_cancelled c r) = \<lparr>state = CANCELLED, cancel_requested = True\<rparr>"
  "job_generation (mark_cancelled c r) = job_generation r + 1"
  "job_lease_owner (mark_cancelled c r) = None" "job_payload (mark_cancelled c r) = job_payload r"
  "job_stage_data (mark_cancelled c r) = job_stage_data r"
  by (simp_all add: mark_cancelled_def)

lemma tombstone_simps [simp]:
  "job_id (tombstone c r) = job_id r" "job_key (tombstone c r) = job_key r"
  "job_owner (tombstone c r) = job_owner r" "job_state (tombstone c r) = DELETED"
  "job_cancel (tombstone c r) = job_cancel r" "job_fencing (tombstone c r) = job_fencing r"
  "job_generation (tombstone c r) = job_generation r + 1"
  "job_payload (tombstone c r) = JObj []" "job_stage_data (tombstone c r) = JObj []"
  "job_lease_owner (tombstone c r) = None" "job_lease_expires (tombstone c r) = None"
  by (simp_all add: tombstone_def)

lemma new_job_simps [simp]:
  "job_id (new_job c i key payload owner) = i" "job_key (new_job c i key payload owner) = key"
  "job_owner (new_job c i key payload owner) = owner"
  "job_status (new_job c i key payload owner) = queued_status"
  "job_payload (new_job c i key payload owner) = payload"
  "job_fencing (new_job c i key payload owner) = 0"
  by (simp_all add: new_job_def)

lemma queued_status_simps [simp]: "state queued_status = QUEUED" "\<not> cancel_requested queued_status"
  by (simp_all add: queued_status_def)

lemma row_trans_requeue:
  assumes "row_ok r" "job_state r \<in> set LEASED_STATES"
  shows "row_trans r (cleared c (requeue r))"
proof -
  have "status_steps (job_status r) (job_status (requeue r))"
    by (rule status_steps_one[of _ RELEASE]) (use assms(2) in auto)
  with assms show ?thesis
    by (cases "job_state r"; simp add: row_trans_def row_ok_def status_ok_iff)
qed

lemma row_trans_claim:
  assumes "row_ok r" "job_state r = QUEUED"
  shows "row_trans r (leased_to c worker s r)"
proof -
  have "status_steps (job_status r) ((job_status r)\<lparr>state := LEASED\<rparr>)"
    by (rule status_steps_one[of _ CLAIM]) (use assms(2) in auto)
  with assms show ?thesis
    by (cases "job_state r"; simp add: row_trans_def row_ok_def status_ok_iff leased_to_def)
qed

lemma row_trans_start:
  assumes "row_ok r" "job_state r = LEASED" "\<not> job_cancel r"
  shows "row_trans r ((set_state RUNNING r)\<lparr>job_updated := t\<rparr>)"
proof -
  have "status_steps (job_status r) ((job_status r)\<lparr>state := RUNNING\<rparr>)"
    by (rule status_steps_one[of _ START]) (use assms(2,3) in auto)
  with assms show ?thesis
    by (cases "job_state r"; simp add: row_trans_def row_ok_def status_ok_iff)
qed

lemma row_trans_publish:
  assumes "row_ok r" "job_state r = RUNNING" "\<not> job_cancel r"
  shows "row_trans r (cleared c (set_state PUBLISHED r))"
proof -
  have "status_steps (job_status r) ((job_status r)\<lparr>state := PUBLISHED\<rparr>)"
    by (rule status_steps_one[of _ PUBLISH]) (use assms(2,3) in auto)
  with assms show ?thesis
    by (cases "job_state r"; simp add: row_trans_def row_ok_def status_ok_iff)
qed

lemma row_trans_fail:
  assumes "row_ok r" "job_state r \<in> set LEASED_STATES"
  shows "row_trans r (cleared c ((set_state FAILED r)\<lparr>job_failure := x, job_retry_class := y\<rparr>))"
proof -
  have "status_steps (job_status r) ((job_status r)\<lparr>state := FAILED\<rparr>)"
    by (rule status_steps_one[of _ FAIL]) (use assms(2) in auto)
  with assms show ?thesis
    by (cases "job_state r"; simp add: row_trans_def row_ok_def status_ok_iff)
qed

lemma row_trans_retry:
  assumes "row_ok r" "job_state r \<in> set LEASED_STATES"
  shows "row_trans r (cleared c ((requeue r)\<lparr>job_available := x, job_retry_class := y, job_retry_counts := z\<rparr>))"
proof -
  have "status_steps (job_status r) (job_status (requeue r))"
    by (rule status_steps_one[of _ RETRY]) (use assms(2) in auto)
  with assms show ?thesis
    by (cases "job_state r"; simp add: row_trans_def row_ok_def status_ok_iff)
qed

lemma row_trans_cancelled:
  assumes "row_ok r" "job_state r \<in> set ACTIVE"
  shows "row_trans r (mark_cancelled c r)"
proof -
  have "status_steps (job_status r) \<lparr>state = CANCELLED, cancel_requested = True\<rparr>"
    by (rule status_steps_one[of _ CANCEL]) (use assms(2) in auto)
  with assms show ?thesis
    by (cases "job_state r"; simp add: row_trans_def row_ok_def status_ok_iff mark_cancelled_def)
qed

lemma row_trans_flag:
  assumes "row_ok r" "job_state r \<in> set LEASED_STATES"
  shows "row_trans r (r\<lparr>job_status := (job_status r)\<lparr>cancel_requested := True\<rparr>, job_updated := t\<rparr>)"
proof -
  have "status_steps (job_status r) ((job_status r)\<lparr>cancel_requested := True\<rparr>)"
    by (rule status_steps_one[of _ REQUEST_CANCEL]) (use assms(2) in auto)
  with assms show ?thesis
    by (cases "job_state r"; simp add: row_trans_def row_ok_def status_ok_iff)
qed

lemma row_trans_tombstone:
  assumes "row_ok r" "job_state r \<noteq> DELETED"
  shows "row_trans r (tombstone c r)"
proof -
  have "status_steps (job_status r) ((job_status r)\<lparr>state := DELETED\<rparr>)"
    by (rule status_steps_one[of _ DELETE]) (use assms(2) in auto)
  with assms show ?thesis
    by (cases "job_state r"; simp add: row_trans_def row_ok_def status_ok_iff tombstone_def)
qed

text \<open>Updates of columns the invariant does not mention.\<close>

lemma row_trans_columns:
  assumes "row_ok r"
  shows "row_trans r (r\<lparr>job_updated := t\<rparr>)"
    "row_trans r (r\<lparr>job_request_id := q\<rparr>)"
    "row_trans r (r\<lparr>job_cancel_outcome := co\<rparr>)"
    "row_trans r (r\<lparr>job_available := t\<rparr>)"
    "job_state r \<noteq> DELETED \<Longrightarrow> row_trans r (r\<lparr>job_stage_data := sd, job_updated := t\<rparr>)"
  using assms by (simp_all add: row_trans_def row_ok_def steps_refl)

lemma row_trans_heartbeat:
  assumes "row_ok r" "job_state r \<in> set LEASED_STATES"
  shows "row_trans r (r\<lparr>job_lease_expires := Some x, job_updated := t\<rparr>)"
  using assms by (cases "job_state r"; simp add: row_trans_def row_ok_def steps_refl)

lemma row_ok_touched [simp]: "row_ok (r\<lparr>job_updated := t\<rparr>) \<longleftrightarrow> row_ok r"
  by (simp add: row_ok_def)

lemma row_trans_touched [simp]: "row_trans (r\<lparr>job_updated := t\<rparr>) s \<longleftrightarrow> row_trans r s"
  by (simp add: row_trans_def)

lemma row_ok_new_job [simp]: "row_ok (new_job c i key payload owner)"
  by (simp add: row_ok_def new_job_def queued_status_def status_ok_iff)

end
