(* ===== verification/QueueInvariant.thy ===== *)
theory QueueInvariant
  imports QueueRows
begin

text \<open>
  The invariant of the queue's two tables and its preservation by every operation of theory
  JobQueue: unique identifiers and stage keys, consistent rows, and one result for exactly the
  published jobs, carrying the fencing token and generation of its job. \<open>queue_step\<close> collects
  the operations as one step relation, interleaved with transactions on other tables.
\<close>

section \<open>The invariant\<close>

definition results_match :: "db \<Rightarrow> bool" where
  "results_match d \<longleftrightarrow>
     (\<forall>x \<in> set (job_results d). \<exists>r \<in> set (jobs d). job_id r = res_job x \<and> job_state r = PUBLISHED
        \<and> job_key r = res_key x \<and> job_fencing r = res_fencing x \<and> job_generation r = res_generation x)
     \<and> (\<forall>r \<in> set (jobs d). job_state r = PUBLISHED \<longrightarrow> (\<exists>x \<in> set (job_results d). res_job x = job_id r))"

definition queue_inv :: "db \<Rightarrow> bool" where
  "queue_inv d \<longleftrightarrow> distinct (map job_id (jobs d)) \<and> distinct (map job_key (jobs d))
     \<and> (\<forall>r \<in> set (jobs d). row_ok r) \<and> distinct (map res_job (job_results d)) \<and> results_match d"

lemma queue_invD:
  assumes "queue_inv d"
  shows "distinct (map job_id (jobs d))" "distinct (map job_key (jobs d))"
    "r \<in> set (jobs d) \<Longrightarrow> row_ok r" "distinct (map res_job (job_results d))" "results_match d"
  using assms by (simp_all add: queue_inv_def)

lemma queue_inv_empty [simp]: "queue_inv empty_db"
  by (simp add: queue_inv_def results_match_def empty_db_def)

lemma queue_inv_cong: "jobs e = jobs d \<Longrightarrow> job_results e = job_results d \<Longrightarrow> queue_inv e = queue_inv d"
  by (simp add: queue_inv_def results_match_def)

text \<open>
  How the rows of one database evolve into those of a later one: no row is lost, and a row without
  a predecessor is new and descends from a freshly queued one.
\<close>

definition jobs_evolve :: "db \<Rightarrow> db \<Rightarrow> bool" where
  "jobs_evolve d e \<longleftrightarrow> (\<forall>r \<in> set (jobs d). \<exists>s \<in> set (jobs e). row_trans r s)
     \<and> (\<forall>s \<in> set (jobs e). (\<exists>r \<in> set (jobs d). row_trans r s)
          \<or> (job_id s \<notin> job_id ` set (jobs d) \<and> status_steps queued_status (job_status s)))"

lemma jobs_evolve_forward: "jobs_evolve d e \<Longrightarrow> r \<in> set (jobs d) \<Longrightarrow> \<exists>s \<in> set (jobs e). row_trans r s"
  by (simp add: jobs_evolve_def)

lemma jobs_evolve_backward:
  assumes "jobs_evolve d e" "s \<in> set (jobs e)"
  obtains r where "r \<in> set (jobs d)" "row_trans r s"
  | "job_id s \<notin> job_id ` set (jobs d)" "status_steps queued_status (job_status s)"
  using assms by (auto simp: jobs_evolve_def)

lemma jobs_evolve_trans:
  assumes "jobs_evolve d e" "jobs_evolve e f"
  shows "jobs_evolve d f"
proof -
  have "\<exists>t \<in> set (jobs f). row_trans r t" if "r \<in> set (jobs d)" for r
    using assms that by (meson jobs_evolve_forward row_trans_trans)
  moreover have "(\<exists>r \<in> set (jobs d). row_trans r t)
      \<or> (job_id t \<notin> job_id ` set (jobs d) \<and> status_steps queued_status (job_status t))"
    if "t \<in> set (jobs f)" for t
    using assms(2) that
  proof (cases rule: jobs_evolve_backward)
    case (1 s)
    from assms(1) 1(1) show ?thesis
    proof (cases rule: jobs_evolve_backward)
      case (1 r)
      have "row_trans r t" by (rule row_trans_trans[OF 1(2) \<open>row_trans s t\<close>])
      with 1(1) show ?thesis by blast
    next
      case 2
      have "job_id t = job_id s" "status_steps (job_status s) (job_status t)"
        using row_transD(1,4)[OF \<open>row_trans s t\<close>] .
      with 2 status_steps_trans show ?thesis by metis
    qed
  next
    case 2
    have "job_id t \<notin> job_id ` set (jobs d)"
    proof
      assume "job_id t \<in> job_id ` set (jobs d)"
      then obtain r where "r \<in> set (jobs d)" "job_id r = job_id t" by auto
      with jobs_evolve_forward[OF assms(1)] obtain s where "s \<in> set (jobs e)" "job_id s = job_id t"
        by (metis row_transD(1))
      with 2(1) show False by (metis image_eqI)
    qed
    with 2(2) show ?thesis by simp
  qed
  ultimately show ?thesis by (simp add: jobs_evolve_def)
qed

lemma jobs_evolve_refl: "queue_inv d \<Longrightarrow> jobs e = jobs d \<Longrightarrow> jobs_evolve d e"
  unfolding jobs_evolve_def using queue_invD(3) row_trans_refl by auto

definition evolves :: "db \<Rightarrow> db \<Rightarrow> bool" where
  "evolves d e \<longleftrightarrow> (queue_inv d \<longrightarrow> queue_inv e \<and> jobs_evolve d e)"

lemma evolves_refl [simp]: "evolves d d"
  by (simp add: evolves_def jobs_evolve_refl)

lemma evolves_trans: "evolves d e \<Longrightarrow> evolves e f \<Longrightarrow> evolves d f"
  unfolding evolves_def by (blast intro: jobs_evolve_trans)

lemma evolves_same:
  assumes "jobs e = jobs d" "job_results e = job_results d"
  shows "evolves d e"
  using assms(1) by (simp add: evolves_def queue_inv_cong[OF assms] jobs_evolve_refl)

section \<open>Updates of unpublished rows\<close>

lemma update_jobs_simps [simp]:
  "jobs (update_jobs p f d) = update_where p f (jobs d)"
  "job_results (update_jobs p f d) = job_results d"
  "asr_requests (update_jobs p f d) = asr_requests d"
  "upload_text (update_jobs p f d) = upload_text d"
  "investigations (update_jobs p f d) = investigations d"
  "media_analysis (update_jobs p f d) = media_analysis d"
  by (simp_all add: update_jobs_def)

lemma jobs_evolve_update:
  assumes "\<And>r. r \<in> set (jobs d) \<Longrightarrow> row_trans r (if p r then f r else r)"
    and "jobs e = update_where p f (jobs d)"
  shows "jobs_evolve d e"
  unfolding jobs_evolve_def assms(2) set_update_where using assms(1) by blast

lemma keys_update:
  assumes "\<And>r. r \<in> set t \<Longrightarrow> row_trans r (if p r then f r else r)"
  shows "map job_id (update_where p f t) = map job_id t"
    and "map job_key (update_where p f t) = map job_key t"
  using assms by (auto simp: update_where_def row_trans_def split: if_splits)

lemma update_where_cases:
  assumes "s \<in> set (update_where p f t)"
  obtains r where "r \<in> set t" "p r" "s = f r" | "s \<in> set t" "\<not> p s"
  using assms by (auto simp: update_where_def split: if_splits)

lemma evolves_update:
  assumes "\<And>r. r \<in> set (jobs d) \<Longrightarrow> row_ok r \<Longrightarrow> p r \<Longrightarrow>
      row_trans r (f r) \<and> job_state r \<noteq> PUBLISHED \<and> job_state (f r) \<noteq> PUBLISHED"
  shows "evolves d (update_jobs p f d)"
  unfolding evolves_def
proof (intro impI conjI)
  assume inv: "queue_inv d"
  let ?e = "update_jobs p f d"
  have tr: "row_trans r (if p r then f r else r)" if "r \<in> set (jobs d)" for r
    using assms[OF that] queue_invD(3)[OF inv that] row_trans_refl by auto
  show "jobs_evolve d ?e" by (rule jobs_evolve_update) (use tr in auto)
  have "results_match ?e"
    unfolding results_match_def
  proof (intro conjI ballI impI)
    fix x assume "x \<in> set (job_results ?e)"
    then obtain r where r: "r \<in> set (jobs d)" "job_id r = res_job x" "job_state r = PUBLISHED"
      "job_key r = res_key x" "job_fencing r = res_fencing x" "job_generation r = res_generation x"
      using queue_invD(5)[OF inv] by (auto simp: results_match_def)
    then have "\<not> p r" using assms queue_invD(3)[OF inv] by blast
    with r show "\<exists>r \<in> set (jobs ?e). job_id r = res_job x \<and> job_state r = PUBLISHED
        \<and> job_key r = res_key x \<and> job_fencing r = res_fencing x \<and> job_generation r = res_generation x"
      by (force simp: set_update_where)
  next
    fix s assume s: "s \<in> set (jobs ?e)" "job_state s = PUBLISHED"
    from s(1) have "s \<in> set (update_where p f (jobs d))" by simp
    then have "s \<in> set (jobs d)"
      by (rule update_where_cases) (use s(2) assms queue_invD(3)[OF inv] in auto)
    with s queue_invD(5)[OF inv] show "\<exists>x \<in> set (job_results ?e). res_job x = job_id s"
      by (auto simp: results_match_def)
  qed
  moreover have "\<forall>s \<in> set (jobs ?e). row_ok s"
    using tr row_transD(5) by (fastforce simp: update_where_def)
  moreover have "distinct (map job_id (jobs ?e))" "distinct (map job_key (jobs ?e))"
    using keys_update[of "jobs d" p f, OF tr] queue_invD(1,2)[OF inv] by simp_all
  ultimately show "queue_inv ?e"
    using queue_invD(4)[OF inv] by (simp add: queue_inv_def)
qed

lemma fenced_update_evolves:
  assumes "fenced_update c l failing f d = Inr (b, e)"
    and "\<And>r. row_ok r \<Longrightarrow> job_state r \<in> set LEASED_STATES \<Longrightarrow>
      row_trans r (f r) \<and> job_state (f r) \<noteq> PUBLISHED"
  shows "evolves d e"
proof -
  let ?p = "\<lambda>r. owned l r \<and> job_state r \<in> set LEASED_STATES"
  let ?f = "\<lambda>r. f (r\<lparr>job_updated := tx_now c\<rparr>)"
  let ?d1 = "update_jobs ?p ?f d"
  have "evolves d ?d1"
  proof (rule evolves_update)
    fix r assume "row_ok r" "owned l r \<and> job_state r \<in> set LEASED_STATES"
    then show "row_trans r (?f r) \<and> job_state r \<noteq> PUBLISHED \<and> job_state (?f r) \<noteq> PUBLISHED"
      using assms(2)[of "r\<lparr>job_updated := tx_now c\<rparr>"] by auto
  qed
  moreover have "evolves ?d1 e"
    using assms(1) record_terminal_frame(1,2)
    by (auto simp: fenced_update_def Let_def rbind_Inr_iff split: if_splits intro: evolves_same)
  ultimately show ?thesis by (rule evolves_trans)
qed

section \<open>The operations\<close>

lemma enqueue_evolves:
  assumes "enqueue c i key payload owner d = Inr (q, e)"
  shows "evolves d e"
  unfolding evolves_def
proof (intro impI conjI)
  assume inv: "queue_inv d"
  let ?n = "new_job c i key payload owner"
  have "jobs e = jobs d \<and> job_results e = job_results d
    \<or> (fetch (\<lambda>r. job_key r = key) (jobs d) = None \<and> fetch (\<lambda>r. job_id r = i) (jobs d) = None
       \<and> jobs e = jobs d @ [?n] \<and> job_results e = job_results d)" (is "?same \<or> ?fresh")
    using assms by (auto simp: enqueue_def split: option.splits if_splits)
  then have "queue_inv e \<and> jobs_evolve d e"
  proof
    assume ?same
    then show ?thesis using evolves_same inv by (auto simp: evolves_def)
  next
    assume f: ?fresh
    then have "i \<notin> job_id ` set (jobs d)" "key \<notin> job_key ` set (jobs d)"
      by (auto simp: fetch_None_iff)
    moreover have "results_match e"
      using f queue_invD(5)[OF inv]
      by (fastforce simp: results_match_def)
    ultimately have "queue_inv e"
      using f inv by (auto simp: queue_inv_def)
    moreover have "jobs_evolve d e"
      using f queue_invD(3)[OF inv] row_trans_refl \<open>i \<notin> job_id ` set (jobs d)\<close>
      by (auto simp: jobs_evolve_def steps_refl)
    ultimately show ?thesis ..
  qed
  then show "queue_inv e" "jobs_evolve d e" by simp_all
qed

lemma enqueue_all_evolves: "enqueue_all c gen n owner ks d = Inr e \<Longrightarrow> evolves d e"
proof (induction c gen n owner ks d rule: enqueue_all.induct)
  case (2 c gen n owner key payload rest d)
  then obtain q d1 where "enqueue c (gen n) key payload owner d = Inr (q, d1)"
    and "enqueue_all c gen (Suc n) owner rest d1 = Inr e"
    by (auto simp: rbind_Inr_iff)
  then show ?case using 2 enqueue_evolves evolves_trans by blast
qed simp

lemma expire_overdue_evolves: "evolves d (expire_overdue c d)"
  unfolding expire_overdue_def
  by (rule evolves_update) (auto simp: overdue_def row_trans_requeue)

lemma candidate_SomeD:
  assumes "candidate c locked stages d = Some r"
  shows "r \<in> set (jobs d)" "claimable c stages r" "\<not> locked (job_id r)"
    "\<And>s. s \<in> set (jobs d) \<Longrightarrow> claimable c stages s \<Longrightarrow> \<not> locked (job_id s) \<Longrightarrow> row_order r \<le> row_order s"
proof -
  let ?xs = "filter (\<lambda>r. claimable c stages r \<and> \<not> locked (job_id r)) (jobs d)"
  obtain rs where "sort_key row_order ?xs = r # rs"
    using assms by (auto simp: candidate_def split: list.splits)
  then have "r \<in> set ?xs \<and> (\<forall>x \<in> set ?xs. row_order r \<le> row_order x)"
    by (rule sort_key_hd_min)
  then show "r \<in> set (jobs d)" "claimable c stages r" "\<not> locked (job_id r)"
    "\<And>s. s \<in> set (jobs d) \<Longrightarrow> claimable c stages s \<Longrightarrow> \<not> locked (job_id s) \<Longrightarrow> row_order r \<le> row_order s"
    by auto
qed

lemma claim_evolves:
  assumes "claim c locked worker stages s d = (q, e)"
  shows "evolves d e"
proof (cases "stages = []")
  case True
  with assms show ?thesis by (simp add: claim_def)
next
  case False
  let ?d1 = "expire_overdue c (resolve_due c d)"
  have d1: "evolves d ?d1"
    by (rule evolves_trans[OF _ expire_overdue_evolves]) (rule evolves_same, simp_all)
  show ?thesis
  proof (cases "candidate c locked stages ?d1")
    case None
    with False assms d1 show ?thesis by (simp add: claim_def Let_def)
  next
    case (Some r)
    note r = candidate_SomeD(1,2)[OF Some]
    have e: "e = update_jobs (\<lambda>x. job_id x = job_id r) (leased_to c worker s) ?d1"
      using False assms Some by (simp add: claim_def Let_def)
    show ?thesis
      unfolding evolves_def
    proof
      assume "queue_inv d"
      with d1 have inv1: "queue_inv ?d1" by (simp add: evolves_def)
      have "evolves ?d1 e"
        unfolding e
      proof (rule evolves_update)
        fix x assume x: "x \<in> set (jobs ?d1)" "row_ok x" "job_id x = job_id r"
        have "x = r" using jobs_table.row_unique[OF queue_invD(1)[OF inv1] x(1) r(1) x(3)] .
        with x r(2) show "row_trans x (leased_to c worker s x) \<and> job_state x \<noteq> PUBLISHED
            \<and> job_state (leased_to c worker s x) \<noteq> PUBLISHED"
          by (auto simp: claimable_def row_trans_claim)
      qed
      with d1 \<open>queue_inv d\<close> show "queue_inv e \<and> jobs_evolve d e"
        unfolding evolves_def by (blast intro: jobs_evolve_trans)
    qed
  qed
qed

lemma start_evolves: "start c l d = (b, e) \<Longrightarrow> evolves d e"
  unfolding start_def Let_def
  by (auto intro!: evolves_update row_trans_start)

lemma heartbeat_evolves: "heartbeat c l s d = Inr (b, e) \<Longrightarrow> evolves d e"
  unfolding heartbeat_def Let_def
  by (auto split: option.splits intro!: evolves_update row_trans_heartbeat)

lemma save_stage_data_evolves: "save_stage_data c l data d = Inr e \<Longrightarrow> evolves d e"
  unfolding save_stage_data_def
  by (auto split: if_splits intro!: evolves_update row_trans_columns simp: active_lease_def)

lemma fail_job_evolves: "fail_job c l reason cls d = Inr (b, e) \<Longrightarrow> evolves d e"
  unfolding fail_job_def by (erule fenced_update_evolves) (auto simp: row_trans_fail)

lemma retry_job_evolves: "retry_job c l cls delay d = Inr (b, e) \<Longrightarrow> evolves d e"
  unfolding retry_job_def by (erule fenced_update_evolves) (auto simp: row_trans_retry)

lemma release_evolves: "release c l d = Inr (b, e) \<Longrightarrow> evolves d e"
  unfolding release_def by (erule fenced_update_evolves) (auto simp: row_trans_requeue)

lemma cancel_evolves: "cancel c l d = Inr (b, e) \<Longrightarrow> evolves d e"
  unfolding cancel_def
  by (erule fenced_update_evolves) (auto simp: row_trans_cancelled)

lemma record_request_id_evolves: "record_request_id c l q d = Inr e \<Longrightarrow> evolves d e"
  unfolding record_request_id_def
  by (auto simp: rbind_Inr_iff split: if_splits elim!: fenced_update_evolves intro: row_trans_columns)

lemma job_of_SomeD:
  assumes "job_of d i = Some r"
  shows "r \<in> set (jobs d)" "job_id r = i"
  using fetch_SomeD[of _ _ r] assms by (auto simp: job_of_def)

lemma job_of_unique:
  assumes "queue_inv d" "r \<in> set (jobs d)" "job_id r = i"
  shows "job_of d i = Some r"
  using jobs_table.fetch_key_iff[OF queue_invD(1)[OF assms(1)]] assms(2,3) by (simp add: job_of_def)

lemma request_cancel_evolves:
  assumes "request_cancel c i d = (q, e)"
  shows "evolves d e"
  unfolding evolves_def
proof
  assume inv: "queue_inv d"
  have "evolves d e"
  proof (cases "job_of d i")
    case None
    with assms show ?thesis by (simp add: request_cancel_def)
  next
    case (Some row)
    have u: "x = row" if "x \<in> set (jobs d)" "job_id x = i" for x
      using job_of_unique[OF inv that] Some by simp
    have "evolves d (update_jobs (\<lambda>r. job_id r = i) (mark_cancelled c) d)" if "job_state row = QUEUED"
      by (rule evolves_update) (use u that in \<open>auto simp: row_trans_cancelled\<close>)
    moreover have "evolves d (update_jobs (\<lambda>r. job_id r = i)
        (\<lambda>r. r\<lparr>job_status := (job_status r)\<lparr>cancel_requested := True\<rparr>, job_updated := tx_now c\<rparr>) d)"
      if "job_state row \<in> set LEASED_STATES"
      by (rule evolves_update) (use u that in \<open>auto simp: row_trans_flag\<close>)
    ultimately show ?thesis
      using assms Some by (auto simp: request_cancel_def split: if_splits)
  qed
  with inv show "queue_inv e \<and> jobs_evolve d e" by (simp add: evolves_def)
qed

end
