(* ===== verification/QueueSafety.thy ===== *)
theory QueueSafety
  imports QueueInvariant
begin

text \<open>
  Publication and deletion keep the queue's invariant, and every operation of the queue is one
  step of \<open>queue_step\<close>, whose interpretation as a system with an invariant gives the safety
  properties: reachable databases are consistent, a lost lease stays lost, cancellation wins over
  publication, deletion is final and every status change is a run of the pure state machine.
\<close>

section \<open>Publication\<close>

lemma insert_result_Inr:
  assumes "insert_result c l key res d = Inr e"
  shows "jobs e = jobs d" "lease_job l \<notin> res_job ` set (job_results d)"
    "key \<notin> res_key ` set (job_results d)"
    "job_results e = job_results d @ [\<lparr>res_job = lease_job l, res_key = key,
       res_fencing = lease_fencing l, res_generation = lease_generation l, res_result = res,
       res_published_at = tx_now c\<rparr>]"
  using assms by (auto simp: insert_result_def fetch_None_iff split: if_splits)

lemma active_leaseD:
  assumes "active_lease c l r"
  shows "owned l r" "job_state r = RUNNING" "\<not> job_cancel r" "unexpired c r"
    "job_id r = lease_job l" "job_fencing r = lease_fencing l" "job_generation r = lease_generation l"
  using assms by (simp_all add: active_lease_def owned_def)

lemma publish_core_evolves:
  assumes f: "fetch (active_lease c l) (jobs d) = Some row"
    and i: "insert_result c l (job_key row) res
              (update_jobs (active_lease c l) (\<lambda>r. cleared c (set_state PUBLISHED r)) d) = Inr e"
  shows "evolves d e"
  unfolding evolves_def
proof
  assume inv: "queue_inv d"
  let ?p = "active_lease c l" and ?f = "\<lambda>r. cleared c (set_state PUBLISHED r)"
  have row: "row \<in> set (jobs d)" "?p row" using fetch_SomeD[OF f] by simp_all
  have uniq: "r = row" if "r \<in> set (jobs d)" "job_id r = lease_job l" for r
    using jobs_table.row_unique[OF queue_invD(1)[OF inv] that(1) row(1)] that(2) active_leaseD(5)[OF row(2)]
    by simp
  have e: "jobs e = update_where ?p ?f (jobs d)"
    "job_results e = job_results d @ [\<lparr>res_job = lease_job l, res_key = job_key row,
       res_fencing = lease_fencing l, res_generation = lease_generation l, res_result = res,
       res_published_at = tx_now c\<rparr>]"
    "lease_job l \<notin> res_job ` set (job_results d)"
    using insert_result_Inr[OF i] by simp_all
  have tr: "row_trans r (if ?p r then ?f r else r)" if "r \<in> set (jobs d)" for r
    using queue_invD(3)[OF inv that] by (simp add: active_lease_def row_trans_publish row_trans_refl)
  have ev: "jobs_evolve d e" by (rule jobs_evolve_update[OF tr e(1)])
  have new: "?f row \<in> set (jobs e)" using row by (auto simp: e(1) set_update_where image_iff)
  have same: "r \<in> set (jobs e)" if "r \<in> set (jobs d)" "job_id r \<noteq> lease_job l" for r
  proof -
    have "\<not> ?p r" using that(2) active_leaseD(5) by blast
    with that(1) show ?thesis by (force simp: e(1) set_update_where)
  qed
  have "results_match e"
    unfolding results_match_def
  proof (intro conjI ballI impI)
    fix x assume "x \<in> set (job_results e)"
    then consider "x \<in> set (job_results d)" | "res_job x = lease_job l" "res_key x = job_key row"
      "res_fencing x = lease_fencing l" "res_generation x = lease_generation l"
      by (auto simp: e(2))
    then show "\<exists>r \<in> set (jobs e). job_id r = res_job x \<and> job_state r = PUBLISHED
        \<and> job_key r = res_key x \<and> job_fencing r = res_fencing x \<and> job_generation r = res_generation x"
    proof cases
      case 1
      with e(3) have "res_job x \<noteq> lease_job l" by force
      moreover obtain r where "r \<in> set (jobs d)" "job_id r = res_job x" "job_state r = PUBLISHED"
        "job_key r = res_key x" "job_fencing r = res_fencing x" "job_generation r = res_generation x"
        using 1 queue_invD(5)[OF inv] by (auto simp: results_match_def)
      ultimately show ?thesis using same[of r] by auto
    next
      case 2
      with new active_leaseD[OF row(2)] show ?thesis by (intro bexI[of _ "?f row"]) auto
    qed
  next
    fix s assume s: "s \<in> set (jobs e)" "job_state s = PUBLISHED"
    from s(1) have "s \<in> set (update_where ?p ?f (jobs d))" by (simp add: e(1))
    then show "\<exists>x \<in> set (job_results e). res_job x = job_id s"
    proof (cases rule: update_where_cases)
      case (1 r)
      with uniq active_leaseD(5) have "job_id s = lease_job l" by auto
      then show ?thesis by (simp add: e(2))
    next
      case 2
      with s(2) queue_invD(5)[OF inv] show ?thesis by (auto simp: results_match_def e(2))
    qed
  qed
  moreover have "\<forall>s \<in> set (jobs e). row_ok s"
    using tr row_transD(5) by (fastforce simp: e(1) update_where_def)
  moreover have "map job_id (jobs e) = map job_id (jobs d)" "map job_key (jobs e) = map job_key (jobs d)"
    using keys_update[of "jobs d" ?p ?f, OF tr] by (simp_all add: e(1))
  ultimately have "queue_inv e"
    using queue_invD(1,2,4)[OF inv] e(2,3) by (simp add: queue_inv_def)
  with ev show "queue_inv e \<and> jobs_evolve d e" by simp
qed

text \<open>
  What a caller may do inside the publishing transaction: enqueue further jobs and write other
  tables. The \<open>on_publish\<close> callbacks of the pipelines are of this kind.
\<close>

inductive tx_extends :: "db \<Rightarrow> db \<Rightarrow> bool" where
  tx_refl: "tx_extends d d"
| tx_enqueue: "tx_extends d e \<Longrightarrow> enqueue c i key p owner e = Inr (q, f) \<Longrightarrow> tx_extends d f"
| tx_other: "tx_extends d e \<Longrightarrow> jobs f = jobs e \<Longrightarrow> job_results f = job_results e \<Longrightarrow> tx_extends d f"

definition well_behaved :: "(db \<Rightarrow> exn + db) \<Rightarrow> bool" where
  "well_behaved on_publish \<longleftrightarrow> (\<forall>d e. on_publish d = Inr e \<longrightarrow> tx_extends d e)"

lemma well_behaved_Inr [simp]: "well_behaved Inr"
  by (simp add: well_behaved_def tx_refl)

lemma tx_extends_evolves: "tx_extends d e \<Longrightarrow> evolves d e"
  by (induction rule: tx_extends.induct) (blast intro: evolves_refl evolves_trans enqueue_evolves evolves_same)+

lemma publish_Inr:
  assumes "publish c gen l res on_publish succ d = Inr (pr, e)"
  obtains row d2 d3 d4 where "fetch (active_lease c l) (jobs d) = Some row"
    "insert_result c l (job_key row) res
       (update_jobs (active_lease c l) (\<lambda>r. cleared c (set_state PUBLISHED r)) d) = Inr d2"
    "enqueue_all c gen 0 (job_owner row) succ d2 = Inr d3"
    "record_terminal c (lease_job l) (Some res) d3 = Inr d4" "on_publish d4 = Inr e"
    "pr = \<lparr>pub_job = lease_job l, pub_key = job_key row, pub_fencing = lease_fencing l,
           pub_generation = lease_generation l, pub_result = res\<rparr>"
  using assms unfolding publish_def publish_tx_def Let_def
  by (auto simp: rbind_Inr_iff split: option.splits sum.splits exn.splits)

lemma publish_evolves:
  assumes "publish c gen l res on_publish succ d = Inr (pr, e)" "well_behaved on_publish"
  shows "evolves d e"
  using assms(1)
proof (rule publish_Inr)
  fix row d2 d3 d4
  assume a: "fetch (active_lease c l) (jobs d) = Some row"
    "insert_result c l (job_key row) res
       (update_jobs (active_lease c l) (\<lambda>r. cleared c (set_state PUBLISHED r)) d) = Inr d2"
    "enqueue_all c gen 0 (job_owner row) succ d2 = Inr d3"
    "record_terminal c (lease_job l) (Some res) d3 = Inr d4" "on_publish d4 = Inr e"
  have "evolves d3 d4" by (rule evolves_same) (use a(4) record_terminal_frame in blast)+
  moreover have "evolves d4 e" using a(5) assms(2) tx_extends_evolves by (auto simp: well_behaved_def)
  moreover note publish_core_evolves[OF a(1,2)] enqueue_all_evolves[OF a(3)]
  ultimately show ?thesis by (blast intro: evolves_trans)
qed

section \<open>Deletion\<close>

lemma fence_upload_text_frame [simp]:
  "jobs (fence_upload_text q o' d) = jobs d" "job_results (fence_upload_text q o' d) = job_results d"
  "asr_requests (fence_upload_text q o' d) = asr_requests d"
  by (simp_all add: fence_upload_text_def)

lemma erase_content_simps [simp]:
  "jobs (erase_content i d) = jobs d"
  "job_results (erase_content i d) = delete_where (\<lambda>r. res_job r = i) (job_results d)"
  by (simp_all add: erase_content_def)

lemma delete_cases:
  assumes "delete c i d = (b, e)"
  shows "jobs e = update_where (\<lambda>r. job_id r = i \<and> job_state r \<noteq> DELETED) (tombstone c) (jobs d)"
    and "job_results e = (if b then delete_where (\<lambda>r. res_job r = i) (job_results d) else job_results d)"
    and "b \<longleftrightarrow> count_where (\<lambda>r. job_id r = i \<and> job_state r \<noteq> DELETED) (jobs d) = 1"
  using assms by (auto simp: delete_def Let_def split: option.splits if_splits)

lemma delete_evolves:
  assumes del: "delete c i d = (b, e)"
  shows "evolves d e"
  unfolding evolves_def
proof
  assume inv: "queue_inv d"
  let ?p = "\<lambda>r. job_id r = i \<and> job_state r \<noteq> DELETED"
  note e = delete_cases[OF del]
  have tr: "row_trans r (if ?p r then tombstone c r else r)" if "r \<in> set (jobs d)" for r
    using queue_invD(3)[OF inv that] by (simp add: row_trans_tombstone row_trans_refl)
  have ev: "jobs_evolve d e" by (rule jobs_evolve_update[OF tr e(1)])
  have nb: "\<forall>r \<in> set (jobs d). \<not> ?p r" if "\<not> b"
  proof -
    have "count_where ?p (jobs d) \<le> 1"
      using jobs_table.count_key_le[OF queue_invD(1)[OF inv], of ?p i] by simp
    with that e(3) have "count_where ?p (jobs d) = 0" by simp
    then show ?thesis by (simp add: count_where_0_iff)
  qed
  have "results_match e"
    unfolding results_match_def
  proof (intro conjI ballI impI)
    fix x assume x: "x \<in> set (job_results e)"
    then have xd: "x \<in> set (job_results d)" using e(2) by (auto split: if_splits)
    then obtain r where r: "r \<in> set (jobs d)" "job_id r = res_job x" "job_state r = PUBLISHED"
      "job_key r = res_key x" "job_fencing r = res_fencing x" "job_generation r = res_generation x"
      using queue_invD(5)[OF inv] by (auto simp: results_match_def)
    have "\<not> ?p r"
    proof (cases b)
      case True
      with x e(2) r(2) show ?thesis by auto
    qed (use nb r(1) in blast)
    then have "r \<in> set (jobs e)" using r(1) by (force simp: e(1) set_update_where)
    with r show "\<exists>r \<in> set (jobs e). job_id r = res_job x \<and> job_state r = PUBLISHED
        \<and> job_key r = res_key x \<and> job_fencing r = res_fencing x \<and> job_generation r = res_generation x"
      by blast
  next
    fix s assume s: "s \<in> set (jobs e)" "job_state s = PUBLISHED"
    from s(1) have "s \<in> set (update_where ?p (tombstone c) (jobs d))" by (simp add: e(1))
    then have sd: "s \<in> set (jobs d)" "\<not> ?p s"
      by (rule update_where_cases; use s(2) in auto)+
    with s(2) have "job_id s \<noteq> i" by simp
    with sd(1) s(2) queue_invD(5)[OF inv] e(2) show "\<exists>x \<in> set (job_results e). res_job x = job_id s"
      by (force simp: results_match_def)
  qed
  moreover have "\<forall>s \<in> set (jobs e). row_ok s"
    using tr row_transD(5) by (fastforce simp: e(1) update_where_def)
  moreover have "map job_id (jobs e) = map job_id (jobs d)" "map job_key (jobs e) = map job_key (jobs d)"
    using keys_update[of "jobs d" ?p "tombstone c", OF tr] by (simp_all add: e(1))
  moreover have "distinct (map res_job (job_results e))"
    using e(2) queue_invD(4)[OF inv] by (auto split: if_splits)
  ultimately have "queue_inv e"
    using queue_invD(1,2)[OF inv] by (simp add: queue_inv_def)
  with ev show "queue_inv e \<and> jobs_evolve d e" by simp
qed

section \<open>The step relation\<close>

text \<open>
  One step is one committed transaction. \<open>qs_request\<close>, \<open>qs_outcome\<close> and \<open>qs_defer\<close> are the
  columns other modules write on a job directly (the speech ledger's request id, the owner route's recorded
  cancellation outcome, the delay of the next expansion check); \<open>qs_other\<close> is any transaction on other tables.
\<close>

inductive queue_step :: "db \<Rightarrow> db \<Rightarrow> bool" where
  qs_enqueue: "enqueue c i key p owner d = Inr (q, e) \<Longrightarrow> queue_step d e"
| qs_claim: "claim c locked worker stages s d = (q, e) \<Longrightarrow> queue_step d e"
| qs_start: "start c l d = (b, e) \<Longrightarrow> queue_step d e"
| qs_heartbeat: "heartbeat c l s d = Inr (b, e) \<Longrightarrow> queue_step d e"
| qs_publish: "publish c gen l res on_publish succ d = Inr (pr, e) \<Longrightarrow> well_behaved on_publish \<Longrightarrow> queue_step d e"
| qs_save: "save_stage_data c l data d = Inr e \<Longrightarrow> queue_step d e"
| qs_fail: "fail_job c l reason cls d = Inr (b, e) \<Longrightarrow> queue_step d e"
| qs_retry: "retry_job c l rc delay d = Inr (b, e) \<Longrightarrow> queue_step d e"
| qs_record: "record_request_id c l rid d = Inr e \<Longrightarrow> queue_step d e"
| qs_release: "release c l d = Inr (b, e) \<Longrightarrow> queue_step d e"
| qs_cancel: "cancel c l d = Inr (b, e) \<Longrightarrow> queue_step d e"
| qs_request_cancel: "request_cancel c i d = (oc, e) \<Longrightarrow> queue_step d e"
| qs_delete: "delete c i d = (b, e) \<Longrightarrow> queue_step d e"
| qs_request: "queue_step d (update_jobs (\<lambda>r. job_id r = i) (\<lambda>r. r\<lparr>job_request_id := rid'\<rparr>) d)"
| qs_outcome: "queue_step d (update_jobs (\<lambda>r. job_id r = i) (\<lambda>r. r\<lparr>job_cancel_outcome := co\<rparr>) d)"
| qs_defer: "queue_step d (update_jobs (\<lambda>r. job_id r = i) (\<lambda>r. r\<lparr>job_available := t\<rparr>) d)"
| qs_other: "jobs e = jobs d \<Longrightarrow> job_results e = job_results d \<Longrightarrow> queue_step d e"

lemma evolves_columns:
  assumes "\<And>r. row_ok r \<Longrightarrow> row_trans r (f r)"
    and "\<And>r. job_status (f r) = job_status r \<and> job_fencing (f r) = job_fencing r
           \<and> job_generation (f r) = job_generation r"
  shows "evolves d (update_jobs p f d)"
  unfolding evolves_def
proof
  assume inv: "queue_inv d"
  let ?e = "update_jobs p f d"
  have tr: "row_trans r (if p r then f r else r)" if "r \<in> set (jobs d)" for r
    using queue_invD(3)[OF inv that] assms(1) row_trans_refl by simp
  have ev: "jobs_evolve d ?e" by (rule jobs_evolve_update[OF tr]) simp_all
  have ok: "row_ok (if p r then f r else r)" "job_id (if p r then f r else r) = job_id r"
    "job_key (if p r then f r else r) = job_key r" if "r \<in> set (jobs d)" for r
    using row_transD[OF tr[OF that]] by simp_all
  have cols: "job_state (if p r then f r else r) = job_state r"
    "job_fencing (if p r then f r else r) = job_fencing r"
    "job_generation (if p r then f r else r) = job_generation r" for r
    using assms(2) by simp_all
  have "results_match ?e"
    unfolding results_match_def
  proof (intro conjI ballI impI)
    fix x assume "x \<in> set (job_results ?e)"
    then obtain r where r: "r \<in> set (jobs d)" "job_id r = res_job x" "job_state r = PUBLISHED"
      "job_key r = res_key x" "job_fencing r = res_fencing x" "job_generation r = res_generation x"
      using queue_invD(5)[OF inv] by (auto simp: results_match_def)
    let ?s = "if p r then f r else r"
    have "?s \<in> set (jobs ?e)" using r(1) by (simp add: set_update_where)
    moreover have "job_id ?s = res_job x" "job_state ?s = PUBLISHED" "job_key ?s = res_key x"
      "job_fencing ?s = res_fencing x" "job_generation ?s = res_generation x"
      using ok(2,3)[OF r(1)] cols[of r] r by simp_all
    ultimately show "\<exists>r \<in> set (jobs ?e). job_id r = res_job x \<and> job_state r = PUBLISHED
        \<and> job_key r = res_key x \<and> job_fencing r = res_fencing x \<and> job_generation r = res_generation x"
      by blast
  next
    fix s assume s: "s \<in> set (jobs ?e)" "job_state s = PUBLISHED"
    then obtain r where r: "r \<in> set (jobs d)" "s = (if p r then f r else r)"
      by (auto simp: set_update_where)
    have "job_state r = PUBLISHED" "job_id s = job_id r"
      using s(2) cols(1)[of r] ok(2)[OF r(1)] by (simp_all only: r(2))
    with r(1) queue_invD(5)[OF inv] show "\<exists>x \<in> set (job_results ?e). res_job x = job_id s"
      by (simp add: results_match_def)
  qed
  moreover have "map job_id (jobs ?e) = map job_id (jobs d)" "map job_key (jobs ?e) = map job_key (jobs d)"
    using keys_update[of "jobs d" p f, OF tr] by simp_all
  moreover have "\<forall>s \<in> set (jobs ?e). row_ok s"
    using tr row_transD(5) by (fastforce simp: update_where_def)
  ultimately have "queue_inv ?e"
    using queue_invD(1,2,4)[OF inv] by (simp add: queue_inv_def)
  with ev show "queue_inv ?e \<and> jobs_evolve d ?e" by simp
qed

lemma queue_step_evolves: "queue_step d e \<Longrightarrow> evolves d e"
proof (induction rule: queue_step.induct)
  case (qs_request d i rid')
  show ?case by (rule evolves_columns) (auto intro: row_trans_columns)
next
  case (qs_outcome d i co)
  show ?case by (rule evolves_columns) (auto intro: row_trans_columns)
next
  case (qs_defer d i t)
  show ?case by (rule evolves_columns) (auto intro: row_trans_columns)
qed (blast intro: enqueue_evolves claim_evolves start_evolves heartbeat_evolves publish_evolves
      save_stage_data_evolves fail_job_evolves retry_job_evolves record_request_id_evolves
      release_evolves cancel_evolves request_cancel_evolves delete_evolves evolves_same)+

interpretation queue: invariant_system queue_step queue_inv
  by unfold_locales (use queue_step_evolves in \<open>auto simp: evolves_def\<close>)

abbreviation queue_run :: "db \<Rightarrow> db \<Rightarrow> bool" where
  "queue_run \<equiv> rtranclp queue_step"

lemma queue_run_evolves: "queue_run d e \<Longrightarrow> queue_inv d \<Longrightarrow> jobs_evolve d e"
  by (erule queue.relation_run)
     (auto simp: jobs_evolve_refl intro: jobs_evolve_trans dest: queue_step_evolves simp: evolves_def)

lemma queue_run_row:
  assumes "queue_run d e" "queue_inv d" "r \<in> set (jobs d)"
  obtains s where "s \<in> set (jobs e)" "row_trans r s" "job_of e (job_id r) = Some s"
proof -
  obtain s where s: "s \<in> set (jobs e)" "row_trans r s"
    using jobs_evolve_forward[OF queue_run_evolves[OF assms(1,2)] assms(3)] by blast
  with job_of_unique[OF queue.good_run[OF assms(1,2)] s(1)] show ?thesis
    using row_transD(1)[OF s(2)] by (auto intro: that)
qed

end
