(* ===== verification/QueueProperties.thy ===== *)
theory QueueProperties
  imports QueueSafety
begin

text \<open>
  The guarantees of the job queue, over any interleaving of committed transactions
  (\<open>queue_run\<close>) from the empty database: consistency of the two tables, the state machine as
  the specification of every step, fencing, cancellation, deletion, claiming, publication and
  idempotent enqueueing.
\<close>

abbreviation reachable :: "db \<Rightarrow> bool" where
  "reachable d \<equiv> queue_run empty_db d"

lemma reachable_inv: "reachable d \<Longrightarrow> queue_inv d"
  using queue.good_run queue_inv_empty by blast

lemma result_job:
  assumes "queue_inv d" "x \<in> set (job_results d)"
  obtains r where "r \<in> set (jobs d)" "job_id r = res_job x" "job_state r = PUBLISHED"
    "job_key r = res_key x" "job_fencing r = res_fencing x" "job_generation r = res_generation x"
  using queue_invD(5)[OF assms(1)] assms(2) unfolding results_match_def by blast

lemmas reachable_invD = queue_invD[OF reachable_inv]

lemma queue_run_one: "queue_step d e \<Longrightarrow> queue_run d e"
  by (rule r_into_rtranclp)

section \<open>Consistency\<close>

lemma published_le_one:
  assumes "queue_inv d"
  shows "length (published key d) \<le> 1"
proof -
  have "x = y" if h: "x \<in> set (job_results d)" "y \<in> set (job_results d)" "res_key x = key" "res_key y = key" for x y
  proof -
    obtain r where r: "r \<in> set (jobs d)" "job_id r = res_job x" "job_key r = res_key x"
      using result_job[OF assms h(1)] by metis
    obtain s where s: "s \<in> set (jobs d)" "job_id s = res_job y" "job_key s = res_key y"
      using result_job[OF assms h(2)] by metis
    have "inj_on job_key (set (jobs d))" using queue_invD(2)[OF assms] by (simp add: distinct_map)
    then have "r = s" using r(1,3) s(1,3) h(3,4) by (simp add: inj_onD)
    with r(2) s(2) have "res_job x = res_job y" by simp
    then show ?thesis using results_table.row_unique[OF queue_invD(4)[OF assms] h(1,2)] by simp
  qed
  then have "\<forall>x \<in> set (filter (\<lambda>r. res_key r = key) (job_results d)).
      \<forall>y \<in> set (filter (\<lambda>r. res_key r = key) (job_results d)). x = y" by simp
  then have "card (set (filter (\<lambda>r. res_key r = key) (job_results d))) \<le> Suc 0"
    by (simp add: card_le_Suc0_iff_eq)
  moreover have "distinct (filter (\<lambda>r. res_key r = key) (job_results d))"
    using queue_invD(4)[OF assms] by (simp add: distinct_map)
  ultimately have "length (filter (\<lambda>r. res_key r = key) (job_results d)) \<le> Suc 0"
    by (metis distinct_card)
  then show ?thesis by (simp add: published_def)
qed

lemma published_iff_result:
  assumes "queue_inv d" "r \<in> set (jobs d)"
  shows "job_state r = PUBLISHED \<longleftrightarrow> result_of d (job_id r) \<noteq> None"
proof
  assume "job_state r = PUBLISHED"
  then show "result_of d (job_id r) \<noteq> None"
    using queue_invD(5)[OF assms(1)] assms(2) by (auto simp: results_match_def result_of_def fetch_None_iff)
next
  assume "result_of d (job_id r) \<noteq> None"
  then obtain x where x: "x \<in> set (job_results d)" "res_job x = job_id r"
    by (auto simp: result_of_def fetch_None_iff)
  obtain s where "s \<in> set (jobs d)" "job_id s = job_id r" "job_state s = PUBLISHED"
    using result_job[OF assms(1) x(1)] x(2) by metis
  with jobs_table.row_unique[OF queue_invD(1)[OF assms(1)] _ assms(2)] show "job_state r = PUBLISHED"
    by blast
qed

lemma result_of_stamp:
  assumes "queue_inv d" "r \<in> set (jobs d)" "result_of d (job_id r) = Some x"
  shows "res_key x = job_key r \<and> res_fencing x = job_fencing r \<and> res_generation x = job_generation r"
proof -
  have x: "x \<in> set (job_results d)" "res_job x = job_id r"
    using fetch_SomeD assms(3) by (fastforce simp: result_of_def)+
  obtain s where "s \<in> set (jobs d)" "job_id s = job_id r" "job_key s = res_key x"
    "job_fencing s = res_fencing x" "job_generation s = res_generation x"
    using result_job[OF assms(1) x(1)] x(2) by metis
  moreover from this(1,2) have "s = r"
    by (rule jobs_table.row_unique[OF queue_invD(1)[OF assms(1)] _ assms(2)])
  ultimately show ?thesis by simp
qed

text \<open>C10: In every reachable database stage keys and identifiers are unique, every job's status is
  one the pure state machine reaches from a queued job, a job holds a lease (owner and expiry)
  exactly while it is leased or running, attempts equal the fencing token, a stage key has at most
  one published result, and there is a result for exactly the published jobs, stamped with the
  job's own key, fencing token and generation.\<close>

theorem queue_consistent:
  assumes "reachable d"
  shows "distinct (map job_id (jobs d)) \<and> distinct (map job_key (jobs d))
    \<and> (\<forall>r \<in> set (jobs d). status_steps queued_status (job_status r)
         \<and> check_invariants (job_status r) = None
         \<and> (job_lease_owner r \<noteq> None \<longleftrightarrow> job_state r \<in> set LEASED_STATES)
         \<and> (job_lease_expires r \<noteq> None \<longleftrightarrow> job_state r \<in> set LEASED_STATES)
         \<and> job_attempts r = job_fencing r
         \<and> (job_state r = PUBLISHED \<longleftrightarrow> result_of d (job_id r) \<noteq> None)
         \<and> (\<forall>x. result_of d (job_id r) = Some x \<longrightarrow> res_key x = job_key r
              \<and> res_fencing x = job_fencing r \<and> res_generation x = job_generation r))
    \<and> (\<forall>key. length (published key d) \<le> 1)"
proof (intro conjI ballI)
  note i = reachable_inv[OF assms]
  show "distinct (map job_id (jobs d))" "distinct (map job_key (jobs d))"
    "\<forall>key. length (published key d) \<le> 1"
    using queue_invD(1,2)[OF i] published_le_one[OF i] by simp_all
  fix r assume r: "r \<in> set (jobs d)"
  from queue_invD(3)[OF i r] show "check_invariants (job_status r) = None"
    "job_lease_owner r \<noteq> None \<longleftrightarrow> job_state r \<in> set LEASED_STATES"
    "job_lease_expires r \<noteq> None \<longleftrightarrow> job_state r \<in> set LEASED_STATES" "job_attempts r = job_fencing r"
    unfolding row_ok_def status_ok_def by (simp_all only:)
  have "jobs_evolve empty_db d" by (rule queue_run_evolves[OF assms]) simp
  from this r show "status_steps queued_status (job_status r)"
    by (cases rule: jobs_evolve_backward) (simp_all add: empty_db_def)
  show "job_state r = PUBLISHED \<longleftrightarrow> result_of d (job_id r) \<noteq> None"
    by (rule published_iff_result[OF i r])
  show "\<forall>x. result_of d (job_id r) = Some x \<longrightarrow> res_key x = job_key r
      \<and> res_fencing x = job_fencing r \<and> res_generation x = job_generation r"
    using result_of_stamp[OF i r] by blast
qed

section \<open>An example run\<close>

text \<open>A job that is enqueued, claimed and started; the witnesses below evaluate on it.\<close>

definition ex_clk :: "rat \<Rightarrow> clk" where
  "ex_clk t = \<lparr>tx_now = t, stmt_now = t, wall = t\<rparr>"

definition ex_key :: stage_key where
  "ex_key = \<lparr>key_version = 1, key_stage = ''extraction'', key_input_hash = ''h''\<rparr>"

definition ex_queued :: db where
  "ex_queued = empty_db\<lparr>jobs := [new_job (ex_clk 0) 7 ex_key (JObj []) None]\<rparr>"

definition ex_job :: claimed_job where
  "ex_job = claimed_of ''w'' (leased_to (ex_clk 1) ''w'' 30 (new_job (ex_clk 0) 7 ex_key (JObj []) None)) 31"

abbreviation ex_lease :: lease where
  "ex_lease \<equiv> cj_lease ex_job"

definition ex_leased :: db where
  "ex_leased = empty_db\<lparr>jobs :=
     [leased_to (ex_clk 1) ''w'' 30 (new_job (ex_clk 0) 7 ex_key (JObj []) None)]\<rparr>"

definition ex_running :: db where
  "ex_running = empty_db\<lparr>jobs := [(set_state RUNNING
     (leased_to (ex_clk 1) ''w'' 30 (new_job (ex_clk 0) 7 ex_key (JObj []) None)))\<lparr>job_updated := 2\<rparr>]\<rparr>"

lemma ex_enqueue:
  "enqueue (ex_clk 0) 7 ex_key (JObj []) None empty_db
     = Inr (\<lparr>enq_job_id = 7, enq_created = True\<rparr>, ex_queued)"
  by (simp add: enqueue_def empty_db_def ex_queued_def)

lemma ex_claim:
  "claim (ex_clk 1) (\<lambda>_. False) ''w'' [''extraction''] 30 ex_queued = (Some ex_job, ex_leased)"
  by (simp add: claim_def ex_queued_def ex_leased_def ex_job_def empty_db_def resolve_due_def
      expire_overdue_def overdue_def update_jobs_def candidate_def claimable_def new_job_def ex_key_def
      ex_clk_def queued_status_def leased_to_def)

lemma ex_start: "start (ex_clk 2) ex_lease ex_leased = (True, ex_running)"
  by (simp add: start_def ex_leased_def ex_running_def ex_job_def empty_db_def update_jobs_def owned_def
      claimed_of_def leased_to_def set_state_def new_job_def queued_status_def ex_clk_def)

lemma ex_reachable: "reachable ex_queued" "reachable ex_leased" "reachable ex_running"
proof -
  show q: "reachable ex_queued" by (rule queue_run_one[OF qs_enqueue[OF ex_enqueue]])
  show l: "reachable ex_leased" by (rule rtranclp.rtrancl_into_rtrancl[OF q qs_claim[OF ex_claim]])
  show "reachable ex_running" by (rule rtranclp.rtrancl_into_rtrancl[OF l qs_start[OF ex_start]])
qed

theorem queue_consistent_witness:
  "\<exists>r \<in> set (jobs ex_running). job_state r = RUNNING \<and> job_attempts r = job_fencing r \<and> job_fencing r = 1"
  using queue_consistent[OF ex_reachable(3)]
  by (simp add: ex_running_def new_job_def leased_to_def set_state_def)

end
