(* ===== verification/QueueGuarantees.thy ===== *)
theory QueueGuarantees
  imports QueueProperties
begin

text \<open>
  What the queue promises its callers, each over any later run: fencing, cancellation, deletion,
  the claim order, recovery of expired leases, atomic publication and idempotent enqueueing.
\<close>

text \<open>The stage key is a second key of the jobs table.\<close>

interpretation key_table: keyed job_key .

section \<open>The state machine as specification\<close>

text \<open>C9: Every committed transaction of the queue refines the pure state machine: no job row
  disappears or changes its identifier, key or owner, its status moves along legal events only, its
  fencing token and generation never decrease, its payload is kept or erased, and a row that was not
  there before is one the state machine reaches from a freshly queued job.\<close>

theorem queue_refines_states:
  assumes "reachable d" "queue_step d e"
  shows "(\<forall>r \<in> set (jobs d). \<exists>s. job_of e (job_id r) = Some s \<and> job_key s = job_key r
             \<and> job_owner s = job_owner r \<and> status_steps (job_status r) (job_status s)
             \<and> job_fencing r \<le> job_fencing s \<and> job_generation r \<le> job_generation s
             \<and> job_payload s \<in> {job_payload r, JObj []})
    \<and> (\<forall>s \<in> set (jobs e). job_of d (job_id s) = None \<longrightarrow> status_steps queued_status (job_status s))"
proof (intro conjI ballI impI)
  note inv = reachable_inv[OF assms(1)]
  have e: "queue_inv e" "jobs_evolve d e"
    using queue_step_evolves[OF assms(2)] inv by (simp_all add: evolves_def)
  fix r assume "r \<in> set (jobs d)"
  with jobs_evolve_forward[OF e(2)] obtain s where s: "s \<in> set (jobs e)" "row_trans r s" by blast
  note t = row_transD[OF s(2)]
  from job_of_unique[OF e(1) s(1) t(1)] t show "\<exists>s. job_of e (job_id r) = Some s \<and> job_key s = job_key r
      \<and> job_owner s = job_owner r \<and> status_steps (job_status r) (job_status s)
      \<and> job_fencing r \<le> job_fencing s \<and> job_generation r \<le> job_generation s
      \<and> job_payload s \<in> {job_payload r, JObj []}" by auto
next
  have e: "jobs_evolve d e"
    using queue_step_evolves[OF assms(2)] reachable_inv[OF assms(1)] by (simp add: evolves_def)
  fix s assume s: "s \<in> set (jobs e)" "job_of d (job_id s) = None"
  from e s(1) show "status_steps queued_status (job_status s)"
  proof (cases rule: jobs_evolve_backward)
    case (1 r)
    with job_of_unique[OF reachable_inv[OF assms(1)] 1(1)] row_transD(1)[OF 1(2)] s(2) show ?thesis by simp
  qed
qed

theorem queue_refines_states_witness:
  "\<exists>s. job_of ex_leased 7 = Some s \<and> status_steps queued_status (job_status s)"
proof -
  have "\<exists>r \<in> set (jobs ex_queued). job_id r = 7 \<and> job_status r = queued_status"
    by (simp add: ex_queued_def)
  with queue_refines_states[OF ex_reachable(1) qs_claim[OF ex_claim]] show ?thesis by metis
qed

section \<open>Fencing\<close>

lemma update_jobs_none: "\<forall>r \<in> set (jobs d). \<not> p r \<Longrightarrow> update_jobs p f d = d"
  by (simp add: update_jobs_def update_where_none)

lemma not_owned_powerless:
  assumes "\<forall>r \<in> set (jobs e). \<not> owned l r"
  shows "start c l e = (False, e)" "heartbeat c l s e = Inl LeaseLost"
    "publish c gen l res cb succ e = Inl (PublishRejected (rejection_reason l e))"
    "save_stage_data c l data e = Inl LeaseLost" "lock_active c l e = Inl LeaseLost"
    "fail_job c l reason cls e = Inr (False, e)" "retry_job c l rc delay e = Inr (False, e)"
    "release c l e = Inr (False, e)" "cancel c l e = Inr (False, e)"
    "record_request_id c l rid e = Inl LeaseLost"
proof -
  have n: "count_where (\<lambda>r. owned l r \<and> q r) (jobs e) = 0" "fetch (\<lambda>r. owned l r \<and> q r) (jobs e) = None"
    "update_jobs (\<lambda>r. owned l r \<and> q r) f e = e" for q f
    using assms by (simp_all add: count_where_0_iff fetch_None_iff update_jobs_none)
  have a: "count_where (active_lease c l) (jobs e) = 0" "fetch (active_lease c l) (jobs e) = None"
    using assms by (simp_all add: count_where_0_iff fetch_None_iff active_lease_def)
  show "start c l e = (False, e)" by (simp add: start_def Let_def n)
  show "heartbeat c l s e = Inl LeaseLost" by (simp add: heartbeat_def Let_def n)
  show "publish c gen l res cb succ e = Inl (PublishRejected (rejection_reason l e))"
    by (simp add: publish_def publish_tx_def a)
  show "save_stage_data c l data e = Inl LeaseLost" "lock_active c l e = Inl LeaseLost"
    by (simp_all add: save_stage_data_def lock_active_def a)
  have f: "fenced_update c l failing g e = Inr (False, e)" for failing g
    by (simp add: fenced_update_def Let_def n)
  show "fail_job c l reason cls e = Inr (False, e)" "retry_job c l rc delay e = Inr (False, e)"
    "release c l e = Inr (False, e)" "cancel c l e = Inr (False, e)"
    "record_request_id c l rid e = Inl LeaseLost"
    by (simp_all add: fail_job_def retry_job_def release_def cancel_def record_request_id_def f)
qed

lemma lost_stays_lost:
  assumes "queue_inv d" "queue_run d e" "job_of d (lease_job l) = Some r"
    and "lease_fencing l \<le> job_fencing r" "\<not> owned l r"
  shows "\<forall>s \<in> set (jobs e). \<not> owned l s"
proof
  fix s assume s: "s \<in> set (jobs e)"
  note r = job_of_SomeD[OF assms(3)]
  from assms(2,1) r(1) obtain t where t: "t \<in> set (jobs e)" "row_trans r t"
    by (rule queue_run_row)
  show "\<not> owned l s"
  proof
    assume "owned l s"
    then have "job_id s = job_id t" using r(2) row_transD(1)[OF t(2)] by (simp add: owned_def)
    then have "s = t"
      using jobs_table.row_unique queue_invD(1)[OF queue.good_run[OF assms(2,1)]] s t(1) by blast
    with row_trans_not_owned[OF t(2) queue_invD(3)[OF assms(1) r(1)] r(2) assms(4,5)] \<open>owned l s\<close>
    show False by simp
  qed
qed

text \<open>C1: A lost lease stays lost. Once a job's row is no longer the one a lease was granted on (its
  lease expired, was released, cancelled or given to a later claim), then after any further
  transactions no operation under that lease has an effect: it reports the loss or is rejected, and
  the database is unchanged.\<close>

theorem stale_lease_powerless:
  assumes "reachable d" "queue_run d e" "job_of d (lease_job l) = Some r"
    and "lease_fencing l \<le> job_fencing r" "\<not> owned l r"
  shows "start c l e = (False, e) \<and> heartbeat c l s e = Inl LeaseLost
    \<and> publish c gen l res cb succ e = Inl (PublishRejected (rejection_reason l e))
    \<and> save_stage_data c l data e = Inl LeaseLost \<and> lock_active c l e = Inl LeaseLost
    \<and> fail_job c l reason cls e = Inr (False, e) \<and> retry_job c l rc delay e = Inr (False, e)
    \<and> release c l e = Inr (False, e) \<and> cancel c l e = Inr (False, e)
    \<and> record_request_id c l rid e = Inl LeaseLost"
  using not_owned_powerless[OF lost_stays_lost[OF reachable_inv[OF assms(1)] assms(2-5)]] by simp

text \<open>The example job claimed, released and looked at again: the first lease is stale.\<close>

definition ex_released :: db where
  "ex_released = empty_db\<lparr>jobs := [cleared (ex_clk 3) (requeue ((set_state RUNNING
     (leased_to (ex_clk 1) ''w'' 30 (new_job (ex_clk 0) 7 ex_key (JObj []) None)))\<lparr>job_updated := 3\<rparr>))]\<rparr>"

lemma ex_release: "release (ex_clk 3) ex_lease ex_running = Inr (True, ex_released)"
  by (simp add: release_def fenced_update_def ex_running_def ex_released_def ex_job_def claimed_of_def
      owned_def update_jobs_def empty_db_def leased_to_def set_state_def new_job_def ex_clk_def)

lemma ex_released_reachable: "reachable ex_released"
  by (rule rtranclp.rtrancl_into_rtrancl[OF ex_reachable(3) qs_release[OF ex_release]])

theorem stale_lease_powerless_witness:
  "publish (ex_clk 4) (\<lambda>_. 9) ex_lease JNull Inr [] ex_released
     = Inl (PublishRejected (rejection_reason ex_lease ex_released))"
proof -
  obtain r where r: "job_of ex_released (lease_job ex_lease) = Some r" "lease_fencing ex_lease \<le> job_fencing r"
    "\<not> owned ex_lease r"
    by (simp add: ex_released_def job_of_def ex_job_def claimed_of_def owned_def leased_to_def new_job_def)
  from stale_lease_powerless[OF ex_released_reachable rtranclp.rtrancl_refl r] show ?thesis by blast
qed

section \<open>Cancellation and deletion\<close>

lemma queue_run_unpublished:
  assumes "queue_inv d" "queue_run d e" "r \<in> set (jobs d)" "job_id r = i"
    and "\<And>s. row_trans r s \<Longrightarrow> job_state s \<noteq> PUBLISHED"
  shows "result_of e i = None"
proof -
  obtain s where s: "s \<in> set (jobs e)" "row_trans r s" using assms(2,1,3) by (rule queue_run_row)
  then have "job_id s = i" "job_state s \<noteq> PUBLISHED" using row_transD(1) assms(4,5) by auto
  with published_iff_result[OF queue.good_run[OF assms(2,1)] s(1)] show ?thesis by simp
qed

lemma no_active_publish_rejected:
  assumes "\<forall>s \<in> set (jobs f). \<not> active_lease c l s"
  shows "publish c gen l res cb succ f = Inl (PublishRejected (rejection_reason l f))"
proof -
  have "fetch (active_lease c l) (jobs f) = None" using assms by (simp add: fetch_None_iff)
  then show ?thesis by (simp add: publish_def publish_tx_def)
qed

lemma request_cancel_marks:
  assumes "queue_inv d" "request_cancel c i d = (oc, e)" "oc \<noteq> NOT_CANCELLABLE"
  obtains r where "r \<in> set (jobs e)" "job_id r = i" "job_cancel r" "job_state r \<noteq> PUBLISHED"
proof -
  obtain row where row: "job_of d i = Some row" using assms(2,3)
    by (cases "job_of d i") (simp_all add: request_cancel_def)
  note r = job_of_SomeD[OF row]
  consider (queued) "job_state row = QUEUED" | (flagged) "job_state row \<in> set LEASED_STATES" "job_cancel row"
    | (flag) "job_state row \<in> set LEASED_STATES" "\<not> job_cancel row"
    using assms(2,3) row by (auto simp: request_cancel_def split: if_splits)
  then show thesis
  proof cases
    case queued
    then have "e = update_jobs (\<lambda>r. job_id r = i) (mark_cancelled c) d"
      using assms(2) row by (simp add: request_cancel_def)
    then have "mark_cancelled c row \<in> set (jobs e)" using r by (force simp: set_update_where)
    then show thesis by (rule that) (use r in simp_all)
  next
    case flagged
    then have "e = d" using assms(2) row by (auto simp: request_cancel_def split: if_splits)
    with that[of row] r flagged show thesis by auto
  next
    case flag
    let ?f = "\<lambda>r. r\<lparr>job_status := (job_status r)\<lparr>cancel_requested := True\<rparr>, job_updated := tx_now c\<rparr>"
    have "e = update_jobs (\<lambda>r. job_id r = i) ?f d"
      using assms(2) row flag by (auto simp: request_cancel_def split: if_splits)
    then have "?f row \<in> set (jobs e)" using r by (force simp: set_update_where)
    then show thesis by (rule that) (use r flag in auto)
  qed
qed

text \<open>C2: Cancellation wins. Once an owner's cancellation was accepted, whether it took effect at
  once or only flagged the running worker, no later publication of that job succeeds under any
  lease, and the job never has a result.\<close>

theorem cancellation_wins:
  assumes "reachable d" "request_cancel c i d = (oc, e)" "oc \<noteq> NOT_CANCELLABLE" "queue_run e f"
    and "lease_job l = i"
  shows "publish c' gen l res cb succ f = Inl (PublishRejected (rejection_reason l f)) \<and> result_of f i = None"
proof
  have inv: "queue_inv e"
    using request_cancel_evolves[OF assms(2)] reachable_inv[OF assms(1)] by (simp add: evolves_def)
  obtain r where r: "r \<in> set (jobs e)" "job_id r = i" "job_cancel r" "job_state r \<noteq> PUBLISHED"
    using request_cancel_marks[OF reachable_inv[OF assms(1)] assms(2,3)] by blast
  show "result_of f i = None"
    by (rule queue_run_unpublished[OF inv assms(4) r(1,2)])
       (use status_steps_cancel_unpublished[OF row_transD(4)] r(3,4) in blast)
  have "\<not> active_lease c' l s" if "s \<in> set (jobs f)" for s
  proof
    assume a: "active_lease c' l s"
    obtain t where t: "t \<in> set (jobs f)" "row_trans r t" using assms(4) inv r(1) by (rule queue_run_row)
    have "job_id s = job_id t" using active_leaseD(5)[OF a] row_transD(1)[OF t(2)] r(2) assms(5) by simp
    then have "s = t" using jobs_table.row_unique queue_invD(1)[OF queue.good_run[OF assms(4) inv]] that t(1) by blast
    moreover have "job_cancel t" using status_steps_cancel_sticky[OF row_transD(4)[OF t(2)] r(3)] .
    ultimately show False using active_leaseD(3)[OF a] by simp
  qed
  then show "publish c' gen l res cb succ f = Inl (PublishRejected (rejection_reason l f))"
    by (simp add: no_active_publish_rejected)
qed

lemma ex_request_cancel: "\<exists>e. request_cancel (ex_clk 3) 7 ex_running = (REQUESTED, e)"
  by (simp add: request_cancel_def ex_running_def job_of_def leased_to_def set_state_def new_job_def)

theorem cancellation_wins_witness:
  "\<exists>e. request_cancel (ex_clk 3) 7 ex_running = (REQUESTED, e)
     \<and> publish (ex_clk 4) (\<lambda>_. 9) ex_lease JNull Inr [] e = Inl (PublishRejected (rejection_reason ex_lease e))"
proof -
  obtain e where e: "request_cancel (ex_clk 3) 7 ex_running = (REQUESTED, e)" using ex_request_cancel by blast
  have "lease_job ex_lease = 7" by (simp add: ex_job_def claimed_of_def leased_to_def new_job_def)
  with cancellation_wins[OF ex_reachable(3) e _ rtranclp.rtrancl_refl] e show ?thesis by blast
qed

lemma delete_leaves_tombstone:
  assumes "queue_inv d" "delete c i d = (True, e)"
  obtains r where "r \<in> set (jobs e)" "job_id r = i" "job_state r = DELETED"
    "job_payload r = JObj []" "job_stage_data r = JObj []"
proof -
  note del = delete_cases[OF assms(2)]
  have "0 < count_where (\<lambda>r. job_id r = i \<and> job_state r \<noteq> DELETED) (jobs d)" using del(3) by simp
  then obtain row where "row \<in> set (jobs d)" "job_id row = i" "job_state row \<noteq> DELETED"
    by (auto simp: count_where_pos_iff)
  then have "tombstone c row \<in> set (jobs e)" "job_id (tombstone c row) = i"
    by (force simp: del(1) set_update_where)+
  then show thesis by (rule that) simp_all
qed


lemma ex_delete: "\<exists>e. delete (ex_clk 3) 7 ex_running = (True, e)"
  by (simp add: delete_def Let_def ex_running_def leased_to_def set_state_def new_job_def ex_key_def
      prerequisite_stages_def)


end
