(* ===== verification/QueueClaims.thy ===== *)
theory QueueClaims
  imports QueueGuarantees
begin

text \<open>
  The functional contract of claiming, lease expiry, publication and enqueueing: which job a claim
  takes and what it leaves alone, that an expired lease is always recovered, that publication is
  atomic, and that a stage key names one job for ever.
\<close>

section \<open>Claiming\<close>

abbreviation swept :: "clk \<Rightarrow> db \<Rightarrow> db" where
  "swept c d \<equiv> expire_overdue c (resolve_due c d)"

lemma swept_evolves: "evolves d (swept c d)"
  by (rule evolves_trans[OF _ expire_overdue_evolves]) (rule evolves_same, simp_all)

lemma claim_None:
  assumes "claim c lk w st s d = (None, e)" "st \<noteq> []"
  shows "e = swept c d" "\<And>r. r \<in> set (jobs e) \<Longrightarrow> claimable c st r \<Longrightarrow> lk (job_id r)"
proof -
  have n: "candidate c lk st (swept c d) = None" and e: "e = swept c d"
    using assms by (auto simp: claim_def Let_def split: option.splits)
  show "e = swept c d" by (rule e)
  have "sort_key row_order (filter (\<lambda>r. claimable c st r \<and> \<not> lk (job_id r)) (jobs (swept c d))) = []"
    using n by (simp add: candidate_def split: list.splits)
  then have "filter (\<lambda>r. claimable c st r \<and> \<not> lk (job_id r)) (jobs (swept c d)) = []"
    by (metis set_empty set_sort)
  then show "\<And>r. r \<in> set (jobs e) \<Longrightarrow> claimable c st r \<Longrightarrow> lk (job_id r)"
    by (auto simp: e filter_empty_conv)
qed

lemma claim_Some:
  assumes "claim c lk w st s d = (Some cj, e)"
  obtains r where "candidate c lk st (swept c d) = Some r" "st \<noteq> []"
    "cj = claimed_of w (leased_to c w s r) (tx_now c + s)"
    "e = update_jobs (\<lambda>x. job_id x = job_id r) (leased_to c w s) (swept c d)"
  using assms by (auto simp: claim_def Let_def split: if_splits option.splits)

lemma job_of_update_jobs:
  assumes "\<And>r. job_id (f r) = job_id r"
  shows "job_of (update_jobs p f d) i = map_option (\<lambda>r. if p r then f r else r) (job_of d i)"
  unfolding job_of_def update_jobs_simps by (rule jobs_table.fetch_update) (rule assms)

lemma claim_row:
  assumes "queue_inv d" "claim c lk w st s d = (Some cj, e)"
  obtains r where "r \<in> set (jobs (swept c d))" "claimable c st r" "\<not> lk (job_id r)"
    "\<And>x. x \<in> set (jobs (swept c d)) \<Longrightarrow> claimable c st x \<Longrightarrow> \<not> lk (job_id x) \<Longrightarrow> row_order r \<le> row_order x"
    "cj = claimed_of w (leased_to c w s r) (tx_now c + s)"
    "job_of e (job_id r) = Some (leased_to c w s r)"
    "\<And>j. j \<noteq> job_id r \<Longrightarrow> job_of e j = job_of (swept c d) j"
proof -
  obtain r where r: "candidate c lk st (swept c d) = Some r"
    "cj = claimed_of w (leased_to c w s r) (tx_now c + s)"
    "e = update_jobs (\<lambda>x. job_id x = job_id r) (leased_to c w s) (swept c d)"
    using assms(2) by (rule claim_Some)
  note k = candidate_SomeD[OF r(1)]
  have "queue_inv (swept c d)" using swept_evolves assms(1) by (simp add: evolves_def)
  then have self: "job_of (swept c d) (job_id r) = Some r" using k(1) by (rule job_of_unique) simp
  have "job_of e (job_id r) = Some (leased_to c w s r)"
    by (simp add: r(3) job_of_update_jobs self)
  moreover have "job_of e j = job_of (swept c d) j" if "j \<noteq> job_id r" for j
    unfolding r(3) using that
    by (cases "job_of (swept c d) j") (auto simp: job_of_update_jobs dest: job_of_SomeD(2))
  ultimately show thesis using that k r(2) by blast
qed

text \<open>C4: A claim takes the right job and nothing else. With nothing to do it returns no job, and
  then every claimable job (queued, available, of one of the stages) is locked by another
  transaction; otherwise it returns the first unlocked claimable job in order of availability and
  creation, whose row is now leased to this worker under exactly the returned lease, with a fencing
  token larger by one, while every other job is as the sweep of overdue leases left it.\<close>

theorem claim_correct:
  assumes "reachable d" "claim c lk w st s d = (q, e)" "st \<noteq> []"
  shows "case q of
      None \<Rightarrow> e = swept c d \<and> (\<forall>r \<in> set (jobs e). claimable c st r \<longrightarrow> lk (job_id r))
    | Some cj \<Rightarrow> \<exists>r \<in> set (jobs (swept c d)). claimable c st r \<and> \<not> lk (job_id r)
        \<and> (\<forall>x \<in> set (jobs (swept c d)). claimable c st x \<and> \<not> lk (job_id x) \<longrightarrow> row_order r \<le> row_order x)
        \<and> cj_key cj = job_key r \<and> cj_payload cj = job_payload r
        \<and> (\<exists>t. job_of e (job_id r) = Some t \<and> job_state t = LEASED \<and> owned (cj_lease cj) t
             \<and> job_fencing t = job_fencing r + 1 \<and> job_lease_expires t = Some (tx_now c + s))
        \<and> (\<forall>j. j \<noteq> job_id r \<longrightarrow> job_of e j = job_of (swept c d) j)"
proof (cases q)
  case None
  with claim_None[of c lk w st s d e] assms(2,3) show ?thesis by simp
next
  case (Some cj)
  obtain r where r: "r \<in> set (jobs (swept c d))" "claimable c st r" "\<not> lk (job_id r)"
    "\<And>x. x \<in> set (jobs (swept c d)) \<Longrightarrow> claimable c st x \<Longrightarrow> \<not> lk (job_id x) \<Longrightarrow> row_order r \<le> row_order x"
    "cj = claimed_of w (leased_to c w s r) (tx_now c + s)"
    "job_of e (job_id r) = Some (leased_to c w s r)"
    "\<And>j. j \<noteq> job_id r \<Longrightarrow> job_of e j = job_of (swept c d) j"
    using claim_row[OF reachable_inv[OF assms(1)] assms(2)[unfolded Some]] by blast
  have "cj_key cj = job_key r" "cj_payload cj = job_payload r" "owned (cj_lease cj) (leased_to c w s r)"
    by (simp_all add: r(5) claimed_of_def owned_def)
  with r show ?thesis unfolding Some by (auto intro!: bexI[of _ r])
qed

theorem claim_correct_witness:
  "\<exists>t. job_of ex_leased 7 = Some t \<and> job_state t = LEASED \<and> owned ex_lease t \<and> job_fencing t = 1"
  using claim_correct[OF ex_reachable(1) ex_claim]
  by (auto simp: ex_queued_def resolve_due_def expire_overdue_def overdue_def update_jobs_def empty_db_def new_job_def)

text \<open>C6: Claims of one job never overlap. If a job is claimed, and after any further transactions
  claimed again, the second claim has a strictly larger fencing token, and in the database after it
  no job row is owned under the first lease any more.\<close>

theorem claims_exclusive:
  assumes "reachable d" "claim c lk w st s d = (Some a, e)" "queue_run e f"
    and "claim c' lk' w' st' s' f = (Some b, g)" "lease_job (cj_lease a) = lease_job (cj_lease b)"
  shows "lease_fencing (cj_lease a) < lease_fencing (cj_lease b)
    \<and> (\<forall>x \<in> set (jobs g). \<not> owned (cj_lease a) x)"
proof -
  note inv = reachable_inv[OF assms(1)]
  have inve: "queue_inv e" using claim_evolves[OF assms(2)] inv by (simp add: evolves_def)
  note invf = queue.good_run[OF assms(3) inve]
  have invg: "queue_inv g" using claim_evolves[OF assms(4)] invf by (simp add: evolves_def)
  obtain r where r: "a = claimed_of w (leased_to c w s r) (tx_now c + s)"
    "job_of e (job_id r) = Some (leased_to c w s r)"
    using claim_row[OF inv assms(2)] by metis
  obtain q where q: "q \<in> set (jobs (swept c' f))" "b = claimed_of w' (leased_to c' w' s' q) (tx_now c' + s')"
    "job_of g (job_id q) = Some (leased_to c' w' s' q)"
    using claim_row[OF invf assms(4)] by metis
  have id: "job_id q = job_id r" using assms(5) by (simp add: r(1) q(2) claimed_of_def)
  have "queue_run e (swept c' f)"
  proof -
    have "claim c' (\<lambda>_. True) w' [''''] s' f = (None, swept c' f)"
      by (simp add: claim_def Let_def candidate_def)
    with assms(3) show ?thesis by (blast intro: rtranclp.rtrancl_into_rtrancl qs_claim)
  qed
  then obtain t where t: "t \<in> set (jobs (swept c' f))" "row_trans (leased_to c w s r) t"
    using queue_run_row[OF _ inve job_of_SomeD(1)[OF r(2)]] by metis
  have "queue_inv (swept c' f)" using swept_evolves invf by (simp add: evolves_def)
  then have "q = t"
    using jobs_table.row_unique[OF queue_invD(1) q(1) t(1)] row_transD(1)[OF t(2)] id by simp
  then have le: "job_fencing r + 1 \<le> job_fencing q" using row_transD(6)[OF t(2)] by simp
  have "\<not> owned (cj_lease a) x" if x: "x \<in> set (jobs g)" for x
  proof
    assume o: "owned (cj_lease a) x"
    then have "job_id x = job_id q" by (simp add: owned_def r(1) claimed_of_def id)
    with job_of_unique[OF invg x] q(3) have "x = leased_to c' w' s' q" by simp
    with o le show False by (simp add: owned_def r(1) claimed_of_def)
  qed
  with le show ?thesis by (simp add: r(1) q(2) claimed_of_def)
qed

lemma ex_reclaim: "\<exists>b g. claim (ex_clk 40) (\<lambda>_. False) ''v'' [''extraction''] 30 ex_running = (Some b, g)
    \<and> lease_job (cj_lease b) = 7"
  by (simp add: claim_def Let_def ex_running_def empty_db_def resolve_due_def expire_overdue_def
      overdue_def update_jobs_def candidate_def claimable_def new_job_def ex_key_def ex_clk_def
      queued_status_def leased_to_def set_state_def cleared_def requeue_def claimed_of_def)

theorem claims_exclusive_witness:
  "\<exists>b g. claim (ex_clk 40) (\<lambda>_. False) ''v'' [''extraction''] 30 ex_running = (Some b, g)
     \<and> lease_fencing ex_lease < lease_fencing (cj_lease b)"
proof -
  obtain b g where b: "claim (ex_clk 40) (\<lambda>_. False) ''v'' [''extraction''] 30 ex_running = (Some b, g)"
    "lease_job (cj_lease b) = 7"
    using ex_reclaim by blast
  have "lease_job ex_lease = lease_job (cj_lease b)"
    by (simp add: b(2) ex_job_def claimed_of_def leased_to_def new_job_def)
  with claims_exclusive[OF ex_reachable(1) ex_claim queue_run_one[OF qs_start[OF ex_start]] b(1)] b(1)
  show ?thesis by blast
qed

section \<open>Expired leases\<close>

text \<open>C7: No job is stranded by a dead worker. A claim (by anybody, for any stages) first takes every
  overdue lease away: afterwards the job is cancelled if cancellation was requested, otherwise it is
  queued without a lease or already leased again under a larger fencing token, and no lease that
  owned the row before owns it now.\<close>

theorem expired_lease_recovered:
  assumes "reachable d" "claim c lk w st s d = (q, e)" "st \<noteq> []" "r \<in> set (jobs d)" "overdue c r"
  shows "\<exists>t. job_of e (job_id r) = Some t \<and> (\<forall>l. owned l r \<longrightarrow> \<not> owned l t)
    \<and> (if job_cancel r then job_state t = CANCELLED
       else (job_state t = QUEUED \<and> job_lease_owner t = None)
            \<or> (job_state t = LEASED \<and> job_fencing t = job_fencing r + 1))"
proof -
  note inv = reachable_inv[OF assms(1)]
  let ?r = "cleared c (requeue r)"
  have m: "?r \<in> set (jobs (swept c d))"
    using assms(4,5) by (force simp: expire_overdue_def set_update_where)
  have inv1: "queue_inv (swept c d)" using swept_evolves inv by (simp add: evolves_def)
  have self: "job_of (swept c d) (job_id r) = Some ?r" by (rule job_of_unique[OF inv1 m]) simp
  have not: "\<not> owned l ?r" for l by (simp add: owned_def)
  have "job_of e (job_id r) = Some ?r \<or> (\<not> job_cancel r \<and> job_of e (job_id r) = Some (leased_to c w s ?r))"
  proof (cases q)
    case None
    with claim_None[of c lk w st s d e] assms(2,3) self show ?thesis by simp
  next
    case (Some cj)
    obtain x where x: "x \<in> set (jobs (swept c d))" "claimable c st x"
      "job_of e (job_id x) = Some (leased_to c w s x)"
      "\<And>j. j \<noteq> job_id x \<Longrightarrow> job_of e j = job_of (swept c d) j"
      using claim_row[OF inv assms(2)[unfolded Some]] by metis
    show ?thesis
    proof (cases "job_id x = job_id r")
      case True
      then have "x = ?r" using job_of_unique[OF inv1 x(1) True] self by simp
      with x(2,3) show ?thesis by (auto simp: claimable_def split: if_splits)
    qed (use x(4) self in metis)
  qed
  then show ?thesis
  proof
    assume "job_of e (job_id r) = Some ?r"
    then show ?thesis using not by simp
  next
    assume "\<not> job_cancel r \<and> job_of e (job_id r) = Some (leased_to c w s ?r)"
    moreover have "\<not> owned l (leased_to c w s ?r)" if "owned l r" for l
      using that by (simp add: owned_def)
    ultimately show ?thesis by simp
  qed
qed

theorem expired_lease_recovered_witness:
  "\<exists>q e t. claim (ex_clk 40) (\<lambda>_. False) ''v'' [''extraction''] 30 ex_running = (q, e)
     \<and> job_of e 7 = Some t \<and> \<not> owned ex_lease t"
proof -
  obtain q e where c: "claim (ex_clk 40) (\<lambda>_. False) ''v'' [''extraction''] 30 ex_running = (q, e)"
    by (metis surj_pair)
  obtain r where r: "r \<in> set (jobs ex_running)" "overdue (ex_clk 40) r" "job_id r = 7" "owned ex_lease r"
    by (simp add: ex_running_def overdue_def ex_clk_def owned_def ex_job_def claimed_of_def leased_to_def
        set_state_def new_job_def)
  from expired_lease_recovered[OF ex_reachable(3) c _ r(1,2)] r(3,4) c show ?thesis by auto
qed

section \<open>Publication\<close>

lemma tx_extends_keeps:
  assumes "tx_extends d e"
  shows "set (jobs d) \<subseteq> set (jobs e) \<and> job_results e = job_results d"
  using assms
proof (induction rule: tx_extends.induct)
  case (tx_enqueue d e c i key p owner q f)
  then have "set (jobs e) \<subseteq> set (jobs f) \<and> job_results f = job_results e"
    by (auto simp: enqueue_def split: option.splits if_splits)
  with tx_enqueue.IH show ?case by auto
qed auto

lemma enqueue_all_keeps: "enqueue_all c gen n owner ks d = Inr e \<Longrightarrow>
    set (jobs d) \<subseteq> set (jobs e) \<and> job_results e = job_results d"
proof (induction c gen n owner ks d rule: enqueue_all.induct)
  case (2 c gen n owner key payload rest d)
  then obtain q d1 where d1: "enqueue c (gen n) key payload owner d = Inr (q, d1)"
    and "enqueue_all c gen (Suc n) owner rest d1 = Inr e"
    by (auto simp: rbind_Inr_iff)
  moreover have "set (jobs d) \<subseteq> set (jobs d1) \<and> job_results d1 = job_results d"
    using d1 by (auto simp: enqueue_def split: option.splits if_splits)
  ultimately show ?case using "2.IH" by fastforce
qed simp

lemma enqueue_row:
  assumes "enqueue c i key p owner d = Inr (q, e)"
  shows "\<exists>r \<in> set (jobs e). job_key r = key \<and> job_owner r = owner \<and> job_id r = enq_job_id q"
proof (cases "fetch (\<lambda>r. job_key r = key) (jobs d)")
  case None
  with assms have "jobs e = jobs d @ [new_job c i key p owner]" "enq_job_id q = i"
    by (auto simp: enqueue_def split: if_splits)
  then show ?thesis by simp
next
  case (Some r)
  have o: "job_owner r = owner"
  proof (rule ccontr)
    assume "job_owner r \<noteq> owner"
    with assms Some show False by (simp add: enqueue_def)
  qed
  then have "enqueue c i key p owner d = Inr (\<lparr>enq_job_id = job_id r, enq_created = False\<rparr>, d)"
    by (simp add: enqueue_def Some)
  with assms have "e = d \<and> enq_job_id q = job_id r" by (metis Inr_inject enqueued.select_convs(1) prod.inject)
  with o fetch_SomeD[OF Some] show ?thesis by metis
qed


lemma enqueue_all_queues: "enqueue_all c gen n owner ks d = Inr e \<Longrightarrow> (key, p) \<in> set ks \<Longrightarrow>
    \<exists>q \<in> set (jobs e). job_key q = key \<and> job_owner q = owner"
proof (induction c gen n owner ks d rule: enqueue_all.induct)
  case (2 c gen n owner k payload rest d)
  obtain q d1 where d1: "enqueue c (gen n) k payload owner d = Inr (q, d1)"
    and rest: "enqueue_all c gen (Suc n) owner rest d1 = Inr e"
    using "2.prems"(1) by (auto simp: rbind_Inr_iff)
  show ?case
  proof (cases "(key, p) = (k, payload)")
    case True
    have "\<exists>x \<in> set (jobs d1). job_key x = k \<and> job_owner x = owner"
      using enqueue_row[OF d1] by blast
    with True enqueue_all_keeps[OF rest] show ?thesis by auto
  next
    case False
    with "2.prems"(2) have "(key, p) \<in> set rest" by auto
    then show ?thesis using "2.IH" rest by blast
  qed
qed simp

text \<open>What a successful publication leaves behind.\<close>

lemma publish_facts:
  assumes inv: "queue_inv d" and pub: "publish c gen l res cb succ d = Inr (pr, e)" and wb: "well_behaved cb"
  shows "\<exists>r s x. job_of d (lease_job l) = Some r \<and> active_lease c l r
    \<and> job_of e (lease_job l) = Some s \<and> job_state s = PUBLISHED \<and> job_lease_owner s = None
    \<and> result_of e (lease_job l) = Some x \<and> res_result x = res \<and> res_key x = job_key r
    \<and> pub_key pr = job_key r \<and> pub_result pr = res
    \<and> (\<forall>(key, p) \<in> set succ. \<exists>q \<in> set (jobs e). job_key q = key \<and> job_owner q = job_owner r)"
  using pub
proof (rule publish_Inr)
  fix r d2 d3 d4
  let ?f = "\<lambda>r. cleared c (set_state PUBLISHED r)"
  assume a: "fetch (active_lease c l) (jobs d) = Some r"
    "insert_result c l (job_key r) res (update_jobs (active_lease c l) ?f d) = Inr d2"
    "enqueue_all c gen 0 (job_owner r) succ d2 = Inr d3"
    "record_terminal c (lease_job l) (Some res) d3 = Inr d4" "cb d4 = Inr e"
    "pr = \<lparr>pub_job = lease_job l, pub_key = job_key r, pub_fencing = lease_fencing l,
           pub_generation = lease_generation l, pub_result = res\<rparr>"
  have inve: "queue_inv e" using publish_evolves[OF pub wb] inv by (simp add: evolves_def)
  have r: "r \<in> set (jobs d)" "active_lease c l r" "job_id r = lease_job l"
    using fetch_SomeD[OF a(1)] active_leaseD(5) by auto
  have "tx_extends d4 e" using a(5) wb by (simp add: well_behaved_def)
  then have keep: "set (jobs d2) \<subseteq> set (jobs e)" "set (jobs d3) \<subseteq> set (jobs e)" "job_results e = job_results d2"
    using enqueue_all_keeps[OF a(3)] record_terminal_frame(1,2)[OF a(4)] tx_extends_keeps by force+
  note i = insert_result_Inr[OF a(2)]
  have "?f r \<in> set (jobs d2)" using r by (force simp: i(1) set_update_where)
  then have s: "job_of e (lease_job l) = Some (?f r)"
    using keep(1) r(3) job_of_unique[OF inve] by auto
  obtain x where x: "result_of e (lease_job l) = Some x" "res_result x = res" "res_key x = job_key r"
  proof -
    have "fetch (\<lambda>r. res_job r = lease_job l) (job_results d) = None"
      using i(2) by (force simp: fetch_None_iff)
    then show thesis using that by (simp add: result_of_def keep(3) i(4) fetch_append)
  qed
  have "\<forall>(key, p) \<in> set succ. \<exists>q \<in> set (jobs e). job_key q = key \<and> job_owner q = job_owner r"
    using enqueue_all_queues[OF a(3)] keep(2) by blast
  then show ?thesis
    using job_of_unique[OF inv r(1,3)] r(2) s x a(6) by auto
qed


lemma ex_publish: "\<exists>pr e. publish (ex_clk 3) (\<lambda>_. 9) ex_lease JNull Inr [] ex_running = Inr (pr, e)"
  by (simp add: publish_def publish_tx_def ex_running_def ex_job_def claimed_of_def active_lease_def owned_def
      unexpired_def ex_clk_def leased_to_def set_state_def new_job_def queued_status_def Let_def
      insert_result_def empty_db_def update_jobs_def record_terminal_def job_of_def cleared_def ex_key_def)


section \<open>Enqueueing\<close>



end
