(* ===== verification/Budget.thy ===== *)
theory Budget
  imports Schema "HOL-Library.List_Lexorder" "HOL-Library.Char_ord"
begin

text \<open>
  The shared token buckets of \<open>backend/services/providers/budget.py\<close>: \<open>TokenBucket\<close> over the
  tables \<open>provider_buckets\<close> and \<open>provider_slots\<close>, and \<open>SharedBudget\<close>, which charges several
  buckets at once. Costs and times are exact rationals (a cost that is not finite does not exist
  here). A waiting loop runs over a list of rounds: what other workers committed since the last
  round, the clocks and the random numbers this round reads; it is still waiting when the list ends.
\<close>

section \<open>The bucket\<close>

record token_bucket =
  tb_name :: string
  per_hour :: int
  max_wait_seconds :: rat
  concurrency :: nat
  request_timeout_seconds :: rat
  period_seconds :: rat

definition DEFAULT_BLOCK_SECONDS :: rat where
  "DEFAULT_BLOCK_SECONDS = 60"

definition capacity :: "token_bucket \<Rightarrow> rat" where
  "capacity b = of_int (per_hour b)"

definition per_second :: "token_bucket \<Rightarrow> rat" where
  "per_second b = of_int (per_hour b) / period_seconds b"

definition bucket_of :: "string \<Rightarrow> bucket_row list \<Rightarrow> bucket_row option" where
  "bucket_of n t = fetch (\<lambda>r. bkt_name r = n) t"

definition balance :: "clk \<Rightarrow> string \<Rightarrow> int \<Rightarrow> rat \<Rightarrow> bucket_row list \<Rightarrow> rat" where
  "balance c n room period t = (case bucket_of n t of
       None \<Rightarrow> of_int room
     | Some r \<Rightarrow> let elapsed = max (stmt_now c - bkt_updated r) 0
                 in min (of_int room) (bkt_tokens r + elapsed * of_int room / period))"

text \<open>\<open>_locked\<close>: insert the row when missing, then the refilled balance and the row lock.\<close>

definition ensure_bucket :: "clk \<Rightarrow> token_bucket \<Rightarrow> bucket_row list \<Rightarrow> bucket_row list" where
  "ensure_bucket c b t = (if bucket_of (tb_name b) t = None
     then t @ [\<lparr>bkt_name = tb_name b, bkt_tokens = capacity b, bkt_updated = tx_now c, bkt_held_until = None\<rparr>]
     else t)"

definition refilled :: "clk \<Rightarrow> token_bucket \<Rightarrow> bucket_row \<Rightarrow> rat" where
  "refilled c b r = min (capacity b) (bkt_tokens r + max (stmt_now c - bkt_updated r) 0 * per_second b)"

definition locked :: "clk \<Rightarrow> token_bucket \<Rightarrow> bucket_row list \<Rightarrow> rat \<times> bucket_row list" where
  "locked c b t = (let t1 = ensure_bucket c b t
     in (case bucket_of (tb_name b) t1 of None \<Rightarrow> capacity b | Some r \<Rightarrow> refilled c b r, t1))"

definition held :: "clk \<Rightarrow> string \<Rightarrow> bucket_row list \<Rightarrow> rat" where
  "held c n t = (case bucket_of n t of
       None \<Rightarrow> 0
     | Some r \<Rightarrow> (case bkt_held_until r of None \<Rightarrow> 0 | Some u \<Rightarrow> max 0 (u - stmt_now c)))"

definition set_bucket :: "string \<Rightarrow> (bucket_row \<Rightarrow> bucket_row) \<Rightarrow> bucket_row list \<Rightarrow> bucket_row list" where
  "set_bucket n f t = update_where (\<lambda>r. bkt_name r = n) f t"

definition write_tokens :: "clk \<Rightarrow> string \<Rightarrow> rat \<Rightarrow> bucket_row list \<Rightarrow> bucket_row list" where
  "write_tokens c n tokens t = set_bucket n (\<lambda>r. r\<lparr>bkt_tokens := tokens, bkt_updated := stmt_now c\<rparr>) t"

definition take_units :: "clk \<Rightarrow> token_bucket \<Rightarrow> rat \<Rightarrow> bucket_row list \<Rightarrow> rat \<times> bucket_row list" where
  "take_units c b amount t =
     (let (tokens, t1) = locked c b t; h = held c (tb_name b) t1
      in if h = 0 \<and> tokens \<ge> amount then (0, write_tokens c (tb_name b) (tokens - amount) t1)
         else (max h (if tokens < amount then (amount - tokens) / per_second b else 0),
               write_tokens c (tb_name b) tokens t1))"

definition held_seconds :: "clk \<Rightarrow> string \<Rightarrow> bucket_row list \<Rightarrow> rat" where
  "held_seconds c n t = (case bucket_of n t of
       None \<Rightarrow> 0
     | Some r \<Rightarrow> (case bkt_held_until r of None \<Rightarrow> 0 | Some u \<Rightarrow> max 0 (u - stmt_now c)))"

definition pause_of :: "rat option \<Rightarrow> rat" where
  "pause_of seconds = (case seconds of None \<Rightarrow> DEFAULT_BLOCK_SECONDS | Some s \<Rightarrow> max s 0)"

definition hold :: "clk \<Rightarrow> token_bucket \<Rightarrow> rat option \<Rightarrow> bucket_row list \<Rightarrow> bucket_row list" where
  "hold c b seconds t =
     (let (tokens, t1) = locked c b t; until = stmt_now c + pause_of seconds
      in set_bucket (tb_name b)
           (\<lambda>r. r\<lparr>bkt_tokens := tokens, bkt_updated := stmt_now c,
                  bkt_held_until := (case bkt_held_until r of
                     None \<Rightarrow> Some until
                   | Some current \<Rightarrow> Some (if current < until then until else current))\<rparr>) t1)"

definition refund :: "clk \<Rightarrow> token_bucket \<Rightarrow> rat \<Rightarrow> bucket_row list \<Rightarrow> bucket_row list" where
  "refund c b amount t =
     (let (tokens, t1) = locked c b t
      in write_tokens c (tb_name b) (min (capacity b) (tokens + amount)) t1)"

definition block :: "clk \<Rightarrow> token_bucket \<Rightarrow> rat option \<Rightarrow> bucket_row list \<Rightarrow> bucket_row list" where
  "block c b seconds t =
     (let (tokens, t1) = locked c b t
      in write_tokens c (tb_name b) (min tokens (- pause_of seconds * per_second b)) t1)"

section \<open>Request slots\<close>

definition slot_row_of :: "string \<Rightarrow> nat \<Rightarrow> slot_row list \<Rightarrow> slot_row option" where
  "slot_row_of n k s = fetch (\<lambda>r. slot_provider r = n \<and> slot_no r = int k) s"

text \<open>The upsert of one slot: insert, replace an expired lease, or no row returned.\<close>

definition try_slot :: "clk \<Rightarrow> token_bucket \<Rightarrow> uuid \<Rightarrow> nat \<Rightarrow> slot_row list \<Rightarrow> slot_row list option" where
  "try_slot c b l k s =
     (let expires = stmt_now c + (request_timeout_seconds b + 5)
      in case slot_row_of (tb_name b) k s of
           None \<Rightarrow> Some (s @ [\<lparr>slot_provider = tb_name b, slot_no = int k, slot_lease = l, slot_expires = expires\<rparr>])
         | Some r \<Rightarrow>
             if slot_expires r \<le> stmt_now c
             then Some (update_where (\<lambda>r. slot_provider r = tb_name b \<and> slot_no r = int k)
                          (\<lambda>r. r\<lparr>slot_lease := l, slot_expires := expires\<rparr>) s)
             else None)"

fun slot_from :: "clk \<Rightarrow> token_bucket \<Rightarrow> uuid \<Rightarrow> nat list \<Rightarrow> slot_row list \<Rightarrow> (nat \<times> slot_row list) option" where
  "slot_from c b l [] s = None"
| "slot_from c b l (k # ks) s = (case try_slot c b l k s of
       Some s1 \<Rightarrow> Some (k, s1)
     | None \<Rightarrow> slot_from c b l ks s)"

definition slot :: "clk \<Rightarrow> token_bucket \<Rightarrow> uuid \<Rightarrow> slot_row list \<Rightarrow> (nat \<times> slot_row list) option" where
  "slot c b l s = slot_from c b l [0..<concurrency b] s"

definition release_slot :: "token_bucket \<Rightarrow> nat \<Rightarrow> uuid \<Rightarrow> slot_row list \<Rightarrow> slot_row list" where
  "release_slot b k l s =
     delete_where (\<lambda>r. slot_provider r = tb_name b \<and> slot_no r = int k \<and> slot_lease r = l) s"

section \<open>Waiting\<close>

record round =
  rd_others :: "db \<Rightarrow> db"
  rd_clk :: clk
  rd_clock :: rat
  rd_random :: rat

datatype 'a waited = Got 'a | Raised exn | Waiting

definition rate_limited :: "rat \<Rightarrow> exn" where
  "rate_limited w = Retryable (RateLimited (Some w))"

text \<open>The result of a wait: its outcome, the sleeps it made, the rounds left and the database.\<close>

fun wait_rounds ::
    "token_bucket \<Rightarrow> rat \<Rightarrow> rat option \<Rightarrow> round list \<Rightarrow> db \<Rightarrow> unit waited \<times> rat list \<times> round list \<times> db"
where
  "wait_rounds b amount deadline [] d = (Waiting, [], [], d)"
| "wait_rounds b amount deadline (r # rs) d =
     (let d0 = rd_others r d;
          (wait, t) = take_units (rd_clk r) b amount (provider_buckets d0);
          d1 = d0\<lparr>provider_buckets := t\<rparr>
      in if wait = 0 then (Got (), [], rs, d1)
         else let limit = (case deadline of None \<Rightarrow> max_wait_seconds b | Some x \<Rightarrow> x - rd_clock r)
              in if wait > limit then (Raised (rate_limited wait), [], rs, d1)
                 else let pause = wait + rd_random r * (wait / 4 + 1 / 20);
                          z = (case deadline of None \<Rightarrow> pause | Some _ \<Rightarrow> min pause limit);
                          (res, zs, rest, d2) = wait_rounds b amount deadline rs d1
                      in (res, z # zs, rest, d2))"

definition wait_tokens ::
    "token_bucket \<Rightarrow> rat \<Rightarrow> rat option \<Rightarrow> round list \<Rightarrow> db \<Rightarrow> unit waited \<times> rat list \<times> round list \<times> db"
where
  "wait_tokens b amount deadline rs d =
     (if \<not> (0 < amount \<and> amount \<le> capacity b) then (Raised ValueError, [], rs, d)
      else wait_rounds b amount deadline rs d)"

fun wait_slot ::
    "token_bucket \<Rightarrow> uuid \<Rightarrow> rat \<Rightarrow> rat \<Rightarrow> round list \<Rightarrow> db \<Rightarrow> nat waited \<times> rat list \<times> round list \<times> db"
where
  "wait_slot b l deadline bo [] d = (Waiting, [], [], d)"
| "wait_slot b l deadline bo (r # rs) d =
     (let d0 = rd_others r d
      in case slot (rd_clk r) b l (provider_slots d0) of
           Some (k, s) \<Rightarrow> (Got k, [], rs, d0\<lparr>provider_slots := s\<rparr>)
         | None \<Rightarrow>
             let remaining = deadline - rd_clock r
             in if remaining \<le> 0 then (Raised (rate_limited bo), [], rs, d0)
                else let z = min (bo / 2 + rd_random r * (bo / 2)) remaining;
                         (res, zs, rest, d2) = wait_slot b l deadline (min (bo * 2) 2) rs d0
                     in (res, z # zs, rest, d2))"

text \<open>
  \<open>request\<close> up to the call: the units, then the slot, refunding the unit when no slot frees up in
  time. \<open>None\<close> in \<open>Got\<close> is a bucket without slots. The first round's clock starts the deadline.
\<close>

definition request_start ::
    "token_bucket \<Rightarrow> uuid \<Rightarrow> rat \<Rightarrow> clk \<Rightarrow> round list \<Rightarrow> db \<Rightarrow> nat option waited \<times> db"
where
  "request_start b l clock refund_clk rs d =
     (if concurrency b = 0
      then (case wait_tokens b 1 None rs d of
              (Got _, _, _, d1) \<Rightarrow> (Got None, d1)
            | (Raised e, _, _, d1) \<Rightarrow> (Raised e, d1)
            | (Waiting, _, _, d1) \<Rightarrow> (Waiting, d1))
      else let deadline = clock + max_wait_seconds b
           in case wait_tokens b 1 (Some deadline) rs d of
                (Raised e, _, _, d1) \<Rightarrow> (Raised e, d1)
              | (Waiting, _, _, d1) \<Rightarrow> (Waiting, d1)
              | (Got _, _, rest, d1) \<Rightarrow>
                  (case wait_slot b l deadline (1 / 20) rest d1 of
                     (Got k, _, _, d2) \<Rightarrow> (Got (Some k), d2)
                   | (Waiting, _, _, d2) \<Rightarrow> (Waiting, d2)
                   | (Raised e, _, _, d2) \<Rightarrow>
                       (Raised e, d2\<lparr>provider_buckets := refund refund_clk b 1 (provider_buckets d2)\<rparr>)))"

definition request_end :: "token_bucket \<Rightarrow> uuid \<Rightarrow> nat option \<Rightarrow> db \<Rightarrow> db" where
  "request_end b l k d = (case k of
       None \<Rightarrow> d
     | Some k \<Rightarrow> d\<lparr>provider_slots := release_slot b k l (provider_slots d)\<rparr>)"

section \<open>Several buckets at once\<close>

definition charges :: "token_bucket list \<Rightarrow> rat list \<Rightarrow> exn + (token_bucket \<times> rat) list" where
  "charges bs costs =
     (if length costs \<noteq> length bs then Inl ValueError
      else if list_ex (\<lambda>x. x < 0) costs then Inl ValueError
      else Inr (sort_key (\<lambda>x. tb_name (fst x))
             (map (\<lambda>(b, cost). (b, min cost (capacity b))) (filter (\<lambda>(b, cost). cost \<noteq> 0) (zip bs costs)))))"

text \<open>All rows locked in order, each with the statement time it was read at.\<close>

fun lock_all ::
    "(nat \<Rightarrow> clk) \<Rightarrow> nat \<Rightarrow> (token_bucket \<times> rat) list \<Rightarrow> bucket_row list
      \<Rightarrow> (token_bucket \<times> rat \<times> rat \<times> clk) list \<times> bucket_row list"
where
  "lock_all cs n [] t = ([], t)"
| "lock_all cs n ((b, cost) # rest) t =
     (let (tokens, t1) = locked (cs n) b t; (sts, t2) = lock_all cs (Suc n) rest t1
      in ((b, cost, tokens, cs n) # sts, t2))"

definition shared_wait :: "(token_bucket \<times> rat \<times> rat \<times> clk) list \<Rightarrow> bucket_row list \<Rightarrow> rat" where
  "shared_wait sts t = foldr max
     (map (\<lambda>(b, cost, tokens, c). held c (tb_name b) t) sts
      @ map (\<lambda>(b, cost, tokens, c). (cost - tokens) / per_second b)
          (filter (\<lambda>(b, cost, tokens, c). tokens < cost) sts)) 0"

definition write_all :: "bool \<Rightarrow> (token_bucket \<times> rat \<times> rat \<times> clk) list \<Rightarrow> bucket_row list \<Rightarrow> bucket_row list" where
  "write_all pay sts t =
     fold (\<lambda>(b, cost, tokens, c). write_tokens c (tb_name b) (if pay then tokens - cost else tokens)) sts t"

definition shared_take :: "(nat \<Rightarrow> clk) \<Rightarrow> (token_bucket \<times> rat) list \<Rightarrow> bucket_row list \<Rightarrow> rat \<times> bucket_row list" where
  "shared_take cs charged t =
     (let (sts, t1) = lock_all cs 0 charged t; wait = shared_wait sts t1
      in (wait, write_all (wait = 0) sts t1))"

text \<open>\<open>SharedBudget.acquire\<close>: each round also gives the statement time of every row lock.\<close>

fun shared_rounds ::
    "rat \<Rightarrow> (token_bucket \<times> rat) list \<Rightarrow> (round \<times> (nat \<Rightarrow> clk)) list \<Rightarrow> db \<Rightarrow> unit waited \<times> rat list \<times> db"
where
  "shared_rounds limit charged [] d = (Waiting, [], d)"
| "shared_rounds limit charged ((r, cs) # rs) d =
     (let d0 = rd_others r d;
          (wait, t) = shared_take cs charged (provider_buckets d0);
          d1 = d0\<lparr>provider_buckets := t\<rparr>
      in if wait = 0 then (Got (), [], d1)
         else if wait > limit then (Raised (rate_limited wait), [], d1)
         else let (res, zs, d2) = shared_rounds limit charged rs d1
              in (res, (wait + rd_random r * (wait / 4 + 1 / 20)) # zs, d2))"

definition shared_acquire ::
    "rat \<Rightarrow> token_bucket list \<Rightarrow> rat list \<Rightarrow> (round \<times> (nat \<Rightarrow> clk)) list \<Rightarrow> db \<Rightarrow> unit waited \<times> rat list \<times> db"
where
  "shared_acquire limit bs costs rs d = (case charges bs costs of
       Inl e \<Rightarrow> (Raised e, [], d)
     | Inr charged \<Rightarrow> if charged = [] then (Got (), [], d) else shared_rounds limit charged rs d)"

definition shared_refund :: "(nat \<Rightarrow> clk) \<Rightarrow> token_bucket list \<Rightarrow> rat list \<Rightarrow> bucket_row list \<Rightarrow> exn + bucket_row list" where
  "shared_refund cs bs costs t = rbind (charges bs costs) (\<lambda>charged.
     Inr (fold (\<lambda>(n, b, cost). refund (cs n) b cost) (zip [0..<length charged] charged) t))"

definition shared_block :: "(nat \<Rightarrow> clk) \<Rightarrow> token_bucket list \<Rightarrow> rat option \<Rightarrow> bucket_row list \<Rightarrow> bucket_row list" where
  "shared_block cs bs seconds t = fold (\<lambda>(n, b). hold (cs n) b seconds) (zip [0..<length bs] bs) t"

section \<open>A metered resource\<close>

text \<open>
  What a rate limit promises whoever pays it: a level that is at most the capacity, refills at most
  at the rate, pays for every grant and never grants more than it holds. Then over any run the
  grants stay below the capacity, what was returned and the refill of the elapsed time.
\<close>

inductive metered_run ::
    "(rat \<Rightarrow> 's \<Rightarrow> rat \<Rightarrow> rat \<Rightarrow> 's \<Rightarrow> bool) \<Rightarrow> rat \<Rightarrow> 's \<Rightarrow> rat \<Rightarrow> rat \<Rightarrow> rat \<Rightarrow> 's \<Rightarrow> bool"
  for step x0 s0 where
  run_start: "metered_run step x0 s0 x0 0 0 s0"
| run_step: "metered_run step x0 s0 y G R s \<Longrightarrow> y \<le> x \<Longrightarrow> step x s g q s' \<Longrightarrow>
    metered_run step x0 s0 x (G + g) (R + q) s'"

locale metered =
  fixes level :: "rat \<Rightarrow> 's \<Rightarrow> rat" and good :: "rat \<Rightarrow> 's \<Rightarrow> bool"
    and step :: "rat \<Rightarrow> 's \<Rightarrow> rat \<Rightarrow> rat \<Rightarrow> 's \<Rightarrow> bool" and room rate :: rat
  assumes rate_nonneg: "0 \<le> rate" and cap_nonneg: "0 \<le> room"
    and level_le_cap: "level x s \<le> room"
    and level_refill: "good y s \<Longrightarrow> y \<le> x \<Longrightarrow> level x s \<le> level y s + rate * (x - y)"
    and step_pays: "good x s \<Longrightarrow> step x s g q s' \<Longrightarrow> level x s' \<le> level x s - g + q"
    and step_covered: "good x s \<Longrightarrow> step x s g q s' \<Longrightarrow> g \<le> max 0 (level x s)"
    and step_returns: "step x s g q s' \<Longrightarrow> 0 \<le> q"
    and good_step: "good x s \<Longrightarrow> step x s g q s' \<Longrightarrow> good x s'"
    and good_later: "good y s \<Longrightarrow> y \<le> x \<Longrightarrow> good x s"
begin

lemma run_invariant:
  assumes "metered_run step x0 s0 x G R s" "good x0 s0"
  shows "good x s \<and> x0 \<le> x \<and> level x s \<le> room + R + rate * (x - x0) - G
    \<and> G \<le> room + R + rate * (x - x0)"
  using assms
proof (induction rule: metered_run.induct)
  case run_start
  then show ?case using level_le_cap cap_nonneg by simp
next
  case (run_step y G R s x g q s')
  then have ih: "good y s" "x0 \<le> y" "level y s \<le> room + R + rate * (y - x0) - G"
    "G \<le> room + R + rate * (y - x0)" by simp_all
  have gx: "good x s" using ih(1) run_step.hyps(2) by (rule good_later)
  have l: "level x s \<le> room + R + rate * (x - x0) - G"
    using level_refill[OF ih(1) run_step.hyps(2)] ih(3) by (simp add: algebra_simps)
  have m: "rate * (y - x0) \<le> rate * (x - x0)"
    using rate_nonneg run_step.hyps(2) by (simp add: mult_left_mono)
  have "g \<le> max 0 (level x s)" "0 \<le> q" "level x s' \<le> level x s - g + q" "good x s'"
    using step_covered[OF gx] step_returns step_pays[OF gx] good_step[OF gx] run_step.hyps(3) by blast+
  moreover have "x0 \<le> x" using ih(2) run_step.hyps(2) by simp
  ultimately show ?case using l m ih(4) by (simp add: max_def split: if_splits)
qed

lemma run_bounded: "metered_run step x0 s0 x G R s \<Longrightarrow> good x0 s0 \<Longrightarrow> G \<le> room + R + rate * (x - x0)"
  by (simp add: run_invariant)

end

section \<open>The buckets are metered\<close>

definition sound_bucket :: "token_bucket \<Rightarrow> bool" where
  "sound_bucket b \<longleftrightarrow> 0 < per_hour b \<and> 0 < period_seconds b"

lemma sound_bucketD [simp]:
  assumes "sound_bucket b"
  shows "0 < capacity b" "0 < per_second b"
  using assms by (simp_all add: sound_bucket_def capacity_def per_second_def)

definition level :: "token_bucket \<Rightarrow> rat \<Rightarrow> bucket_row list \<Rightarrow> rat" where
  "level b x t = (case bucket_of (tb_name b) t of
       None \<Rightarrow> capacity b
     | Some r \<Rightarrow> min (capacity b) (bkt_tokens r + max (x - bkt_updated r) 0 * per_second b))"

definition settled :: "token_bucket \<Rightarrow> rat \<Rightarrow> bucket_row list \<Rightarrow> bool" where
  "settled b x t = (case bucket_of (tb_name b) t of None \<Rightarrow> True | Some r \<Rightarrow> bkt_updated r \<le> x)"

lemma bucket_of_set_bucket:
  assumes "\<And>r. bkt_name (f r) = bkt_name r"
  shows "bucket_of n (set_bucket m f t) = (if n = m then map_option f (bucket_of n t) else bucket_of n t)"
proof -
  have "bucket_of n (set_bucket m f t) = map_option (\<lambda>r. if bkt_name r = m then f r else r) (bucket_of n t)"
    unfolding bucket_of_def set_bucket_def by (rule buckets_table.fetch_update) (rule assms)
  then show ?thesis
    by (cases "bucket_of n t") (auto simp: bucket_of_def dest: fetch_SomeD)
qed

lemma bucket_of_write_tokens [simp]:
  "bucket_of n (write_tokens c m x t) = (if n = m
     then map_option (\<lambda>r. r\<lparr>bkt_tokens := x, bkt_updated := stmt_now c\<rparr>) (bucket_of n t) else bucket_of n t)"
  by (simp add: write_tokens_def bucket_of_set_bucket)

lemma bucket_of_ensure:
  "bucket_of n (ensure_bucket c b t) = (case bucket_of n t of
     Some r \<Rightarrow> Some r
   | None \<Rightarrow> if n = tb_name b then Some \<lparr>bkt_name = tb_name b, bkt_tokens = capacity b,
               bkt_updated = tx_now c, bkt_held_until = None\<rparr> else None)"
  by (auto simp: ensure_bucket_def bucket_of_def fetch_append split: option.splits)

lemma locked_level:
  assumes "sound_bucket b"
  shows "fst (locked c b t) = level b (stmt_now c) t"
  using sound_bucketD[OF assms]
  by (auto simp: locked_def Let_def bucket_of_ensure level_def refilled_def min_def max_def split: option.splits)

lemma snd_locked: "snd (locked c b t) = ensure_bucket c b t"
  by (simp add: locked_def Let_def)

lemma locked_eq: "sound_bucket b \<Longrightarrow> locked c b t = (level b (stmt_now c) t, ensure_bucket c b t)"
  using locked_level snd_locked by (metis prod.collapse)

lemma ensured: "\<exists>r. bucket_of (tb_name b) (ensure_bucket c b t) = Some r"
  by (simp add: bucket_of_ensure split: option.splits)

lemma level_le_capacity: "level b x t \<le> capacity b"
  by (simp add: level_def split: option.splits)

lemma level_refills:
  assumes "sound_bucket b" "settled b y t" "y \<le> x"
  shows "level b x t \<le> level b y t + per_second b * (x - y)"
proof (cases "bucket_of (tb_name b) t")
  case None
  then show ?thesis using sound_bucketD[OF assms(1)] assms(3) by (simp add: level_def)
next
  case (Some r)
  have "0 \<le> per_second b * (x - y)" using sound_bucketD(2)[OF assms(1)] assms(3) by simp
  moreover have "max (x - bkt_updated r) 0 * per_second b
      = max (y - bkt_updated r) 0 * per_second b + per_second b * (x - y)"
    using assms(2,3) Some by (simp add: settled_def algebra_simps)
  ultimately show ?thesis by (simp add: level_def Some min_def)
qed

lemma level_of_row:
  assumes "bucket_of (tb_name b) t = Some r" "bkt_updated r = x" "bkt_tokens r \<le> capacity b"
  shows "level b x t = bkt_tokens r \<and> settled b x t"
  using assms by (simp add: level_def settled_def)

text \<open>Writing a balance at a statement's time makes it the level at that time.\<close>

lemma written:
  assumes "\<exists>r. bucket_of (tb_name b) t = Some r" "x \<le> capacity b" "v = stmt_now c"
  shows "level b v (write_tokens c (tb_name b) x t) = x" "settled b v (write_tokens c (tb_name b) x t)"
  using assms by (auto simp: level_def settled_def)

inductive bucket_step :: "token_bucket \<Rightarrow> rat \<Rightarrow> bucket_row list \<Rightarrow> rat \<Rightarrow> rat \<Rightarrow> bucket_row list \<Rightarrow> bool"
  for b where
  bs_take: "take_units c b a t = (w, t') \<Longrightarrow> 0 < a \<Longrightarrow> bucket_step b (stmt_now c) t (if w = 0 then a else 0) 0 t'"
| bs_refund: "0 \<le> a \<Longrightarrow> bucket_step b (stmt_now c) t 0 a (refund c b a t)"
| bs_hold: "bucket_step b (stmt_now c) t 0 0 (hold c b secs t)"
| bs_block: "bucket_step b (stmt_now c) t 0 0 (block c b secs t)"
| bs_other: "bucket_of (tb_name b) t' = bucket_of (tb_name b) t \<Longrightarrow> bucket_step b x t 0 0 t'"

lemma take_units_cases:
  assumes "sound_bucket b" "take_units c b a t = (w, t')"
  shows "t' = write_tokens c (tb_name b) (if w = 0 then level b (stmt_now c) t - a else level b (stmt_now c) t)
           (ensure_bucket c b t)"
    and "w = 0 \<longleftrightarrow> held c (tb_name b) (ensure_bucket c b t) = 0 \<and> a \<le> level b (stmt_now c) t"
    and "0 \<le> w"
proof -
  let ?h = "held c (tb_name b) (ensure_bucket c b t)" and ?l = "level b (stmt_now c) t"
  have h: "0 \<le> ?h" by (simp add: held_def split: option.splits)
  have s: "0 < (a - ?l) / per_second b" if "?l < a" using that sound_bucketD(2)[OF assms(1)] by simp
  have d: "(w, t') = (if ?h = 0 \<and> ?l \<ge> a then (0, write_tokens c (tb_name b) (?l - a) (ensure_bucket c b t))
      else (max ?h (if ?l < a then (a - ?l) / per_second b else 0), write_tokens c (tb_name b) ?l (ensure_bucket c b t)))"
    using assms by (simp add: take_units_def locked_eq Let_def)
  show "t' = write_tokens c (tb_name b) (if w = 0 then ?l - a else ?l) (ensure_bucket c b t)"
    "w = 0 \<longleftrightarrow> ?h = 0 \<and> a \<le> ?l" "0 \<le> w"
    using d h s by (auto simp: max_def split: if_splits)
qed

lemma bucket_step_facts:
  assumes "sound_bucket b" "bucket_step b x t g q t'"
  shows "level b x t' \<le> level b x t - g + q" "g \<le> max 0 (level b x t)" "0 \<le> q"
    "settled b x t \<Longrightarrow> settled b x t'"
proof -
  note e = ensured[of b] and l = level_le_capacity and le = locked_eq[OF assms(1)]
  have "level b x t' \<le> level b x t - g + q \<and> g \<le> max 0 (level b x t) \<and> 0 \<le> q
      \<and> (settled b x t \<longrightarrow> settled b x t')"
    using assms(2)
  proof cases
    case (bs_take c a w)
    note k = take_units_cases[OF assms(1) bs_take(4)]
    let ?v = "if w = 0 then level b (stmt_now c) t - a else level b (stmt_now c) t"
    have "?v \<le> capacity b" using l[of b "stmt_now c" t] bs_take(5) by simp
    from written[OF e this refl] show ?thesis using k bs_take by auto
  next
    case (bs_refund c)
    let ?v = "min (capacity b) (level b (stmt_now c) t + q)"
    have t': "t' = write_tokens c (tb_name b) ?v (ensure_bucket c b t)"
      using bs_refund by (simp add: refund_def le Let_def)
    have "?v \<le> capacity b" by simp
    from written[OF e this refl] have "level b x t' = ?v" "settled b x t'"
      unfolding t' bs_refund(1) by simp_all
    then show ?thesis using bs_refund by simp
  next
    case (bs_hold c secs)
    let ?f = "\<lambda>r. r\<lparr>bkt_tokens := level b (stmt_now c) t, bkt_updated := stmt_now c,
        bkt_held_until := (case bkt_held_until r of None \<Rightarrow> Some (stmt_now c + pause_of secs)
          | Some current \<Rightarrow> Some (if current < stmt_now c + pause_of secs then stmt_now c + pause_of secs else current))\<rparr>"
    have t': "t' = set_bucket (tb_name b) ?f (ensure_bucket c b t)"
      using bs_hold by (simp add: hold_def le Let_def)
    obtain r where "bucket_of (tb_name b) (ensure_bucket c b t) = Some r" using e by blast
    then have "bucket_of (tb_name b) t' = Some (?f r)" by (simp add: t' bucket_of_set_bucket)
    from level_of_row[OF this, of x] show ?thesis using bs_hold(1-3) l[of b x t] by simp
  next
    case (bs_block c secs)
    let ?v = "min (level b (stmt_now c) t) (- pause_of secs * per_second b)"
    have t': "t' = write_tokens c (tb_name b) ?v (ensure_bucket c b t)"
      using bs_block by (simp add: block_def le Let_def)
    have "?v \<le> capacity b" using l[of b "stmt_now c" t] by (simp add: min.coboundedI1)
    from written[OF e this refl] have "level b x t' = ?v" "settled b x t'"
      unfolding t' bs_block(1) by simp_all
    then show ?thesis using bs_block(1-3) by simp
  next
    case bs_other
    then show ?thesis by (simp add: level_def settled_def)
  qed
  then show "level b x t' \<le> level b x t - g + q" "g \<le> max 0 (level b x t)" "0 \<le> q"
    "settled b x t \<Longrightarrow> settled b x t'" by simp_all
qed

interpretation bucket: metered "level b" "\<lambda>x t. sound_bucket b \<and> settled b x t" "bucket_step b"
    "max 0 (capacity b)" "max 0 (per_second b)" for b
proof
  show "0 \<le> max 0 (per_second b)" "0 \<le> max 0 (capacity b)" by simp_all
  show "level b x s \<le> max 0 (capacity b)" for x s
    using level_le_capacity[of b x s] by simp
  show "level b x s \<le> level b y s + max 0 (per_second b) * (x - y)"
    if "sound_bucket b \<and> settled b y s" "y \<le> x" for x y s
    using level_refills[of b y s x] that by simp
  show "sound_bucket b \<and> settled b x s" if "sound_bucket b \<and> settled b y s" "y \<le> x" for x y s
    using that by (auto simp: settled_def split: option.splits)
  show "0 \<le> q" if "bucket_step b x s g q s'" for x s g q s'
    using that by cases simp_all
  show "sound_bucket b \<and> settled b x s'" if "sound_bucket b \<and> settled b x s" "bucket_step b x s g q s'"
    for x s g q s'
    using that bucket_step_facts(4)[of b x s g q s'] by simp
qed (use bucket_step_facts in blast)+

text \<open>C11: The provider's limit holds whatever the workers do. Over any run of charges, refunds, holds
  and blocks of a bucket by any number of workers (and of anything that leaves its row alone), the
  units granted never exceed the capacity, plus what was refunded, plus the refill of the elapsed
  time at the bucket's rate.\<close>

theorem bucket_rate_bound:
  assumes "sound_bucket b" "settled b x0 t0" "metered_run (bucket_step b) x0 t0 x granted refunded t"
  shows "granted \<le> of_int (per_hour b) + refunded + of_int (per_hour b) / period_seconds b * (x - x0)"
  using bucket.run_bounded[OF assms(3)] assms(1,2) sound_bucketD[OF assms(1)]
  by (simp add: capacity_def per_second_def)

theorem bucket_rate_bound_witness:
  "(1::rat) \<le> 2 + 0 + 2 / 10 * (5 - 5)"
proof -
  let ?b = "\<lparr>tb_name = ''p'', per_hour = 2, max_wait_seconds = 1, concurrency = 0,
    request_timeout_seconds = 1, period_seconds = 10\<rparr>" and ?c = "\<lparr>tx_now = 5, stmt_now = 5, wall = 5\<rparr>"
  have s: "sound_bucket ?b" by (simp add: sound_bucket_def)
  obtain w t where t: "take_units ?c ?b 1 [] = (w, t)" by (cases "take_units ?c ?b 1 []")
  have "w = 0" using t by (simp add: take_units_def locked_def ensure_bucket_def bucket_of_def capacity_def
      refilled_def held_def Let_def per_second_def)
  then have "bucket_step ?b 5 [] 1 0 t" using bs_take[OF t] by simp
  then have r: "metered_run (bucket_step ?b) 5 [] 5 (0 + 1) (0 + 0) t"
    by (rule run_step[OF run_start order_refl])
  have "settled ?b 5 []" by (simp add: settled_def bucket_of_def)
  from bucket_rate_bound[OF s this r] show ?thesis by simp
qed

section \<open>Waiting\<close>

lemma held_after_write:
  "held c n (write_tokens c' m x t) = held c n t"
  by (simp add: held_def split: option.splits)

text \<open>A worker that is alone waits at most once. When its first attempt is short of units by a
  wait within the bound, nobody else touches the buckets and the second round's clock shows that the
  requested sleep has passed, the second attempt gets the units: one sleep, at least as long as the
  reported wait and at most a quarter and a twentieth of a second longer.\<close>

theorem uncontended_wait_ends:
  assumes "sound_bucket b" "0 < a" "a \<le> capacity b"
    and "take_units (rd_clk r1) b a (provider_buckets d) = (w, t)" "0 < w" "w \<le> max_wait_seconds b"
    and "rd_others r1 d = d" "\<And>e. rd_others r2 e = e" "0 \<le> rd_random r1" "rd_random r1 < 1"
    and "stmt_now (rd_clk r2) = stmt_now (rd_clk r1) + w + rd_random r1 * (w / 4 + 1 / 20)"
  shows "\<exists>z e. wait_tokens b a None (r1 # r2 # rs) d = (Got (), [z], rs, e) \<and> w \<le> z \<and> z < w + w / 4 + 1 / 20"
proof -
  let ?c = "rd_clk r1" and ?c2 = "rd_clk r2" and ?l = "level b (stmt_now (rd_clk r1)) (provider_buckets d)"
  let ?e = "ensure_bucket ?c b (provider_buckets d)"
  note k = take_units_cases[OF assms(1,4)]
  have t: "t = write_tokens ?c (tb_name b) ?l ?e" using k(1) assms(5) by simp
  obtain row where row: "bucket_of (tb_name b) ?e = Some row" using ensured by blast
  let ?row = "row\<lparr>bkt_tokens := ?l, bkt_updated := stmt_now ?c\<rparr>"
  have trow: "bucket_of (tb_name b) t = Some ?row" by (simp add: t row)
  have ens: "ensure_bucket ?c2 b t = t" by (simp add: ensure_bucket_def trow)
  have w: "w = max (held ?c (tb_name b) ?e) (if ?l < a then (a - ?l) / per_second b else 0)"
    using assms(4,5) by (simp add: take_units_def locked_eq[OF assms(1)] Let_def split: if_splits)
  have later: "stmt_now ?c + w \<le> stmt_now ?c2" using assms(5,9,11) by simp
  have "held ?c2 (tb_name b) t = 0"
  proof (cases "bkt_held_until row")
    case None
    then show ?thesis by (simp add: held_def trow)
  next
    case (Some u)
    then have "u - stmt_now ?c \<le> w" using w by (simp add: held_def row le_max_iff_disj)
    then have "u \<le> stmt_now ?c2" using later by simp
    then show ?thesis by (simp add: held_def trow Some)
  qed
  moreover have "a \<le> level b (stmt_now ?c2) t"
  proof -
    have "a - ?l \<le> w * per_second b"
    proof (cases "?l < a")
      case True
      then have "(a - ?l) / per_second b \<le> w" using w by simp
      then show ?thesis using sound_bucketD(2)[OF assms(1)] by (simp add: divide_le_eq)
    next
      case False
      then show ?thesis using sound_bucketD(2)[OF assms(1)] assms(5)
        by (meson diff_le_0_iff_le le_less_linear less_imp_le mult_nonneg_nonneg order_trans)
    qed
    moreover have "w * per_second b \<le> max (stmt_now ?c2 - stmt_now ?c) 0 * per_second b"
      using later sound_bucketD(2)[OF assms(1)] by (intro mult_right_mono) auto
    ultimately show ?thesis using assms(3) by (simp add: level_def trow)
  qed
  ultimately have "fst (take_units ?c2 b a t) = 0"
    by (simp add: take_units_def locked_eq[OF assms(1)] ens)
  then obtain t2 where t2: "take_units ?c2 b a t = (0, t2)" by (metis prod.collapse)
  have "rd_random r1 * (w / 4 + 1 / 20) < w / 4 + 1 / 20"
    using assms(5,10) mult_strict_right_mono[of "rd_random r1" 1 "w / 4 + 1 / 20"] by simp
  moreover have "0 \<le> rd_random r1 * (w / 4 + 1 / 20)" using assms(5,9) by simp
  moreover have "\<exists>e. wait_tokens b a None (r1 # r2 # rs) d
      = (Got (), [w + rd_random r1 * (w / 4 + 1 / 20)], rs, e)"
    using assms(2,3,5,6) by (simp add: wait_tokens_def assms(4,7,8) t2 Let_def)
  ultimately show ?thesis by (metis add.assoc add_le_cancel_left add_less_cancel_left add_0_right)
qed

definition ex_bucket :: token_bucket where
  "ex_bucket = \<lparr>tb_name = ''p'', per_hour = 2, max_wait_seconds = 10, concurrency = 1,
     request_timeout_seconds = 1, period_seconds = 10\<rparr>"

definition ex_drained :: db where
  "ex_drained = empty_db\<lparr>provider_buckets :=
     [\<lparr>bkt_name = ''p'', bkt_tokens = 0, bkt_updated = 5, bkt_held_until = None\<rparr>]\<rparr>"

definition ex_round :: "rat \<Rightarrow> round" where
  "ex_round t = \<lparr>rd_others = (\<lambda>d. d), rd_clk = \<lparr>tx_now = t, stmt_now = t, wall = t\<rparr>, rd_clock = t, rd_random = 0\<rparr>"

lemma ex_bucket_sound: "sound_bucket ex_bucket"
  by (simp add: sound_bucket_def ex_bucket_def)

lemma ex_short_take: "\<exists>t. take_units (rd_clk (ex_round 5)) ex_bucket 1 (provider_buckets ex_drained) = (5, t)"
  by (simp add: take_units_def locked_def ensure_bucket_def bucket_of_def refilled_def held_def Let_def
      capacity_def per_second_def ex_bucket_def ex_drained_def ex_round_def)

theorem uncontended_wait_ends_witness:
  "\<exists>z e. wait_tokens ex_bucket 1 None [ex_round 5, ex_round 10] ex_drained = (Got (), [z], [], e) \<and> 5 \<le> z"
proof -
  obtain t where t: "take_units (rd_clk (ex_round 5)) ex_bucket 1 (provider_buckets ex_drained) = (5, t)"
    using ex_short_take by blast
  have "1 \<le> capacity ex_bucket" "5 \<le> max_wait_seconds ex_bucket"
    "rd_others (ex_round 5) ex_drained = ex_drained" "\<And>e. rd_others (ex_round 10) e = e"
    "0 \<le> rd_random (ex_round 5)" "rd_random (ex_round 5) < 1"
    "stmt_now (rd_clk (ex_round 10)) = stmt_now (rd_clk (ex_round 5)) + 5 + rd_random (ex_round 5) * (5 / 4 + 1 / 20)"
    by (simp_all add: ex_bucket_def capacity_def ex_round_def)
  from uncontended_wait_ends[OF ex_bucket_sound _ this(1) t _ this(2-7), of "[]"] show ?thesis by auto
qed

section \<open>Several buckets\<close>

lemma foldr_max_ge: "x \<in> set xs \<Longrightarrow> x \<le> foldr max xs (0::rat)"
  by (induction xs) (auto simp: le_max_iff_disj)

lemma foldr_max_nonneg: "0 \<le> foldr max xs (0::rat)"
  by (induction xs) (auto simp: le_max_iff_disj)

lemma ensure_other: "n \<noteq> tb_name b \<Longrightarrow> bucket_of n (ensure_bucket c b t) = bucket_of n t"
  by (simp add: bucket_of_ensure split: option.splits)

lemma level_cong: "bucket_of (tb_name b) t = bucket_of (tb_name b) t' \<Longrightarrow> level b x t = level b x t'"
  by (simp add: level_def)

lemma lock_all_spec:
  assumes "distinct (map (tb_name \<circ> fst) ch)" "\<forall>x \<in> set ch. sound_bucket (fst x)"
    and "lock_all cs n ch t = (sts, t1)"
  shows "length sts = length ch
    \<and> (\<forall>i < length ch. sts ! i = (fst (ch ! i), snd (ch ! i),
          level (fst (ch ! i)) (stmt_now (cs (n + i))) t, cs (n + i)))
    \<and> (\<forall>k. k \<notin> tb_name ` fst ` set ch \<longrightarrow> bucket_of k t1 = bucket_of k t)
    \<and> (\<forall>x \<in> set ch. \<exists>r. bucket_of (tb_name (fst x)) t1 = Some r)"
  using assms
proof (induction ch arbitrary: n t sts t1)
  case (Cons p rest)
  obtain b cost where p: "p = (b, cost)" by (cases p)
  let ?e = "ensure_bucket (cs n) b t"
  have lk: "locked (cs n) b t = (level b (stmt_now (cs n)) t, ?e)"
    using Cons.prems(2) by (simp add: locked_eq p)
  obtain us where us: "lock_all cs (Suc n) rest ?e = (us, t1)"
    "sts = (b, cost, level b (stmt_now (cs n)) t, cs n) # us"
    using Cons.prems(3) by (auto simp: lk p split: prod.splits)
  have nb: "tb_name (fst x) \<noteq> tb_name b" if "x \<in> set rest" for x
    using Cons.prems(1) that by (force simp: p)
  have ih: "length us = length rest"
    "\<And>i. i < length rest \<Longrightarrow> us ! i = (fst (rest ! i), snd (rest ! i),
        level (fst (rest ! i)) (stmt_now (cs (Suc n + i))) ?e, cs (Suc n + i))"
    "\<And>k. k \<notin> tb_name ` fst ` set rest \<Longrightarrow> bucket_of k t1 = bucket_of k ?e"
    "\<And>x. x \<in> set rest \<Longrightarrow> \<exists>r. bucket_of (tb_name (fst x)) t1 = Some r"
    using Cons.IH[OF _ _ us(1)] Cons.prems(1,2) by auto
  have same: "level (fst (rest ! i)) y ?e = level (fst (rest ! i)) y t" if "i < length rest" for i y
    using nb[of "rest ! i"] that by (intro level_cong ensure_other) simp
  have "sts ! i = (fst ((p # rest) ! i), snd ((p # rest) ! i),
      level (fst ((p # rest) ! i)) (stmt_now (cs (n + i))) t, cs (n + i))" if "i < length (p # rest)" for i
    using that ih(2) same by (cases i) (simp_all add: us(2) p)
  moreover have "bucket_of k t1 = bucket_of k t" if "k \<notin> tb_name ` fst ` set (p # rest)" for k
    using ih(3)[of k] that by (simp add: p ensure_other)
  moreover have "tb_name b \<notin> tb_name ` fst ` set rest" using nb by fastforce
  then have "\<exists>r. bucket_of (tb_name b) t1 = Some r" using ih(3)[of "tb_name b"] ensured[of b "cs n" t] by simp
  ultimately show ?case using ih(1,4) us(2) by (simp add: p)
qed simp

lemma write_all_other:
  "k \<notin> (\<lambda>x. tb_name (fst x)) ` set sts \<Longrightarrow> bucket_of k (write_all pay sts t) = bucket_of k t"
  by (induction sts arbitrary: t) (auto simp: write_all_def split: prod.splits)

lemma write_all_row:
  assumes "distinct (map (\<lambda>x. tb_name (fst x)) sts)" "(b, cost, tokens, c) \<in> set sts"
  shows "bucket_of (tb_name b) (write_all pay sts t) = map_option
     (\<lambda>r. r\<lparr>bkt_tokens := (if pay then tokens - cost else tokens), bkt_updated := stmt_now c\<rparr>) (bucket_of (tb_name b) t)"
  using assms
proof (induction sts arbitrary: t)
  case (Cons x sts)
  obtain b' cost' tokens' c' where x: "x = (b', cost', tokens', c')" by (cases x) auto
  let ?t = "write_tokens c' (tb_name b') (if pay then tokens' - cost' else tokens') t"
  have step: "write_all pay (x # sts) t = write_all pay sts ?t" by (simp add: write_all_def x)
  show ?case
  proof (cases "(b, cost, tokens, c) \<in> set sts")
    case True
    then have "tb_name b \<noteq> tb_name b'" using Cons.prems(1) by (force simp: x)
    with Cons.IH[OF _ True, of ?t] Cons.prems(1) show ?thesis by (simp add: step)
  next
    case False
    with Cons.prems(2) have "x = (b, cost, tokens, c)" by simp
    moreover have "tb_name b \<notin> (\<lambda>x. tb_name (fst x)) ` set sts" using Cons.prems(1) calculation by auto
    ultimately show ?thesis using x unfolding step by (simp add: write_all_other)
  qed
qed simp

text \<open>Several limits are charged all or nothing. When the shared charge of distinct buckets
  reports no wait, every bucket's balance covered its cost, none is held, and each balance is lower by
  exactly its cost; when it reports a wait, no balance changed.\<close>

theorem shared_all_or_nothing:
  assumes "distinct (map (tb_name \<circ> fst) charged)" "\<forall>(b, cost) \<in> set charged. sound_bucket b \<and> 0 \<le> cost"
    and "shared_take cs charged t = (w, t')" "i < length charged" "charged ! i = (b, cost)"
  shows "level b (stmt_now (cs i)) t' = level b (stmt_now (cs i)) t - (if w = 0 then cost else 0)
    \<and> (w = 0 \<longrightarrow> cost \<le> level b (stmt_now (cs i)) t) \<and> 0 \<le> w"
proof -
  obtain sts t1 where l: "lock_all cs 0 charged t = (sts, t1)" by (cases "lock_all cs 0 charged t")
  have sound: "\<forall>x \<in> set charged. sound_bucket (fst x)" using assms(2) by auto
  note k = lock_all_spec[OF assms(1) sound l]
  have w: "w = shared_wait sts t1" and t': "t' = write_all (w = 0) sts t1"
    using assms(3) by (auto simp: shared_take_def l Let_def)
  let ?l = "level b (stmt_now (cs i)) t"
  have m: "(b, cost, ?l, cs i) \<in> set sts"
    using k assms(4,5) by (metis add_0 fst_conv nth_mem snd_conv)
  have "map (\<lambda>x. tb_name (fst x)) sts = map (tb_name \<circ> fst) charged"
    using k by (auto intro!: nth_equalityI)
  then have d: "distinct (map (\<lambda>x. tb_name (fst x)) sts)" using assms(1) by simp
  obtain r where r: "bucket_of (tb_name b) t1 = Some r" using k assms(4,5) by (metis fst_conv nth_mem)
  have b: "sound_bucket b" "0 \<le> cost" using assms(2,4,5) nth_mem by fastforce+
  have nonneg: "0 \<le> w" unfolding w shared_wait_def by (rule foldr_max_nonneg)
  have covered: "cost \<le> ?l" if "w = 0"
  proof (rule ccontr)
    assume "\<not> cost \<le> ?l"
    then have "(cost - ?l) / per_second b \<in> set (map (\<lambda>(b, cost, tokens, c). (cost - tokens) / per_second b)
        (filter (\<lambda>(b, cost, tokens, c). tokens < cost) sts))" using m by force
    then have "(cost - ?l) / per_second b \<le> w"
      unfolding w shared_wait_def by (intro foldr_max_ge) simp
    with \<open>\<not> cost \<le> ?l\<close> sound_bucketD(2)[OF b(1)] that show False by (simp add: divide_le_eq)
  qed
  let ?v = "if w = 0 then ?l - cost else ?l"
  have "bucket_of (tb_name b) t' = Some (r\<lparr>bkt_tokens := ?v, bkt_updated := stmt_now (cs i)\<rparr>)"
    unfolding t' using write_all_row[OF d m, of "w = 0" t1] r by simp
  moreover have "?v \<le> capacity b" using level_le_capacity[of b "stmt_now (cs i)" t] b(2) by simp
  ultimately have "level b (stmt_now (cs i)) t' = ?v" using level_of_row by fastforce
  with covered nonneg show ?thesis by simp
qed

theorem shared_all_or_nothing_witness:
  "\<exists>w t'. shared_take (\<lambda>_. rd_clk (ex_round 5)) [(ex_bucket, 2)] [] = (w, t') \<and> 0 \<le> w
     \<and> level ex_bucket 5 t' = 2 - (if w = 0 then 2 else 0)"
proof -
  let ?ch = "[(ex_bucket, 2::rat)]" and ?cs = "\<lambda>_::nat. rd_clk (ex_round 5)"
  obtain w t' where t: "shared_take ?cs ?ch [] = (w, t')" by (cases "shared_take ?cs ?ch []")
  have h: "distinct (map (tb_name \<circ> fst) ?ch)" "\<forall>(b, cost) \<in> set ?ch. sound_bucket b \<and> (0::rat) \<le> cost"
    "0 < length ?ch" "?ch ! 0 = (ex_bucket, 2)"
    by (simp_all add: ex_bucket_sound)
  have "level ex_bucket 5 [] = 2" by (simp add: level_def bucket_of_def capacity_def ex_bucket_def)
  with shared_all_or_nothing[OF h(1,2) t h(3,4)] t show ?thesis by (simp add: ex_round_def)
qed

end
