(* ===== verification/Settings.thy ===== *)
theory Settings
  imports Schema
begin

text \<open>
  The backend configuration, \<open>backend/services/settings.py\<close>: the fields in groups, their declared
  ranges and defaults, the configuration predicates and the validators in the order they run.
  \<open>explicit\<close> is pydantic's \<open>model_fields_set\<close>; \<open>make_url\<close> of SQLAlchemy is a parameter, the
  driver, host and database it reads from a URL.
\<close>

record job_settings =
  embed_worker :: bool
  api_port :: int
  database_timeout :: rat
  worker_shutdown_seconds :: rat
  job_lease_seconds :: rat
  job_poll_seconds :: rat
  job_idle_poll_max :: "rat option"
  retry_transient :: int
  retry_rate_limited :: int
  retry_schema_repair :: int
  retry_unknown_outcome :: int
  retry_backoff :: rat
  retry_max_backoff :: rat

record media_settings =
  upload_max_bytes :: int
  upload_target_seconds :: int
  max_shared_duration_seconds :: int
  ffprobe_path :: string
  ffmpeg_path :: string
  media_probe_timeout :: rat
  media_extract_timeout :: rat
  media_cpu_seconds :: int
  media_output_max_bytes :: int

record speech_settings =
  asr_audio_max_bytes :: int
  asr_enabled :: bool
  text_grace_seconds :: int
  groq_api_key :: string
  groq_model :: string
  groq_fallback_model :: string
  groq_account_id :: string
  asr_limits_verified_on :: "int option"
  asr_requests_per_minute :: "int option"
  asr_requests_per_day :: "int option"
  asr_audio_seconds_per_hour :: "int option"
  asr_audio_seconds_per_day :: "int option"
  asr_minimum_billable_seconds :: "int option"
  asr_response_max_bytes :: int
  asr_timeout_seconds :: rat

record retention_settings =
  retention_enabled :: bool
  retention_data_seconds :: int
  retention_tombstone_seconds :: int
  retention_poll_seconds :: int
  retention_batch_size :: int

record evidence_settings =
  scholarxiv_api_key :: "string option"
  scholarxiv_base_url :: string
  scholarxiv_requests_per_hour :: int
  scholarxiv_federated :: bool
  evidence_query_route :: string
  evidence_relation_route :: string
  evidence_max_claims :: int
  evidence_max_queries :: int
  evidence_results_per_query :: int
  evidence_max_candidates :: int
  evidence_max_passages :: int
  evidence_max_full_text :: int
  evidence_max_llm_calls :: int
  evidence_provider_timeout :: rat
  crossref_mailto :: string

record quota_settings =
  quotas_enabled :: bool
  quota_daily_checks :: int
  quota_active_checks :: int
  quota_daily_upload_bytes :: int
  quota_claims_per_run :: int
  quota_provider_concurrency :: int
  quota_provider_reserve :: int
  quota_provider_reserve_fraction :: rat
  groq_llm_requests_per_minute :: int
  groq_llm_requests_per_day :: int
  groq_llm_tokens_per_minute :: int
  groq_llm_tokens_per_day :: int

record extraction_settings =
  extraction_enabled :: bool
  extraction_free_routes_verified :: bool
  extraction_models :: "string list"
  extraction_max_tokens :: int
  extraction_recovery_attempts :: int
  groq_extraction_enabled :: bool
  groq_free_route_verified :: bool
  extraction_budget_requests :: int
  extraction_budget_tokens :: int
  extraction_reserved_requests :: int
  extraction_reserved_tokens :: int
  extraction_batch_observations :: int
  extraction_overlap_observations :: int
  extraction_max_observations :: int

record reconciliation_settings =
  reconciliation_enabled :: bool
  reconciliation_free_routes_verified :: bool
  reconciliation_models :: "string list"
  reconciliation_max_tokens :: int

record settings =
  database_url :: string
  stub_reports :: bool
  google_client_id :: string
  job_conf :: job_settings
  media_conf :: media_settings
  speech_conf :: speech_settings
  retention_conf :: retention_settings
  evidence_conf :: evidence_settings
  quota_conf :: quota_settings
  extraction_conf :: extraction_settings
  reconciliation_conf :: reconciliation_settings
  explicit :: "string list"

section \<open>Declared ranges\<close>

definition in_range :: "'a::linorder \<Rightarrow> 'a \<Rightarrow> 'a \<Rightarrow> bool" where
  "in_range lo hi x \<longleftrightarrow> lo \<le> x \<and> x \<le> hi"

definition positive_to :: "rat \<Rightarrow> rat \<Rightarrow> bool" where
  "positive_to hi x \<longleftrightarrow> 0 < x \<and> x \<le> hi"

definition opt_all :: "('a \<Rightarrow> bool) \<Rightarrow> 'a option \<Rightarrow> bool" where
  "opt_all p x = (case x of None \<Rightarrow> True | Some v \<Rightarrow> p v)"

definition job_fields_ok :: "job_settings \<Rightarrow> bool" where
  "job_fields_ok s \<longleftrightarrow> in_range 1 65535 (api_port s) \<and> positive_to 30 (database_timeout s)
     \<and> positive_to 30 (worker_shutdown_seconds s) \<and> positive_to 600 (job_lease_seconds s)
     \<and> positive_to 60 (job_poll_seconds s) \<and> opt_all (positive_to 600) (job_idle_poll_max s)
     \<and> in_range 0 20 (retry_transient s) \<and> in_range 0 20 (retry_rate_limited s)
     \<and> in_range 0 10 (retry_schema_repair s) \<and> in_range 0 10 (retry_unknown_outcome s)
     \<and> positive_to 60 (retry_backoff s) \<and> positive_to 3600 (retry_max_backoff s)"

definition media_fields_ok :: "media_settings \<Rightarrow> bool" where
  "media_fields_ok s \<longleftrightarrow> 0 < upload_max_bytes s \<and> in_range 1 86400 (upload_target_seconds s)
     \<and> 0 < max_shared_duration_seconds s \<and> ffprobe_path s \<noteq> [] \<and> ffmpeg_path s \<noteq> []
     \<and> positive_to 60 (media_probe_timeout s) \<and> positive_to 600 (media_extract_timeout s)
     \<and> in_range 1 300 (media_cpu_seconds s) \<and> in_range 1 1048576 (media_output_max_bytes s)"

definition speech_fields_ok :: "speech_settings \<Rightarrow> bool" where
  "speech_fields_ok s \<longleftrightarrow> 44 < asr_audio_max_bytes s \<and> in_range 0 3600 (text_grace_seconds s)
     \<and> length (groq_model s) \<le> 128 \<and> length (groq_fallback_model s) \<le> 128
     \<and> length (groq_account_id s) \<le> 128
     \<and> opt_all (\<lambda>n. 0 < n) (asr_requests_per_minute s) \<and> opt_all (\<lambda>n. 0 < n) (asr_requests_per_day s)
     \<and> opt_all (\<lambda>n. 0 < n) (asr_audio_seconds_per_hour s)
     \<and> opt_all (\<lambda>n. 0 < n) (asr_audio_seconds_per_day s)
     \<and> opt_all (\<lambda>n. 0 < n) (asr_minimum_billable_seconds s)
     \<and> in_range 1 4194304 (asr_response_max_bytes s) \<and> positive_to 600 (asr_timeout_seconds s)"

definition retention_fields_ok :: "retention_settings \<Rightarrow> bool" where
  "retention_fields_ok s \<longleftrightarrow> in_range 60 2592000 (retention_data_seconds s)
     \<and> in_range 60 7776000 (retention_tombstone_seconds s) \<and> in_range 1 3600 (retention_poll_seconds s)
     \<and> in_range 1 1000 (retention_batch_size s)"

definition evidence_fields_ok :: "evidence_settings \<Rightarrow> bool" where
  "evidence_fields_ok s \<longleftrightarrow> length (scholarxiv_base_url s) \<le> 200
     \<and> in_range 1 1200 (scholarxiv_requests_per_hour s)
     \<and> in_range 1 100 (length (evidence_query_route s)) \<and> in_range 1 100 (length (evidence_relation_route s))
     \<and> in_range 1 100 (evidence_max_claims s) \<and> in_range 1 6 (evidence_max_queries s)
     \<and> in_range 1 50 (evidence_results_per_query s) \<and> in_range 1 100 (evidence_max_candidates s)
     \<and> in_range 1 10 (evidence_max_passages s) \<and> in_range 0 5 (evidence_max_full_text s)
     \<and> in_range 2 10 (evidence_max_llm_calls s) \<and> positive_to 120 (evidence_provider_timeout s)
     \<and> length (crossref_mailto s) \<le> 200"

definition quota_fields_ok :: "quota_settings \<Rightarrow> bool" where
  "quota_fields_ok s \<longleftrightarrow> in_range 1 1000 (quota_daily_checks s) \<and> in_range 1 100 (quota_active_checks s)
     \<and> 0 < quota_daily_upload_bytes s \<and> in_range 1 100 (quota_claims_per_run s)
     \<and> in_range 1 10 (quota_provider_concurrency s) \<and> in_range 1 1200 (quota_provider_reserve s)
     \<and> 0 < quota_provider_reserve_fraction s \<and> quota_provider_reserve_fraction s < 1
     \<and> in_range 1 100000 (groq_llm_requests_per_minute s) \<and> in_range 1 10000000 (groq_llm_requests_per_day s)
     \<and> in_range 1 100000000 (groq_llm_tokens_per_minute s)
     \<and> in_range 1 1000000000 (groq_llm_tokens_per_day s)"

definition extraction_fields_ok :: "extraction_settings \<Rightarrow> bool" where
  "extraction_fields_ok s \<longleftrightarrow> length (extraction_models s) \<le> 20
     \<and> in_range 1 8192 (extraction_max_tokens s) \<and> in_range 0 10 (extraction_recovery_attempts s)
     \<and> in_range 1 10000 (extraction_budget_requests s) \<and> in_range 1 2147483647 (extraction_budget_tokens s)
     \<and> in_range 1 10000 (extraction_reserved_requests s) \<and> in_range 1 2147483647 (extraction_reserved_tokens s)
     \<and> in_range 1 64 (extraction_batch_observations s) \<and> in_range 1 32 (extraction_overlap_observations s)
     \<and> in_range 1 4096 (extraction_max_observations s)"

definition reconciliation_fields_ok :: "reconciliation_settings \<Rightarrow> bool" where
  "reconciliation_fields_ok s \<longleftrightarrow> length (reconciliation_models s) \<le> 20
     \<and> in_range 1 8192 (reconciliation_max_tokens s)"

record parsed_url =
  url_driver :: string
  url_host :: "string option"
  url_database :: "string option"

definition postgres_url :: "(string \<Rightarrow> parsed_url option) \<Rightarrow> string \<Rightarrow> string option" where
  "postgres_url make_url v = (case make_url v of
       None \<Rightarrow> Some ''A PostgreSQL Psycopg URL is required''
     | Some u \<Rightarrow>
         if url_driver u \<noteq> ''postgresql+psycopg'' \<or> url_host u \<in> {None, Some []} \<or> url_database u \<in> {None, Some []}
         then Some ''A PostgreSQL Psycopg URL with host and database is required'' else None)"

definition fields_ok :: "(string \<Rightarrow> parsed_url option) \<Rightarrow> settings \<Rightarrow> bool" where
  "fields_ok make_url s \<longleftrightarrow> postgres_url make_url (database_url s) = None
     \<and> length (google_client_id s) \<le> 256 \<and> job_fields_ok (job_conf s) \<and> media_fields_ok (media_conf s)
     \<and> speech_fields_ok (speech_conf s) \<and> retention_fields_ok (retention_conf s)
     \<and> evidence_fields_ok (evidence_conf s) \<and> quota_fields_ok (quota_conf s)
     \<and> extraction_fields_ok (extraction_conf s) \<and> reconciliation_fields_ok (reconciliation_conf s)"

section \<open>Configuration predicates\<close>

definition nonblank :: "string \<Rightarrow> bool" where
  "nonblank v \<longleftrightarrow> py_strip v \<noteq> []"

definition asr_configured :: "settings \<Rightarrow> bool" where
  "asr_configured c \<longleftrightarrow> (let s = speech_conf c in
     nonblank (groq_api_key s) \<and> nonblank (groq_model s) \<and> nonblank (groq_fallback_model s)
     \<and> py_strip (groq_fallback_model s) \<noteq> py_strip (groq_model s) \<and> nonblank (groq_account_id s)
     \<and> asr_limits_verified_on s \<noteq> None \<and> asr_requests_per_minute s \<noteq> None
     \<and> asr_requests_per_day s \<noteq> None \<and> asr_audio_seconds_per_hour s \<noteq> None
     \<and> asr_audio_seconds_per_day s \<noteq> None \<and> asr_minimum_billable_seconds s \<noteq> None
     \<and> ''asr_audio_max_bytes'' \<in> set (explicit c))"

definition route_ok :: "string \<Rightarrow> bool" where
  "route_ok v \<longleftrightarrow> nonblank v \<and> length v \<le> 200"

definition extraction_configured :: "settings \<Rightarrow> bool" where
  "extraction_configured c \<longleftrightarrow> (let s = extraction_conf c in
     extraction_enabled s \<and> extraction_free_routes_verified s \<and> extraction_models s \<noteq> []
     \<and> list_all route_ok (extraction_models s)
     \<and> (case scholarxiv_api_key (evidence_conf c) of None \<Rightarrow> False | Some k \<Rightarrow> nonblank k))"

definition reconciliation_configured :: "settings \<Rightarrow> bool" where
  "reconciliation_configured c \<longleftrightarrow> (let s = reconciliation_conf c in
     reconciliation_enabled s \<and> extraction_configured c \<and> reconciliation_free_routes_verified s
     \<and> reconciliation_models s \<noteq> [] \<and> list_all route_ok (reconciliation_models s))"

section \<open>Validators\<close>

text \<open>
  The development stub switches the default-on research stages off. Assigning a field also marks it
  as set; the gate keeps the set of fields it was given.
\<close>

definition stub_stages :: "settings \<Rightarrow> settings" where
  "stub_stages c = c\<lparr>extraction_conf := (extraction_conf c)\<lparr>extraction_enabled := False\<rparr>,
     reconciliation_conf := (reconciliation_conf c)\<lparr>reconciliation_enabled :=
       reconciliation_enabled (reconciliation_conf c) \<and> ''reconciliation_enabled'' \<in> set (explicit c)\<rparr>,
     explicit := ''extraction_enabled'' # ''reconciliation_enabled'' # explicit c\<rparr>"

definition opted_in :: "string list \<Rightarrow> settings \<Rightarrow> string + settings" where
  "opted_in chosen c =
     (if reconciliation_enabled (reconciliation_conf c) \<and> ''reconciliation_enabled'' \<in> set chosen
         \<and> \<not> reconciliation_configured c
        then Inl ''Reconciliation needs its own verified free quality model pool''
      else if groq_extraction_enabled (extraction_conf c)
         \<and> (\<not> extraction_enabled (extraction_conf c) \<or> \<not> groq_free_route_verified (extraction_conf c)
            \<or> \<not> nonblank (groq_api_key (speech_conf c)))
        then Inl ''Groq extraction needs independent route verification and credential''
      else if extraction_enabled (extraction_conf c) \<and> ''extraction_enabled'' \<in> set chosen
         \<and> \<not> extraction_configured c
        then Inl ''Extraction needs a verified free model pool and server credential''
      else Inr c)"

definition extraction_gate :: "settings \<Rightarrow> string + settings" where
  "extraction_gate c =
     (if extraction_reserved_requests (extraction_conf c) \<ge> extraction_budget_requests (extraction_conf c)
         \<or> extraction_reserved_tokens (extraction_conf c) \<ge> extraction_budget_tokens (extraction_conf c)
        then Inl ''Extraction requires capacity outside the reconciliation reserve''
      else if stub_reports c
        then (if extraction_enabled (extraction_conf c) \<and> ''extraction_enabled'' \<in> set (explicit c)
              then Inl ''Real extraction cannot be combined with development stub reports''
              else opted_in (explicit c) (stub_stages c))
      else opted_in (explicit c) c)"

definition backoff_bounds :: "settings \<Rightarrow> string + settings" where
  "backoff_bounds c =
     (if retry_max_backoff (job_conf c) < retry_backoff (job_conf c)
        then Inl ''job_retry_max_backoff_seconds must be at least the base backoff''
      else if \<not> opt_all (\<lambda>m. job_poll_seconds (job_conf c) \<le> m) (job_idle_poll_max (job_conf c))
        then Inl ''job_idle_poll_max_seconds must be at least job_poll_seconds''
      else if quotas_enabled (quota_conf c)
          \<and> quota_provider_reserve (quota_conf c) \<ge> scholarxiv_requests_per_hour (evidence_conf c)
        then Inl ''quota_provider_reserve must be below scholarxiv_requests_per_hour''
      else Inr c)"

definition hosted_speech_configuration :: "settings \<Rightarrow> string + settings" where
  "hosted_speech_configuration c =
     (if asr_enabled (speech_conf c) \<and> ''asr_enabled'' \<in> set (explicit c) \<and> \<not> asr_configured c
      then Inl ''Hosted speech requires explicit verified account/model limits'' else Inr c)"

definition validate :: "(string \<Rightarrow> parsed_url option) \<Rightarrow> settings \<Rightarrow> string + settings" where
  "validate make_url c =
     (if \<not> fields_ok make_url c then Inl ''Invalid field''
      else rbind (extraction_gate c) (\<lambda>c1. rbind (backoff_bounds c1) hosted_speech_configuration))"

text \<open>\<open>load_settings\<close> hides every detail of a refused configuration.\<close>

definition load_settings :: "(string \<Rightarrow> parsed_url option) \<Rightarrow> settings \<Rightarrow> exn + settings" where
  "load_settings make_url c = (case validate make_url c of
       Inl _ \<Rightarrow> Inl (OtherError ''Invalid backend configuration; check the documented OVRLY_ settings'')
     | Inr c1 \<Rightarrow> Inr c1)"

definition policy_of :: "settings \<Rightarrow> retry_policy" where
  "policy_of c = (let s = job_conf c in
     \<lparr>transient_attempts = retry_transient s, rate_limited_attempts = retry_rate_limited s,
      schema_repair_attempts = retry_schema_repair s, unknown_outcome_attempts = retry_unknown_outcome s,
      backoff_seconds = retry_backoff s, max_backoff_seconds = retry_max_backoff s\<rparr>)"

section \<open>Defaults\<close>

definition default_jobs :: job_settings where
  "default_jobs = \<lparr>embed_worker = False, api_port = 8000, database_timeout = 3,
     worker_shutdown_seconds = 5, job_lease_seconds = 30, job_poll_seconds = 1, job_idle_poll_max = None,
     retry_transient = 5, retry_rate_limited = 5, retry_schema_repair = 2, retry_unknown_outcome = 3,
     retry_backoff = 1, retry_max_backoff = 60\<rparr>"

definition DEFAULT_UPLOAD_MAX_BYTES :: int where
  "DEFAULT_UPLOAD_MAX_BYTES = 256 * 1024 * 1024"

definition default_media :: media_settings where
  "default_media = \<lparr>upload_max_bytes = DEFAULT_UPLOAD_MAX_BYTES, upload_target_seconds = 900,
     max_shared_duration_seconds = 600, ffprobe_path = ''ffprobe'', ffmpeg_path = ''ffmpeg'',
     media_probe_timeout = 10, media_extract_timeout = 120, media_cpu_seconds = 60,
     media_output_max_bytes = 65536\<rparr>"

definition default_speech :: speech_settings where
  "default_speech = \<lparr>asr_audio_max_bytes = 25000000, asr_enabled = True, text_grace_seconds = 60,
     groq_api_key = [], groq_model = ''whisper-large-v3-turbo'', groq_fallback_model = ''whisper-large-v3'',
     groq_account_id = [], asr_limits_verified_on = None, asr_requests_per_minute = None,
     asr_requests_per_day = None, asr_audio_seconds_per_hour = None, asr_audio_seconds_per_day = None,
     asr_minimum_billable_seconds = None, asr_response_max_bytes = 1048576, asr_timeout_seconds = 120\<rparr>"

definition default_retention :: retention_settings where
  "default_retention = \<lparr>retention_enabled = False, retention_data_seconds = 86400,
     retention_tombstone_seconds = 604800, retention_poll_seconds = 60, retention_batch_size = 100\<rparr>"

definition default_evidence :: evidence_settings where
  "default_evidence = \<lparr>scholarxiv_api_key = None, scholarxiv_base_url = ''https://www.scholarxiv.com'',
     scholarxiv_requests_per_hour = 1000, scholarxiv_federated = False,
     evidence_query_route = ''auto:cheap'', evidence_relation_route = ''auto:quality'',
     evidence_max_claims = 20, evidence_max_queries = 3, evidence_results_per_query = 10,
     evidence_max_candidates = 20, evidence_max_passages = 4, evidence_max_full_text = 2,
     evidence_max_llm_calls = 4, evidence_provider_timeout = 20, crossref_mailto = []\<rparr>"

definition default_quotas :: quota_settings where
  "default_quotas = \<lparr>quotas_enabled = False, quota_daily_checks = 6, quota_active_checks = 2,
     quota_daily_upload_bytes = DEFAULT_UPLOAD_MAX_BYTES, quota_claims_per_run = 5,
     quota_provider_concurrency = 2, quota_provider_reserve = 50,
     quota_provider_reserve_fraction = 1 / 20, groq_llm_requests_per_minute = 27,
     groq_llm_requests_per_day = 900, groq_llm_tokens_per_minute = 7200, groq_llm_tokens_per_day = 180000\<rparr>"

definition default_extraction :: extraction_settings where
  "default_extraction = \<lparr>extraction_enabled = True, extraction_free_routes_verified = False,
     extraction_models = [], extraction_max_tokens = 2048, extraction_recovery_attempts = 0,
     groq_extraction_enabled = False, groq_free_route_verified = False, extraction_budget_requests = 24,
     extraction_budget_tokens = 196500, extraction_reserved_requests = 3,
     extraction_reserved_tokens = 102500, extraction_batch_observations = 6,
     extraction_overlap_observations = 1, extraction_max_observations = 64\<rparr>"

definition default_reconciliation :: reconciliation_settings where
  "default_reconciliation = \<lparr>reconciliation_enabled = True, reconciliation_free_routes_verified = False,
     reconciliation_models = [], reconciliation_max_tokens = 8192\<rparr>"

definition default_settings :: "string \<Rightarrow> settings" where
  "default_settings url = \<lparr>database_url = url, stub_reports = False, google_client_id = [],
     job_conf = default_jobs, media_conf = default_media, speech_conf = default_speech,
     retention_conf = default_retention, evidence_conf = default_evidence, quota_conf = default_quotas,
     extraction_conf = default_extraction, reconciliation_conf = default_reconciliation, explicit = []\<rparr>"

section \<open>Properties\<close>

lemma default_fields_ok:
  "job_fields_ok default_jobs" "media_fields_ok default_media" "speech_fields_ok default_speech"
  "retention_fields_ok default_retention" "evidence_fields_ok default_evidence"
  "quota_fields_ok default_quotas" "extraction_fields_ok default_extraction"
  "reconciliation_fields_ok default_reconciliation"
  by (simp_all add: job_fields_ok_def default_jobs_def media_fields_ok_def default_media_def
      speech_fields_ok_def default_speech_def retention_fields_ok_def default_retention_def
      evidence_fields_ok_def default_evidence_def quota_fields_ok_def default_quotas_def
      extraction_fields_ok_def default_extraction_def reconciliation_fields_ok_def
      default_reconciliation_def in_range_def positive_to_def opt_all_def DEFAULT_UPLOAD_MAX_BYTES_def)

lemma default_accepted:
  assumes "postgres_url make_url url = None"
  shows "load_settings make_url (default_settings url) = Inr (default_settings url)"
proof -
  have "fields_ok make_url (default_settings url)"
    using assms by (simp add: fields_ok_def default_fields_ok default_settings_def)
  moreover have "extraction_gate (default_settings url) = Inr (default_settings url)"
    by (simp add: extraction_gate_def opted_in_def default_settings_def default_extraction_def)
  moreover have "backoff_bounds (default_settings url) = Inr (default_settings url)"
    by (simp add: backoff_bounds_def default_settings_def default_jobs_def default_quotas_def opt_all_def)
  moreover have "hosted_speech_configuration (default_settings url) = Inr (default_settings url)"
    by (simp add: hosted_speech_configuration_def default_settings_def)
  ultimately show ?thesis by (simp add: load_settings_def validate_def)
qed

lemma opted_in_Inr:
  assumes "opted_in chosen c = Inr s"
  shows "s = c"
    "reconciliation_enabled (reconciliation_conf c) \<Longrightarrow> ''reconciliation_enabled'' \<in> set chosen \<Longrightarrow>
       reconciliation_configured c"
    "groq_extraction_enabled (extraction_conf c) \<Longrightarrow> extraction_enabled (extraction_conf c)
       \<and> groq_free_route_verified (extraction_conf c) \<and> nonblank (groq_api_key (speech_conf c))"
    "extraction_enabled (extraction_conf c) \<Longrightarrow> ''extraction_enabled'' \<in> set chosen \<Longrightarrow> extraction_configured c"
  using assms by (auto simp: opted_in_def split: if_splits)

text \<open>C38: An accepted configuration is one the stages can rely on: the reconciliation reserve leaves
  room in the extraction budget, retries back off between a positive base and its maximum, an
  explicit opt-in to hosted speech, extraction or reconciliation is completely configured, the
  development stub never runs beside real extraction, the second provider is only used for
  extraction with its own verification and credential, and with quotas on the provider reserve is
  below the hourly limit.\<close>

theorem accepted_settings_safe:
  assumes "load_settings make_url c = Inr s"
  shows "extraction_reserved_requests (extraction_conf s) < extraction_budget_requests (extraction_conf s)
    \<and> extraction_reserved_tokens (extraction_conf s) < extraction_budget_tokens (extraction_conf s)
    \<and> 0 < backoff_seconds (policy_of s) \<and> backoff_seconds (policy_of s) \<le> max_backoff_seconds (policy_of s)
    \<and> (stub_reports s \<longrightarrow> \<not> extraction_enabled (extraction_conf s))
    \<and> (asr_enabled (speech_conf s) \<and> ''asr_enabled'' \<in> set (explicit c) \<longrightarrow> asr_configured s)
    \<and> (extraction_enabled (extraction_conf s) \<and> ''extraction_enabled'' \<in> set (explicit c) \<longrightarrow> extraction_configured s)
    \<and> (reconciliation_enabled (reconciliation_conf s) \<and> ''reconciliation_enabled'' \<in> set (explicit c)
         \<longrightarrow> reconciliation_configured s)
    \<and> (groq_extraction_enabled (extraction_conf s) \<longrightarrow> extraction_enabled (extraction_conf s)
         \<and> groq_free_route_verified (extraction_conf s) \<and> nonblank (groq_api_key (speech_conf s)))
    \<and> (quotas_enabled (quota_conf s) \<longrightarrow>
         quota_provider_reserve (quota_conf s) < scholarxiv_requests_per_hour (evidence_conf s))"
proof -
  obtain c1 where v: "fields_ok make_url c" "extraction_gate c = Inr c1" "backoff_bounds c1 = Inr s"
    "hosted_speech_configuration s = Inr s"
    using assms
    by (auto simp: load_settings_def validate_def rbind_Inr_iff backoff_bounds_def
        hosted_speech_configuration_def split: sum.splits if_splits)
  have s: "c1 = s" using v(3) by (simp add: backoff_bounds_def split: if_splits)
  let ?x = "if stub_reports c then stub_stages c else c"
  have g: "opted_in (explicit c) ?x = Inr s"
    "extraction_reserved_requests (extraction_conf c) < extraction_budget_requests (extraction_conf c)"
    "extraction_reserved_tokens (extraction_conf c) < extraction_budget_tokens (extraction_conf c)"
    using v(2) by (simp_all add: extraction_gate_def s split: if_splits)
  note o = opted_in_Inr[OF g(1)]
  have x: "extraction_reserved_requests (extraction_conf ?x) = extraction_reserved_requests (extraction_conf c)"
    "extraction_budget_requests (extraction_conf ?x) = extraction_budget_requests (extraction_conf c)"
    "extraction_reserved_tokens (extraction_conf ?x) = extraction_reserved_tokens (extraction_conf c)"
    "extraction_budget_tokens (extraction_conf ?x) = extraction_budget_tokens (extraction_conf c)"
    "job_conf ?x = job_conf c" "stub_reports ?x = stub_reports c"
    "set (explicit c) \<subseteq> set (explicit ?x)" "stub_reports c \<Longrightarrow> \<not> extraction_enabled (extraction_conf ?x)"
    by (auto simp: stub_stages_def)
  have "0 < retry_backoff (job_conf s)"
    using v(1) x(5) o(1) by (simp add: fields_ok_def job_fields_ok_def positive_to_def)
  moreover have "retry_backoff (job_conf s) \<le> retry_max_backoff (job_conf s)"
    "quotas_enabled (quota_conf s) \<longrightarrow> quota_provider_reserve (quota_conf s) < scholarxiv_requests_per_hour (evidence_conf s)"
    using v(3) by (auto simp: backoff_bounds_def s split: if_splits)
  moreover have "asr_configured s" if "asr_enabled (speech_conf s)" "''asr_enabled'' \<in> set (explicit c)"
    using v(4) that x(7) o(1) by (auto simp: hosted_speech_configuration_def split: if_splits)
  ultimately show ?thesis
    using g(2,3) o(2-4) x unfolding o(1)[symmetric] by (simp add: policy_of_def Let_def)
qed

theorem accepted_settings_safe_witness:
  "extraction_reserved_requests (extraction_conf (default_settings ''u''))
     < extraction_budget_requests (extraction_conf (default_settings ''u''))"
proof -
  let ?mk = "\<lambda>_. Some \<lparr>url_driver = ''postgresql+psycopg'', url_host = Some ''h'', url_database = Some ''d''\<rparr>"
  have "postgres_url ?mk ''u'' = None" by (simp add: postgres_url_def)
  from accepted_settings_safe[OF default_accepted[OF this]] show ?thesis by simp
qed

end
