(* ===== verification/AsrGroq.thy ===== *)
theory AsrGroq
  imports Schema
begin

text \<open>
  The hosted speech adapter, \<open>backend/services/asr/groq.py\<close>: its failures and their public
  reasons, the validation of transcript segments and the classification of one HTTP exchange. The
  HTTP client is a parameter: what the exchange produced (\<open>exchange\<close>). \<open>json.loads\<close>,
  \<open>float\<close> and the HTTP date parser are parameters too; a number that is not finite is no value here.
\<close>

section \<open>Failures\<close>

datatype asr_error =
    ASRUnavailable | ASRInvalidResponse | ASRUnknownOutcome | ASRQuotaExhausted | ASROffline
  | ASRMissingAudio | ASRChunkTooLarge | ASRModelUnavailable

text \<open>What one attempt may raise: a speech failure or a retryable provider error.\<close>

datatype asr_failure = Speech_Failure asr_error | Provider_Error retryable_error

fun asr_error_name :: "asr_error \<Rightarrow> string" where
  "asr_error_name ASRUnavailable = ''ASRUnavailable''"
| "asr_error_name ASRInvalidResponse = ''ASRInvalidResponse''"
| "asr_error_name ASRUnknownOutcome = ''ASRUnknownOutcome''"
| "asr_error_name ASRQuotaExhausted = ''ASRQuotaExhausted''"
| "asr_error_name ASROffline = ''ASROffline''"
| "asr_error_name ASRMissingAudio = ''ASRMissingAudio''"
| "asr_error_name ASRChunkTooLarge = ''ASRChunkTooLarge''"
| "asr_error_name ASRModelUnavailable = ''ASRModelUnavailable''"

fun asr_failure_name :: "asr_failure \<Rightarrow> string" where
  "asr_failure_name (Speech_Failure e) = asr_error_name e"
| "asr_failure_name (Provider_Error e) = error_name e"

definition REASON_BY_FAILURE :: "(string \<times> string) list" where
  "REASON_BY_FAILURE =
     [(''ASRQuotaExhausted'', ''quota_exhausted''), (''RateLimited'', ''quota_exhausted''),
      (''ASRUnknownOutcome'', ''unknown_outcome''), (''uncertain'', ''unknown_outcome''),
      (''ASROffline'', ''offline''), (''ASRInvalidResponse'', ''invalid_response''),
      (''ASRMissingAudio'', ''missing_audio''), (''ASRChunkTooLarge'', ''chunk_exceeds_file_cap''),
      (''ASRModelUnavailable'', ''model_unavailable''), (''Transient'', ''provider_unavailable''),
      (''ASRUnavailable'', ''provider_unavailable'')]"

definition FAILURE_BY_REASON :: "(string \<times> asr_error) list" where
  "FAILURE_BY_REASON =
     [(''quota_exhausted'', ASRQuotaExhausted), (''unknown_outcome'', ASRUnknownOutcome),
      (''offline'', ASROffline), (''invalid_response'', ASRInvalidResponse),
      (''missing_audio'', ASRMissingAudio), (''chunk_exceeds_file_cap'', ASRChunkTooLarge),
      (''model_unavailable'', ASRModelUnavailable), (''provider_unavailable'', ASRUnavailable)]"

definition failure_reason :: "string option \<Rightarrow> string" where
  "failure_reason failure =
     (case map_of REASON_BY_FAILURE (case failure of None \<Rightarrow> [] | Some f \<Rightarrow> f) of
        Some r \<Rightarrow> r | None \<Rightarrow> ''provider_unavailable'')"

section \<open>Segments\<close>

definition OVERRUN_TOLERANCE_MS :: int where
  "OVERRUN_TOLERANCE_MS = 1000"

text \<open>Python's \<open>round\<close>: to the nearest integer, a half to the even one.\<close>

definition py_round :: "rat \<Rightarrow> int" where
  "py_round x = (let f = \<lfloor>x\<rfloor>; r = x - of_int f
     in if r < 1 / 2 then f else if r > 1 / 2 then f + 1 else if even f then f else f + 1)"

record segment =
  sgm_start :: int
  sgm_end :: int
  sgm_text :: string

fun json_number :: "json option \<Rightarrow> rat option" where
  "json_number (Some (JInt n)) = Some (of_int n)"
| "json_number (Some (JFloat q)) = Some q"
| "json_number _ = None"

definition read_segment :: "int \<Rightarrow> int \<Rightarrow> json \<Rightarrow> asr_error + segment" where
  "read_segment duration_ms offset_ms j = (case j of
       JObj _ \<Rightarrow>
         (case (json_number (jget j ''start''), json_number (jget j ''end''), jget j ''text'') of
            (Some s, Some e, Some (JStr t)) \<Rightarrow>
              if \<not> (0 \<le> s \<and> s < e \<and> e \<le> of_int (duration_ms + OVERRUN_TOLERANCE_MS) / 1000)
                 \<or> py_strip t = []
              then Inl ASRInvalidResponse
              else let start_ms = py_round (s * 1000); end_ms = py_round (e * 1000)
                   in if start_ms \<ge> end_ms then Inl ASRInvalidResponse
                      else let end_ms = min end_ms duration_ms; start_ms = min start_ms (end_ms - 1)
                           in Inr \<lparr>sgm_start = offset_ms + start_ms, sgm_end = offset_ms + end_ms, sgm_text = t\<rparr>
          | _ \<Rightarrow> Inl ASRInvalidResponse)
     | _ \<Rightarrow> Inl ASRInvalidResponse)"

fun read_segments :: "int \<Rightarrow> int \<Rightarrow> json list \<Rightarrow> asr_error + segment list" where
  "read_segments duration offset [] = Inr []"
| "read_segments duration offset (j # js) =
     rbind (read_segment duration offset j) (\<lambda>s. rbind (read_segments duration offset js) (\<lambda>ss. Inr (s # ss)))"

definition segments_of :: "json option \<Rightarrow> int \<Rightarrow> int \<Rightarrow> asr_error + segment list" where
  "segments_of data duration_ms offset_ms = (case data of
       Some (JObj kvs) \<Rightarrow>
         (case (jget (JObj kvs) ''text'', jget (JObj kvs) ''segments'') of
            (Some (JStr t), Some (JArr js)) \<Rightarrow>
              if js = [] \<and> py_strip t \<noteq> [] then Inl ASRInvalidResponse
              else read_segments duration_ms offset_ms js
          | _ \<Rightarrow> Inl ASRInvalidResponse)
     | _ \<Rightarrow> Inl ASRInvalidResponse)"

section \<open>One exchange\<close>

record http_response =
  rsp_status :: int
  rsp_encoding :: "string option"
  rsp_retry_after :: "string option"
  rsp_blocks :: "string list"

datatype exchange =
    Refused string
  | Not_Connected
  | Transport_Failed
  | Responded http_response

definition retry_after ::
    "(string \<Rightarrow> rat option) \<Rightarrow> (string \<Rightarrow> time option) \<Rightarrow> time \<Rightarrow> string option \<Rightarrow> rat option"
where
  "retry_after parse_float parse_date now v = (case v of
       None \<Rightarrow> None
     | Some t \<Rightarrow>
         (case (case parse_float t of Some s \<Rightarrow> Some s | None \<Rightarrow> map_option (\<lambda>x. x - now) (parse_date t)) of
            None \<Rightarrow> None
          | Some s \<Rightarrow> if s \<ge> 0 then Some s else None))"

text \<open>The body is read block by block up to the bound; \<open>None\<close> is an oversized body.\<close>

fun bounded_body :: "nat \<Rightarrow> string \<Rightarrow> string list \<Rightarrow> string option" where
  "bounded_body limit raw [] = Some raw"
| "bounded_body limit raw (b # bs) =
     (if length raw + length b > limit then None else bounded_body limit (raw @ b) bs)"

definition error_code :: "json option \<Rightarrow> json option" where
  "error_code data = (case data of
       Some (JObj kvs) \<Rightarrow> (case jget (JObj kvs) ''error'' of
           Some (JObj es) \<Rightarrow> jget (JObj es) ''code'' | _ \<Rightarrow> None)
     | _ \<Rightarrow> None)"

definition quota_codes :: "json list" where
  "quota_codes = [JStr ''insufficient_quota'', JStr ''quota_exceeded'', JStr ''quota_exhausted'']"

record groq_adapter =
  ga_model :: string
  ga_max_audio_bytes :: int
  ga_max_response_bytes :: nat
  ga_max_retry_after :: rat

definition classify ::
    "groq_adapter \<Rightarrow> (string \<Rightarrow> json option) \<Rightarrow> (string option \<Rightarrow> rat option) \<Rightarrow> int \<Rightarrow> int
       \<Rightarrow> http_response \<Rightarrow> asr_failure + segment list"
where
  "classify a loads delay_of duration_ms offset_ms r =
     (if (case rsp_encoding r of None \<Rightarrow> ''identity'' | Some e \<Rightarrow> e) \<noteq> ''identity''
      then Inl (Speech_Failure ASRInvalidResponse)
      else case bounded_body (ga_max_response_bytes a) [] (rsp_blocks r) of
        None \<Rightarrow> Inl (Speech_Failure ASRInvalidResponse)
      | Some raw \<Rightarrow>
          let data = loads raw; status = rsp_status r in
          if status = 429 then
            (case delay_of (rsp_retry_after r) of
               None \<Rightarrow> Inl (Speech_Failure ASRQuotaExhausted)
             | Some delay \<Rightarrow>
                 if (case error_code data of None \<Rightarrow> False | Some c \<Rightarrow> c \<in> set quota_codes)
                    \<or> delay > ga_max_retry_after a
                 then Inl (Speech_Failure ASRQuotaExhausted)
                 else Inl (Provider_Error (RateLimited (Some delay))))
          else if status = 503 then Inl (Provider_Error Transient)
          else if status = 404 then Inl (Speech_Failure ASRModelUnavailable)
          else if status = 413 then Inl (Speech_Failure ASRChunkTooLarge)
          else if status = 408 \<or> (500 \<le> status \<and> status \<le> 599) then Inl (Speech_Failure ASRUnknownOutcome)
          else if status \<noteq> 200 then Inl (Speech_Failure ASRUnavailable)
          else (case segments_of data duration_ms offset_ms of
                  Inl e \<Rightarrow> Inl (Speech_Failure e) | Inr ss \<Rightarrow> Inr ss))"

definition groq_transcribe ::
    "groq_adapter \<Rightarrow> (string \<Rightarrow> json option) \<Rightarrow> (string option \<Rightarrow> rat option) \<Rightarrow> (string \<Rightarrow> exchange)
       \<Rightarrow> string \<Rightarrow> int \<Rightarrow> int \<Rightarrow> string option \<Rightarrow> asr_failure + segment list"
where
  "groq_transcribe a loads delay_of post audio duration_ms offset_ms model =
     (if audio = [] \<or> duration_ms \<le> 0 \<or> offset_ms < 0 then Inl (Speech_Failure ASRMissingAudio)
      else if int (length audio) > ga_max_audio_bytes a then Inl (Speech_Failure ASRChunkTooLarge)
      else case post (case model of None \<Rightarrow> ga_model a | Some m \<Rightarrow> if m = [] then ga_model a else m) of
        Refused reason \<Rightarrow> Inl (Speech_Failure (if reason = ''unresolvable'' then ASROffline else ASRUnavailable))
      | Not_Connected \<Rightarrow> Inl (Speech_Failure ASROffline)
      | Transport_Failed \<Rightarrow> Inl (Speech_Failure ASRUnknownOutcome)
      | Responded r \<Rightarrow> classify a loads delay_of duration_ms offset_ms r)"

section \<open>Properties\<close>

lemma py_round_nonneg: "0 \<le> x \<Longrightarrow> 0 \<le> py_round x"
  by (auto simp: py_round_def Let_def)

lemma read_segment_bounds:
  assumes "read_segment d off j = Inr s" "0 < d"
  shows "off \<le> sgm_start s \<and> sgm_start s < sgm_end s \<and> sgm_end s \<le> off + d \<and> py_strip (sgm_text s) \<noteq> []"
proof -
  obtain x e t where f: "0 \<le> x" "\<not> py_round (e * 1000) \<le> py_round (x * 1000)" "py_strip t \<noteq> []"
    "s = \<lparr>sgm_start = off + min (py_round (x * 1000)) (min (py_round (e * 1000)) d - 1),
          sgm_end = off + min (py_round (e * 1000)) d, sgm_text = t\<rparr>"
    using assms(1) unfolding read_segment_def
    by (auto simp: Let_def not_less split: json.splits option.splits if_splits)
  have "0 \<le> py_round (x * 1000)" using f(1) by (simp add: py_round_nonneg)
  with f assms(2) show ?thesis by auto
qed

lemma read_segments_all: "read_segments d off js = Inr ss \<Longrightarrow> x \<in> set ss \<Longrightarrow> \<exists>j. read_segment d off j = Inr x"
  by (induction js arbitrary: ss) (auto simp: rbind_Inr_iff)

lemma classify_Inr:
  assumes "classify a loads delay_of d off r = Inr ss"
  obtains raw where "bounded_body (ga_max_response_bytes a) [] (rsp_blocks r) = Some raw"
    "rsp_status r = 200" "segments_of (loads raw) d off = Inr ss"
  using assms unfolding classify_def Let_def
  by (auto split: option.splits if_splits sum.splits)

lemma segments_of_Inr: "segments_of data d off = Inr ss \<Longrightarrow> \<exists>js. read_segments d off js = Inr ss"
  by (auto simp: segments_of_def split: option.splits json.splits if_splits)

text \<open>An accepted transcript stays inside its audio. Whatever the provider answers, every segment
  the adapter returns lies within the chunk (between the offset and the offset plus the duration),
  has a positive length and nonblank text, and a transcript is only ever returned for a response with
  status 200 to nonempty audio of positive duration within the byte limit.\<close>

theorem transcript_within_audio:
  assumes "groq_transcribe a loads delay_of post audio d off model = Inr ss"
  shows "audio \<noteq> [] \<and> int (length audio) \<le> ga_max_audio_bytes a
    \<and> (\<exists>m r. post m = Responded r \<and> rsp_status r = 200)
    \<and> (\<forall>s \<in> set ss. off \<le> sgm_start s \<and> sgm_start s < sgm_end s \<and> sgm_end s \<le> off + d
          \<and> 0 \<le> sgm_start s \<and> py_strip (sgm_text s) \<noteq> [])"
proof -
  obtain m r where g: "audio \<noteq> []" "0 < d" "0 \<le> off" "int (length audio) \<le> ga_max_audio_bytes a"
    "post m = Responded r" "classify a loads delay_of d off r = Inr ss"
    using assms by (auto simp: groq_transcribe_def not_le not_less split: if_splits exchange.splits)
  obtain raw where raw: "rsp_status r = 200" "segments_of (loads raw) d off = Inr ss"
    using classify_Inr[OF g(6)] by metis
  obtain js where js: "read_segments d off js = Inr ss" using segments_of_Inr[OF raw(2)] by blast
  have "off \<le> sgm_start s \<and> sgm_start s < sgm_end s \<and> sgm_end s \<le> off + d \<and> py_strip (sgm_text s) \<noteq> []"
    if "s \<in> set ss" for s
    using read_segments_all[OF js that] read_segment_bounds[OF _ g(2)] by blast
  with g(1,3,4,5) raw(1) show ?thesis by fastforce
qed

definition ex_reply :: json where
  "ex_reply = JObj [(''text'', JStr ''hi''), (''segments'', JArr
     [JObj [(''start'', JFloat (1/2)), (''end'', JFloat (21/20)), (''text'', JStr ''hi'')]])]"

theorem transcript_within_audio_witness:
  "\<exists>s. groq_transcribe \<lparr>ga_model = ''m'', ga_max_audio_bytes = 10, ga_max_response_bytes = 10, ga_max_retry_after = 60\<rparr>
       (\<lambda>_. Some ex_reply) (\<lambda>_. None)
       (\<lambda>_. Responded \<lparr>rsp_status = 200, rsp_encoding = None, rsp_retry_after = None, rsp_blocks = [''x'']\<rparr>)
       ''a'' 1000 2000 None = Inr [s] \<and> 2000 \<le> sgm_start s \<and> sgm_end s \<le> 2000 + 1000"
proof -
  let ?a = "\<lparr>ga_model = ''m'', ga_max_audio_bytes = 10, ga_max_response_bytes = 10, ga_max_retry_after = 60\<rparr>"
  let ?r = "\<lparr>rsp_status = 200, rsp_encoding = None, rsp_retry_after = None, rsp_blocks = [''x'']\<rparr>"
  have "groq_transcribe ?a (\<lambda>_. Some ex_reply) (\<lambda>_. None) (\<lambda>_. Responded ?r) ''a'' 1000 2000 None
      = Inr [\<lparr>sgm_start = 2500, sgm_end = 3000, sgm_text = ''hi''\<rparr>]"
    by (simp add: groq_transcribe_def classify_def ex_reply_def segments_of_def read_segment_def
        OVERRUN_TOLERANCE_MS_def py_round_def py_strip_def strip_by_def is_space_def cval_def)
  with transcript_within_audio[OF this] show ?thesis by auto
qed

text \<open>Every reason has its failure class, so the policy never looks up an unknown reason.\<close>

lemma failure_reason_known: "map_of FAILURE_BY_REASON (failure_reason f) \<noteq> None"
proof -
  have v: "\<forall>(k, r) \<in> set REASON_BY_FAILURE. map_of FAILURE_BY_REASON r \<noteq> None"
    by (simp add: REASON_BY_FAILURE_def FAILURE_BY_REASON_def)
  show ?thesis
  proof (cases "map_of REASON_BY_FAILURE (case f of None \<Rightarrow> [] | Some f \<Rightarrow> f)")
    case None
    then show ?thesis by (simp add: failure_reason_def FAILURE_BY_REASON_def)
  next
    case (Some r)
    then show ?thesis using v map_of_SomeD by (fastforce simp: failure_reason_def)
  qed
qed

end
