(* ===== verification/AsrLedger.thy ===== *)
theory AsrLedger
  imports AsrGroq JobQueue Settings "HOL-Library.AList"
begin

text \<open>
  The rolling-window reservation ledger of hosted speech, \<open>backend/services/asr/reservations.py\<close>.
  A row is written before the call and no outcome refunds it. A failure is an exception of the job
  (\<open>Inl\<close>) or a speech failure (\<open>Inr\<close>) on the left of the sum. The advisory lock serialises the
  reservations of a model and changes no table.
\<close>

type_synonym ledger_error = "exn + asr_error"

text \<open>Python's \<open>int\<close> of a JSON value.\<close>

definition json_int :: "json \<Rightarrow> exn + int" where
  "json_int j = (case j of
       JInt n \<Rightarrow> Inr n
     | JBool b \<Rightarrow> Inr (if b then 1 else 0)
     | JFloat q \<Rightarrow> Inr (if 0 \<le> q then \<lfloor>q\<rfloor> else - \<lfloor>- q\<rfloor>)
     | JStr s \<Rightarrow> of_option ValueError (py_int 10 s)
     | _ \<Rightarrow> Inl TypeError)"

definition payload_index :: "json \<Rightarrow> retry_counts \<Rightarrow> exn + int" where
  "payload_index payload counts =
     rbind (json_int (case jget payload ''speech_retry'' of None \<Rightarrow> JInt 0 | Some v \<Rightarrow> v))
       (\<lambda>n. Inr (n * 100 + sum_list (map snd counts)))"

definition retry_index :: "claimed_job \<Rightarrow> exn + int" where
  "retry_index job = payload_index (cj_payload job) (cj_retry_counts job)"

definition UNSAFE_TO_RESEND :: "string list" where
  "UNSAFE_TO_RESEND = [''reserved'', ''uncertain'', ''ASRUnknownOutcome'', ''completed'']"

section \<open>The ledger of one job\<close>

definition row_key :: "asr_row \<Rightarrow> rat \<times> int" where
  "row_key a = (asr_created a, uint (asr_id a))"

definition ledger_before :: "asr_row \<Rightarrow> asr_row \<Rightarrow> bool" where
  "ledger_before a b \<longleftrightarrow> fst (row_key a) < fst (row_key b) \<or>
     (fst (row_key a) = fst (row_key b) \<and> snd (row_key a) \<le> snd (row_key b))"

fun insert_ordered :: "asr_row \<Rightarrow> asr_row list \<Rightarrow> asr_row list" where
  "insert_ordered a [] = [a]"
| "insert_ordered a (b # bs) = (if ledger_before b a then b # insert_ordered a bs else a # b # bs)"

definition ordered_rows :: "asr_row list \<Rightarrow> asr_row list" where
  "ordered_rows rows = fold insert_ordered rows []"

text \<open>The dictionary of the latest row per model, in first-insertion order.\<close>

definition by_model :: "asr_row list \<Rightarrow> (string \<times> asr_row) list" where
  "by_model rows = fold (\<lambda>a m. AList.update (asr_model a) a m) rows []"

definition attempts :: "clk \<Rightarrow> claimed_job \<Rightarrow> db \<Rightarrow> ledger_error + (string \<times> asr_row) list" where
  "attempts c job d =
     (case lock_active c (cj_lease job) d of
        Inl e \<Rightarrow> Inl (Inl e)
      | Inr _ \<Rightarrow>
          let rows = ordered_rows (filter (\<lambda>a. asr_job a = Some (lease_job (cj_lease job))) (asr_requests d))
          in if rows = [] \<and> cj_request_id job \<noteq> None then Inl (Inr ASRUnknownOutcome)
             else case retry_index job of
                 Inl e \<Rightarrow> Inl (Inl e)
               | Inr index \<Rightarrow> Inr (by_model (filter (\<lambda>a. asr_retry_index a = index) rows)))"

section \<open>Windows\<close>

definition windows :: "speech_settings \<Rightarrow> (int \<times> int option \<times> bool) list" where
  "windows s =
     [(60, asr_requests_per_minute s, False), (86400, asr_requests_per_day s, False),
      (3600, asr_audio_seconds_per_hour s, True), (86400, asr_audio_seconds_per_day s, True)]"

definition chosen_model :: "speech_settings \<Rightarrow> string option \<Rightarrow> string" where
  "chosen_model s model = (case model of None \<Rightarrow> groq_model s | Some m \<Rightarrow> if m = [] then groq_model s else m)"

definition window_filter :: "speech_settings \<Rightarrow> int \<Rightarrow> time \<Rightarrow> string option \<Rightarrow> asr_row \<Rightarrow> bool" where
  "window_filter s seconds now model a \<longleftrightarrow> asr_account a = groq_account_id s
     \<and> asr_model a = chosen_model s model \<and> asr_created a > now - of_int seconds"

definition units :: "bool \<Rightarrow> asr_row \<Rightarrow> int" where
  "units audio a = (if audio then asr_audio_seconds a else 1)"

definition window_usage :: "speech_settings \<Rightarrow> int \<Rightarrow> bool \<Rightarrow> time \<Rightarrow> string option \<Rightarrow> asr_row list \<Rightarrow> int" where
  "window_usage s seconds audio now model rows =
     sum_list (map (units audio) (filter (window_filter s seconds now model) rows))"

text \<open>What one reservation counts: the started seconds, at least the billable minimum.\<close>

definition billed_seconds :: "speech_settings \<Rightarrow> rat \<Rightarrow> int" where
  "billed_seconds s duration = max \<lceil>duration\<rceil>
     (case asr_minimum_billable_seconds s of None \<Rightarrow> 1 | Some m \<Rightarrow> if m = 0 then 1 else m)"

definition window_full :: "speech_settings \<Rightarrow> int \<Rightarrow> time \<Rightarrow> string option \<Rightarrow> asr_row list \<Rightarrow> int \<times> int option \<times> bool \<Rightarrow> bool" where
  "window_full s seconds now model rows w = (case w of (window, limit, audio) \<Rightarrow>
     (case limit of None \<Rightarrow> True
      | Some n \<Rightarrow> window_usage s window audio now model rows + (if audio then seconds else 1) > n))"

definition reserve_in ::
    "uuid \<Rightarrow> uuid \<Rightarrow> speech_settings \<Rightarrow> rat \<Rightarrow> int \<Rightarrow> string option \<Rightarrow> time \<Rightarrow> string \<Rightarrow> db \<Rightarrow> ledger_error + uuid \<times> db"
where
  "reserve_in new_id job s duration index model now outcome d =
     (let seconds = billed_seconds s duration
      in if list_ex (window_full s seconds now model (asr_requests d)) (windows s)
         then Inl (Inr ASRQuotaExhausted)
         else Inr (new_id,
           update_jobs (\<lambda>r. job_id r = job) (\<lambda>r. r\<lparr>job_request_id := Some (str_uuid new_id)\<rparr>)
             (d\<lparr>asr_requests := asr_requests d @
                [\<lparr>asr_id = new_id, asr_job = Some job, asr_account = groq_account_id s,
                  asr_model = chosen_model s model, asr_audio_seconds = seconds, asr_created = now,
                  asr_outcome = outcome, asr_result = None, asr_retry_index = index,
                  asr_retry_after = None\<rparr>]\<rparr>)))"

section \<open>Beginning and completing an attempt\<close>

definition begin_attempt ::
    "clk \<Rightarrow> uuid \<Rightarrow> time \<Rightarrow> claimed_job \<Rightarrow> speech_settings \<Rightarrow> string \<Rightarrow> rat \<Rightarrow> db \<Rightarrow> ledger_error + uuid \<times> db"
where
  "begin_attempt c new_id now job s model duration d =
     (case lock_active c (cj_lease job) d of
        Inl e \<Rightarrow> Inl (Inl e)
      | Inr _ \<Rightarrow> (case retry_index job of
          Inl e \<Rightarrow> Inl (Inl e)
        | Inr index \<Rightarrow>
            let jid = lease_job (cj_lease job)
            in case fetch (\<lambda>a. asr_job a = Some jid \<and> asr_model a = model
                          \<and> asr_retry_index a = index \<and> asr_outcome a = ''reserved'') (asr_requests d) of
                 Some r \<Rightarrow>
                   if asr_account r \<noteq> groq_account_id s then Inl (Inr ASRUnavailable)
                   else Inr (asr_id r, d\<lparr>asr_requests :=
                          update_where (\<lambda>a. asr_id a = asr_id r) (\<lambda>a. a\<lparr>asr_outcome := ''uncertain''\<rparr>) (asr_requests d)\<rparr>)
               | None \<Rightarrow> reserve_in new_id jid s duration index (Some model) now ''uncertain'' d))"

definition replay_safe :: "uuid \<Rightarrow> json \<Rightarrow> retry_counts \<Rightarrow> db \<Rightarrow> exn + bool" where
  "replay_safe job payload counts d = rbind (payload_index payload counts) (\<lambda>index.
     Inr (\<not> list_ex (\<lambda>a. asr_outcome a \<in> set UNSAFE_TO_RESEND)
            (filter (\<lambda>a. asr_job a = Some job \<and> asr_retry_index a = index) (asr_requests d))))"

definition recorded_delay :: "asr_failure option \<Rightarrow> int option" where
  "recorded_delay e = (case e of
       Some (Provider_Error p) \<Rightarrow> (if error_class p = RATE_LIMITED then map_option ceiling (hint_of p) else None)
     | _ \<Rightarrow> None)"

definition complete_attempt ::
    "clk \<Rightarrow> claimed_job \<Rightarrow> uuid \<Rightarrow> json option \<Rightarrow> asr_failure option \<Rightarrow> db \<Rightarrow> ledger_error + db"
where
  "complete_attempt c job request result e d =
     (case lock_active c (cj_lease job) d of
        Inl x \<Rightarrow> Inl (Inl x)
      | Inr _ \<Rightarrow> Inr (d\<lparr>asr_requests := update_where
          (\<lambda>a. asr_id a = request \<and> asr_job a = Some (lease_job (cj_lease job)))
          (\<lambda>a. a\<lparr>asr_outcome := (case e of None \<Rightarrow> ''completed'' | Some f \<Rightarrow> asr_failure_name f),
                 asr_result := result, asr_retry_after := recorded_delay e\<rparr>) (asr_requests d)\<rparr>))"

section \<open>The windows hold at every instant\<close>

text \<open>Units reserved in the half-open window that ends at an instant.\<close>

definition used_between :: "speech_settings \<Rightarrow> int \<Rightarrow> bool \<Rightarrow> time \<Rightarrow> string option \<Rightarrow> asr_row list \<Rightarrow> int" where
  "used_between s seconds audio instant model rows =
     sum_list (map (units audio) (filter (\<lambda>a. window_filter s seconds instant model a \<and> asr_created a \<le> instant) rows))"

text \<open>
  One committed change of the ledger: a reservation for any job and model, not before the rows it
  finds, or any update that leaves account, model, seconds and time of every row alone.
\<close>

definition ledger_columns :: "asr_row \<Rightarrow> string \<times> string \<times> int \<times> rat" where
  "ledger_columns a = (asr_account a, asr_model a, asr_audio_seconds a, asr_created a)"

inductive ledger_step :: "speech_settings \<Rightarrow> db \<Rightarrow> db \<Rightarrow> bool" for s where
  ls_reserve: "reserve_in i j s dur index model now outcome d = Inr (i, e) \<Longrightarrow>
     (\<And>a. a \<in> set (asr_requests d) \<Longrightarrow> asr_created a \<le> now) \<Longrightarrow> ledger_step s d e"
| ls_other: "map ledger_columns (asr_requests e) = map ledger_columns (asr_requests d) \<Longrightarrow> ledger_step s d e"

text \<open>Every reservation, when it was added, fitted the windows of its model.\<close>

inductive fitted :: "speech_settings \<Rightarrow> asr_row list \<Rightarrow> bool" for s where
  fit_Nil: "fitted s []"
| fit_snoc: "fitted s rows \<Longrightarrow> (\<And>x. x \<in> set rows \<Longrightarrow> asr_created x \<le> asr_created a) \<Longrightarrow> 0 \<le> asr_audio_seconds a \<Longrightarrow>
    (asr_account a = groq_account_id s \<Longrightarrow>
       (\<forall>(w, limit, audio) \<in> set (windows s). \<exists>n. limit = Some n \<and>
          window_usage s w audio (asr_created a) (Some (asr_model a)) (rows @ [a]) \<le> n)) \<Longrightarrow>
    fitted s (rows @ [a])"

definition same_ledger :: "asr_row list \<Rightarrow> asr_row list \<Rightarrow> bool" where
  "same_ledger rows rows' \<longleftrightarrow> map ledger_columns rows' = map ledger_columns rows"

lemma ledger_columns_eq:
  "ledger_columns a = ledger_columns b \<Longrightarrow> window_filter s w now m a = window_filter s w now m b
     \<and> units audio a = units audio b \<and> asr_created a = asr_created b
     \<and> asr_model a = asr_model b \<and> asr_account a = asr_account b \<and> asr_audio_seconds a = asr_audio_seconds b"
  by (simp add: ledger_columns_def window_filter_def units_def)

lemma window_usage_cong:
  "same_ledger rows rows' \<Longrightarrow> window_usage s w audio now m rows' = window_usage s w audio now m rows"
  unfolding same_ledger_def window_usage_def
proof (induction rows arbitrary: rows')
  case (Cons a rows)
  then obtain b bs where "rows' = b # bs" "ledger_columns b = ledger_columns a"
    "map ledger_columns bs = map ledger_columns rows" by (cases rows') auto
  with Cons.IH[of bs] ledger_columns_eq[of b a] show ?case by simp
qed simp

lemma fitted_cong: "fitted s rows \<Longrightarrow> same_ledger rows rows' \<Longrightarrow> fitted s rows'"
proof (induction arbitrary: rows' rule: fitted.induct)
  case fit_Nil
  then show ?case by (simp add: same_ledger_def fitted.fit_Nil)
next
  case (fit_snoc rows a)
  obtain bs b where b: "rows' = bs @ [b]" "same_ledger rows bs" "ledger_columns b = ledger_columns a"
    using fit_snoc.prems unfolding same_ledger_def
    by (cases rows' rule: rev_cases) auto
  note eq = ledger_columns_eq[OF b(3)]
  have "same_ledger (rows @ [a]) (bs @ [b])" using b(2,3) by (simp add: same_ledger_def)
  note usage = window_usage_cong[OF this]
  have le: "asr_created x \<le> asr_created b" if "x \<in> set bs" for x
  proof -
    have "ledger_columns x \<in> set (map ledger_columns rows)"
      using that b(2) unfolding same_ledger_def by (metis image_eqI list.set_map)
    then obtain y where "y \<in> set rows" "ledger_columns x = ledger_columns y" by auto
    with fit_snoc.hyps(2) eq ledger_columns_eq[of x y] show ?thesis by simp
  qed
  show ?case
    unfolding b(1)
  proof (rule fitted.fit_snoc[OF fit_snoc.IH[OF b(2)] le])
    show "0 \<le> asr_audio_seconds b" using fit_snoc.hyps(3) eq by simp
    show "\<forall>(w, limit, audio) \<in> set (windows s). \<exists>n. limit = Some n \<and>
        window_usage s w audio (asr_created b) (Some (asr_model b)) (bs @ [b]) \<le> n"
      if "asr_account b = groq_account_id s"
      using fit_snoc.hyps(4) that eq usage by simp
  qed
qed

lemma used_between_snoc:
  "used_between s w audio x m (rows @ [a]) = used_between s w audio x m rows
     + (if window_filter s w x m a \<and> asr_created a \<le> x then units audio a else 0)"
  by (simp add: used_between_def)

lemma fitted_seconds_nonneg: "fitted s rows \<Longrightarrow> a \<in> set rows \<Longrightarrow> 0 \<le> asr_audio_seconds a"
  by (induction rule: fitted.induct) auto

lemma used_between_le_usage:
  assumes "\<And>a. a \<in> set rows \<Longrightarrow> 0 \<le> units audio a" "y \<le> x"
  shows "used_between s w audio x m rows \<le> window_usage s w audio y m rows"
  using assms
proof (induction rows)
  case (Cons a rows)
  then have ih: "used_between s w audio x m rows \<le> window_usage s w audio y m rows" by simp
  have "0 \<le> units audio a" using Cons.prems(1) by simp
  moreover have "window_filter s w y m a" if "window_filter s w x m a"
    using that Cons.prems(2) by (simp add: window_filter_def)
  ultimately show ?case using ih by (auto simp: used_between_def window_usage_def)
qed (simp add: used_between_def window_usage_def)

lemma fitted_bound:
  assumes "fitted s rows" "(w, Some n, audio) \<in> set (windows s)" "0 \<le> n" "m \<noteq> []"
  shows "used_between s w audio x (Some m) rows \<le> n"
  using assms(1)
proof (induction rule: fitted.induct)
  case fit_Nil
  then show ?case using assms(3) by (simp add: used_between_def)
next
  case (fit_snoc rows a)
  show ?case
  proof (cases "window_filter s w x (Some m) a \<and> asr_created a \<le> x")
    case False
    with fit_snoc.IH show ?thesis by (simp only: used_between_snoc if_False add_0_right)
  next
    case True
    then have a: "asr_account a = groq_account_id s" "asr_model a = m"
      using assms(4) by (simp_all add: window_filter_def chosen_model_def)
    have nn: "0 \<le> units audio b" if "b \<in> set (rows @ [a])" for b
      using that fit_snoc.hyps(3) fitted_seconds_nonneg[OF fit_snoc.hyps(1)] by (auto simp: units_def)
    have "used_between s w audio x (Some m) (rows @ [a])
        \<le> window_usage s w audio (asr_created a) (Some m) (rows @ [a])"
      by (rule used_between_le_usage[OF nn]) (use True in simp_all)
    also have "\<dots> \<le> n" using fit_snoc.hyps(4)[OF a(1)] assms(2) a(2) by auto
    finally show ?thesis .
  qed
qed

lemma billed_seconds_pos: "speech_fields_ok s \<Longrightarrow> 0 \<le> billed_seconds s dur"
  by (auto simp: billed_seconds_def speech_fields_ok_def opt_all_def split: option.splits)

lemma chosen_model_id: "chosen_model s (Some m) = m" if "m \<noteq> []"
  using that by (simp add: chosen_model_def)

lemma reserve_in_Inr:
  assumes "reserve_in i j s dur index model now outcome d = Inr (i', e)"
  obtains a where "i' = i" "asr_requests e = asr_requests d @ [a]" "asr_account a = groq_account_id s"
    "asr_model a = chosen_model s model" "asr_created a = now" "asr_audio_seconds a = billed_seconds s dur"
    "asr_id a = i" "asr_job a = Some j" "asr_retry_index a = index" "asr_outcome a = outcome"
    "\<not> list_ex (window_full s (billed_seconds s dur) now model (asr_requests d)) (windows s)"
  using assms by (auto simp: reserve_in_def Let_def update_jobs_def split: if_splits)

lemma reserve_in_fits:
  assumes "reserve_in i j s dur index model now outcome d = Inr (i', e)"
    and "w \<in> set (windows s)" "groq_model s \<noteq> []"
  shows "\<exists>n. fst (snd w) = Some n
    \<and> window_usage s (fst w) (snd (snd w)) now (Some (chosen_model s model)) (asr_requests e) \<le> n"
proof -
  obtain window limit audio where w: "w = (window, limit, audio)" by (cases w)
  obtain a where a: "asr_requests e = asr_requests d @ [a]" "asr_account a = groq_account_id s"
    "asr_model a = chosen_model s model" "asr_created a = now" "asr_audio_seconds a = billed_seconds s dur"
    "\<not> list_ex (window_full s (billed_seconds s dur) now model (asr_requests d)) (windows s)"
    using assms(1) by (rule reserve_in_Inr)
  have cm: "chosen_model s (Some (chosen_model s model)) = chosen_model s model"
    using assms(3) by (auto simp: chosen_model_def split: option.splits)
  have "\<not> window_full s (billed_seconds s dur) now model (asr_requests d) w"
    using a(6) assms(2) by (auto simp: list_ex_iff)
  then obtain n where n: "limit = Some n"
    "window_usage s window audio now model (asr_requests d)
       + (if audio then billed_seconds s dur else 1) \<le> n"
    by (auto simp: window_full_def w split: option.splits)
  have same: "window_filter s window now (Some (chosen_model s model)) = window_filter s window now model"
    by (simp add: fun_eq_iff window_filter_def cm)
  have "0 < window" using assms(2) by (auto simp: w windows_def)
  then have "window_filter s window now model a" by (simp add: window_filter_def a(2-4))
  then have "window_usage s window audio now (Some (chosen_model s model)) (asr_requests d @ [a])
      = window_usage s window audio now model (asr_requests d) + (if audio then billed_seconds s dur else 1)"
    unfolding window_usage_def same by (simp add: units_def a(5))
  with n show ?thesis by (auto simp: w a(1))
qed

lemma opt_allD: "Some v = x \<Longrightarrow> opt_all p x \<Longrightarrow> p v"
  by (auto simp: opt_all_def)

lemma windows_positive:
  assumes "speech_fields_ok s" "(w, Some n, audio) \<in> set (windows s)"
  shows "0 < n"
  using assms unfolding speech_fields_ok_def windows_def by (auto dest: opt_allD)

lemma ledger_step_fitted:
  assumes "ledger_step s d e" "fitted s (asr_requests d)" "speech_fields_ok s" "groq_model s \<noteq> []"
  shows "fitted s (asr_requests e)"
  using assms(1)
proof cases
  case (ls_reserve i j dur index model now outcome)
  obtain a where a: "asr_requests e = asr_requests d @ [a]" "asr_account a = groq_account_id s"
    "asr_model a = chosen_model s model" "asr_created a = now" "asr_audio_seconds a = billed_seconds s dur"
    using ls_reserve(1) by (rule reserve_in_Inr)
  have fits: "\<exists>n. limit = Some n \<and> window_usage s w audio (asr_created a) (Some (asr_model a)) (asr_requests d @ [a]) \<le> n"
    if "(w, limit, audio) \<in> set (windows s)" for w limit audio
    using reserve_in_fits[OF ls_reserve(1) that assms(4)] by (simp add: a)
  show ?thesis
    unfolding a(1)
  proof (rule fit_snoc[OF assms(2)])
    show "asr_created x \<le> asr_created a" if "x \<in> set (asr_requests d)" for x
      using ls_reserve(2)[OF that] a(4) by simp
    show "0 \<le> asr_audio_seconds a" using billed_seconds_pos[OF assms(3)] a(5) by simp
  qed (use fits in blast)
next
  case ls_other
  then show ?thesis using fitted_cong[OF assms(2)] by (simp add: same_ledger_def)
qed

text \<open>The ledger under accepted settings is a system with an invariant.\<close>

definition ledger_settings :: "speech_settings \<Rightarrow> bool" where
  "ledger_settings s \<longleftrightarrow> speech_fields_ok s \<and> groq_model s \<noteq> []"

interpretation ledger: invariant_system "ledger_step s"
    "\<lambda>d. ledger_settings s \<and> fitted s (asr_requests d)" for s
  by unfold_locales (auto simp: ledger_settings_def intro: ledger_step_fitted)

text \<open>C33: The account's speech limits hold at every instant. Starting from an empty ledger, after any
  sequence of reservations and row updates by any workers whose reservations do not go back in time,
  for every configured window and every model the requests (or audio seconds) reserved in the window
  that ends at any instant never exceed the configured limit.\<close>

theorem speech_windows_hold:
  assumes "ledger_settings s" "rtranclp (ledger_step s) d e" "asr_requests d = []"
    and "(w, Some n, audio) \<in> set (windows s)" "m \<noteq> []"
  shows "used_between s w audio x (Some m) (asr_requests e) \<le> n"
proof -
  have "fitted s (asr_requests e)"
    using ledger.good_run[OF assms(2)] assms(1,3) by (simp add: fit_Nil)
  moreover have "0 \<le> n"
    using assms(1,4) windows_positive[of s w n audio] by (simp add: ledger_settings_def)
  ultimately show ?thesis using fitted_bound assms(4,5) by blast
qed

definition ex_speech :: speech_settings where
  "ex_speech = default_speech\<lparr>groq_account_id := ''acct'', asr_requests_per_minute := Some 1,
     asr_requests_per_day := Some 10, asr_audio_seconds_per_hour := Some 100,
     asr_audio_seconds_per_day := Some 1000\<rparr>"

lemma ex_speech_ok: "ledger_settings ex_speech"
  using default_fields_ok(3)
  by (simp add: ledger_settings_def ex_speech_def speech_fields_ok_def opt_all_def default_speech_def in_range_def)

lemma ex_reserve: "\<exists>e. reserve_in 3 7 ex_speech 10 0 (Some ''m'') 50 ''uncertain'' empty_db = Inr (3, e)"
  by (simp add: reserve_in_def Let_def windows_def window_full_def window_usage_def empty_db_def
      ex_speech_def billed_seconds_def default_speech_def)

theorem speech_windows_hold_witness:
  "\<exists>e. reserve_in 3 7 ex_speech 10 0 (Some ''m'') 50 ''uncertain'' empty_db = Inr (3, e)
     \<and> used_between ex_speech 60 False 100 (Some ''m'') (asr_requests e) \<le> 1"
proof -
  obtain e where e: "reserve_in 3 7 ex_speech 10 0 (Some ''m'') 50 ''uncertain'' empty_db = Inr (3, e)"
    using ex_reserve by blast
  have "ledger_step ex_speech empty_db e" by (rule ls_reserve[OF e]) (simp add: empty_db_def)
  moreover have "(60, Some 1, False) \<in> set (windows ex_speech)" by (simp add: windows_def ex_speech_def)
  moreover have "asr_requests empty_db = []" by (simp add: empty_db_def)
  ultimately show ?thesis using speech_windows_hold[OF ex_speech_ok, of empty_db e 60 1 False "''m''" 100] e by auto
qed

end
