(* ===== verification/AsrFallback.thy ===== *)
theory AsrFallback
  imports AsrLedger QueueProperties
begin

text \<open>
  The hosted speech policy, \<open>backend/services/asr/fallback.py\<close>: the primary model, then the
  fallback model once, each with its own reservation and ledger row. Between the transactions of one
  run other transactions may commit; \<open>attempt_env\<close> collects, per model, what they do, the clocks,
  the fresh identifier, what the heartbeat raises and what the provider call gave. A run returns its
  outcome, the calls it made (each with the database at the moment of the call) and the database.
\<close>

record speech_audio =
  spa_audio :: string
  spa_duration_ms :: int
  spa_quota_seconds :: rat
  spa_sha256 :: string

record attempt_env =
  ae_id :: uuid
  ae_now :: time
  ae_begin_clk :: clk
  ae_complete_clk :: clk
  ae_before :: "db \<Rightarrow> db"
  ae_during :: "db \<Rightarrow> db"
  ae_beat :: "exn option"
  ae_reply :: "exn + (asr_failure + segment list)"

text \<open>\<open>Crash\<close> is a lookup of the policy's own tables that fails (\<open>IndexError\<close>, \<open>KeyError\<close>).\<close>

datatype speech_outcome = Speech json | Speech_Failed asr_error | Speech_Raised exn | Crash

definition models :: "speech_settings \<Rightarrow> string list" where
  "models s = [groq_model s, groq_fallback_model s]"

definition final_failure :: "string list \<Rightarrow> speech_outcome" where
  "final_failure reasons = (if reasons = [] then Crash
     else case map_of FAILURE_BY_REASON (last reasons) of None \<Rightarrow> Crash | Some e \<Rightarrow> Speech_Failed e)"

definition raise_ledger :: "ledger_error \<Rightarrow> speech_outcome" where
  "raise_ledger e = (case e of Inl x \<Rightarrow> Speech_Raised x | Inr f \<Rightarrow> Speech_Failed f)"

text \<open>One model's turn: \<open>Inl\<close> ends the run, \<open>Inr\<close> is the reason to go on with the next model.\<close>

definition call_model ::
    "attempt_env \<Rightarrow> (string \<Rightarrow> segment list \<Rightarrow> speech_audio \<Rightarrow> json) \<Rightarrow> claimed_job \<Rightarrow> speech_settings
      \<Rightarrow> speech_audio \<Rightarrow> string \<Rightarrow> db \<Rightarrow> (speech_outcome + string) \<times> (string \<times> db) list \<times> db"
where
  "call_model e build job s speech m d =
     (case begin_attempt (ae_begin_clk e) (ae_id e) (ae_now e) job s m (spa_quota_seconds speech) (ae_before e d) of
        Inl (Inr ASRQuotaExhausted) \<Rightarrow> (Inr ''quota_exhausted'', [], ae_before e d)
      | Inl x \<Rightarrow> (Inl (raise_ledger x), [], ae_before e d)
      | Inr (request, d1) \<Rightarrow>
          (case ae_beat e of
             Some x \<Rightarrow> (Inl (Speech_Raised x), [], d1)
           | None \<Rightarrow>
               (case ae_reply e of
                  Inl x \<Rightarrow> (Inl (Speech_Raised x), [(m, d1)], ae_during e d1)
                | Inr (Inl failure) \<Rightarrow>
                    (case complete_attempt (ae_complete_clk e) job request None (Some failure) (ae_during e d1) of
                       Inl x \<Rightarrow> (Inl (raise_ledger x), [(m, d1)], ae_during e d1)
                     | Inr d2 \<Rightarrow> (Inr (failure_reason (Some (asr_failure_name failure))), [(m, d1)], d2))
                | Inr (Inr segments) \<Rightarrow>
                    (let result = build m segments speech
                     in case complete_attempt (ae_complete_clk e) job request (Some result) None (ae_during e d1) of
                          Inl x \<Rightarrow> (Inl (raise_ledger x), [(m, d1)], ae_during e d1)
                        | Inr d2 \<Rightarrow> (Inl (Speech result), [(m, d1)], d2)))))"

text \<open>The loop over the models; \<open>env\<close> is given the number of models still to come.\<close>

fun try_models ::
    "(nat \<Rightarrow> attempt_env) \<Rightarrow> (string \<Rightarrow> segment list \<Rightarrow> speech_audio \<Rightarrow> json) \<Rightarrow> claimed_job \<Rightarrow> speech_settings
      \<Rightarrow> speech_audio \<Rightarrow> (string \<times> asr_row) list \<Rightarrow> string list \<Rightarrow> string list \<Rightarrow> db
      \<Rightarrow> speech_outcome \<times> (string \<times> db) list \<times> db"
where
  "try_models env build job s speech ledger [] reasons d = (final_failure reasons, [], d)"
| "try_models env build job s speech ledger (m # ms) reasons d =
     (let (turn, calls, d1) =
        (case map_of ledger m of
           None \<Rightarrow>
             if list_ex (\<lambda>l. map_of ledger l \<noteq> None) ms
             then (Inr ''quota_exhausted'', [], d)
             else call_model (env (length ms)) build job s speech m d
         | Some row \<Rightarrow>
             if asr_outcome row \<noteq> ''reserved''
             then (Inr (failure_reason (Some (asr_outcome row))), [], d)
             else call_model (env (length ms)) build job s speech m d)
      in case turn of
           Inl outcome \<Rightarrow> (outcome, calls, d1)
         | Inr reason \<Rightarrow>
             (let (outcome, later, d2) = try_models env build job s speech ledger ms (reasons @ [reason]) d1
              in (outcome, calls @ later, d2)))"

definition completed_row :: "(string \<times> asr_row) list \<Rightarrow> asr_row option" where
  "completed_row ledger = fetch (\<lambda>r. asr_outcome r = ''completed'') (map snd ledger)"

definition transcribe ::
    "clk \<Rightarrow> (nat \<Rightarrow> attempt_env) \<Rightarrow> (string \<Rightarrow> segment list \<Rightarrow> speech_audio \<Rightarrow> json) \<Rightarrow> claimed_job \<Rightarrow> speech_settings
      \<Rightarrow> (ledger_error + speech_audio) \<Rightarrow> db \<Rightarrow> speech_outcome \<times> (string \<times> db) list \<times> db"
where
  "transcribe c env build job s load d =
     (case attempts c job d of
        Inl x \<Rightarrow> (raise_ledger x, [], d)
      | Inr ledger \<Rightarrow>
          (case completed_row ledger of
             Some r \<Rightarrow> (Speech (case asr_result r of None \<Rightarrow> JNull | Some j \<Rightarrow> j), [], d)
           | None \<Rightarrow>
               (case load of
                  Inl x \<Rightarrow> (raise_ledger x, [], d)
                | Inr speech \<Rightarrow> try_models env build job s speech ledger (models s) [] d)))"

section \<open>Facts\<close>

text \<open>A row that records the attempt before its call.\<close>

definition written_ahead :: "claimed_job \<Rightarrow> string \<Rightarrow> db \<Rightarrow> bool" where
  "written_ahead job m d \<longleftrightarrow> (\<exists>a \<in> set (asr_requests d). asr_job a = Some (lease_job (cj_lease job))
     \<and> asr_model a = m \<and> asr_outcome a = ''uncertain'' \<and> retry_index job = Inr (asr_retry_index a))"

definition callable :: "(string \<times> asr_row) list \<Rightarrow> string \<Rightarrow> bool" where
  "callable ledger m \<longleftrightarrow> (case map_of ledger m of None \<Rightarrow> True | Some r \<Rightarrow> asr_outcome r = ''reserved'')"

lemma begin_attempt_written_ahead:
  assumes "begin_attempt c i now job s m dur d = Inr (request, e)" "m \<noteq> []"
  shows "written_ahead job m e"
proof -
  let ?j = "lease_job (cj_lease job)"
  obtain index where ix: "retry_index job = Inr index"
    using assms(1) by (auto simp: begin_attempt_def split: sum.splits)
  let ?p = "\<lambda>a. asr_job a = Some ?j \<and> asr_model a = m \<and> asr_retry_index a = index \<and> asr_outcome a = ''reserved''"
  show ?thesis
  proof (cases "fetch ?p (asr_requests d)")
    case None
    then have "reserve_in i ?j s dur index (Some m) now ''uncertain'' d = Inr (request, e)"
      using assms(1) ix by (auto simp: begin_attempt_def Let_def split: sum.splits)
    then obtain a where "asr_requests e = asr_requests d @ [a]" "asr_model a = chosen_model s (Some m)"
      "asr_job a = Some ?j" "asr_retry_index a = index" "asr_outcome a = ''uncertain''"
      by (rule reserve_in_Inr)
    then show ?thesis using ix assms(2) by (auto simp: written_ahead_def chosen_model_def)
  next
    case (Some r)
    then have e: "e = d\<lparr>asr_requests := update_where (\<lambda>a. asr_id a = asr_id r)
        (\<lambda>a. a\<lparr>asr_outcome := ''uncertain''\<rparr>) (asr_requests d)\<rparr>"
      using assms(1) ix by (auto simp: begin_attempt_def Let_def split: sum.splits if_splits)
    from fetch_SomeD[OF Some] have r: "r \<in> set (asr_requests d)" "?p r" by simp_all
    then have "r\<lparr>asr_outcome := ''uncertain''\<rparr> \<in> set (asr_requests e)"
      by (force simp: e set_update_where)
    moreover have "asr_job (r\<lparr>asr_outcome := ''uncertain''\<rparr>) = Some ?j \<and> asr_model (r\<lparr>asr_outcome := ''uncertain''\<rparr>) = m
        \<and> asr_outcome (r\<lparr>asr_outcome := ''uncertain''\<rparr>) = ''uncertain'' \<and> retry_index job = Inr (asr_retry_index (r\<lparr>asr_outcome := ''uncertain''\<rparr>))"
      using r(2) ix by simp
    ultimately show ?thesis unfolding written_ahead_def by blast
  qed
qed

text \<open>What every run keeps true of the calls it makes.\<close>

definition calls_ok :: "claimed_job \<Rightarrow> (string \<times> asr_row) list \<Rightarrow> string list \<Rightarrow> (string \<times> db) list \<Rightarrow> bool" where
  "calls_ok job ledger ms calls \<longleftrightarrow> subseq (map fst calls) ms
     \<and> (\<forall>(m, dc) \<in> set calls. callable ledger m \<and> written_ahead job m dc)"

lemma calls_ok_Nil [simp]: "calls_ok job ledger ms []"
  by (simp add: calls_ok_def)

lemma calls_ok_skip: "calls_ok job ledger ms calls \<Longrightarrow> calls_ok job ledger (m # ms) calls"
  by (auto simp: calls_ok_def)

lemma calls_ok_call:
  "callable ledger m \<Longrightarrow> written_ahead job m dc \<Longrightarrow> calls_ok job ledger ms calls \<Longrightarrow>
     calls_ok job ledger (m # ms) ((m, dc) # calls)"
  by (auto simp: calls_ok_def)

lemma call_model_calls:
  assumes "m \<noteq> []"
  shows "case call_model e build job s speech m d of (turn, calls, d1) \<Rightarrow>
    calls = [] \<or> (\<exists>dc. calls = [(m, dc)] \<and> written_ahead job m dc)"
proof (cases "begin_attempt (ae_begin_clk e) (ae_id e) (ae_now e) job s m (spa_quota_seconds speech) (ae_before e d)")
  case (Inl x)
  then show ?thesis by (simp add: call_model_def split: sum.split asr_error.split)
next
  case (Inr y)
  obtain request d1 where y: "y = (request, d1)" by (cases y)
  from begin_attempt_written_ahead Inr y assms have "written_ahead job m d1" by blast
  then show ?thesis
    by (simp add: call_model_def Inr y Let_def split: sum.split option.split)
qed

lemma try_models_calls:
  "[] \<notin> set ms \<Longrightarrow> calls_ok job ledger ms (fst (snd (try_models env build job s speech ledger ms reasons d)))"
proof (induction ms arbitrary: reasons d)
  case Nil
  then show ?case by simp
next
  case (Cons m ms)
  then have ne: "m \<noteq> []" and ms: "[] \<notin> set ms" by auto
  define turn where "turn = (case map_of ledger m of
           None \<Rightarrow>
             if list_ex (\<lambda>l. map_of ledger l \<noteq> None) ms
             then (Inr ''quota_exhausted'', [], d)
             else call_model (env (length ms)) build job s speech m d
         | Some row \<Rightarrow>
             if asr_outcome row \<noteq> ''reserved''
             then (Inr (failure_reason (Some (asr_outcome row))), [], d)
             else call_model (env (length ms)) build job s speech m d)"
  obtain t calls d1 where t: "turn = (t, calls, d1)" by (cases turn) auto
  have calls: "calls = [] \<or> (\<exists>dc. calls = [(m, dc)] \<and> written_ahead job m dc \<and> callable ledger m)"
    using t call_model_calls[OF ne, where e = "env (length ms)" and build = build and job = job and s = s and speech = speech and d = d]
    by (auto simp: turn_def callable_def split: option.splits if_splits)
  show ?case
  proof (cases t)
    case (Inl outcome)
    then show ?thesis using calls t by (auto simp: turn_def intro: calls_ok_call)
  next
    case (Inr reason)
    obtain outcome later d2 where l:
      "try_models env build job s speech ledger ms (reasons @ [reason]) d1 = (outcome, later, d2)" (is "?r = _")
      by (cases ?r) auto
    from Cons.IH[OF ms, of "reasons @ [reason]" d1] have "calls_ok job ledger ms later" by (simp add: l)
    then show ?thesis using calls t Inr l
      by (auto simp: turn_def[symmetric] intro: calls_ok_call calls_ok_skip)
  qed
qed


lemma try_models_no_crash:
  "ms \<noteq> [] \<or> (reasons \<noteq> [] \<and> map_of FAILURE_BY_REASON (last reasons) \<noteq> None) \<Longrightarrow>
     fst (try_models env build job s speech ledger ms reasons d) \<noteq> Crash"
proof (induction ms arbitrary: reasons d)
  case Nil
  then show ?case by (auto simp: final_failure_def split: option.split)
next
  case (Cons m ms)
  have quota: "map_of FAILURE_BY_REASON ''quota_exhausted'' \<noteq> None" by (simp add: FAILURE_BY_REASON_def)
  have turn: "case call_model (env (length ms)) build job s speech m d of (turn, calls, d1) \<Rightarrow>
      (case turn of Inl outcome \<Rightarrow> outcome \<noteq> Crash | Inr reason \<Rightarrow> map_of FAILURE_BY_REASON reason \<noteq> None)"
    using quota failure_reason_known
    by (auto simp: call_model_def raise_ledger_def Let_def split: sum.split option.split asr_error.split)
  have ih: "fst (try_models env build job s speech ledger ms (reasons @ [reason]) e) \<noteq> Crash"
    if "map_of FAILURE_BY_REASON reason \<noteq> None" for reason e
    using Cons.IH[of "reasons @ [reason]" e] that by auto
  have ih': "try_models env build job s speech ledger ms (reasons @ [reason]) e \<noteq> (Crash, calls, e')"
    if "map_of FAILURE_BY_REASON reason \<noteq> None" for reason e calls e'
    using ih[OF that, of e] by auto
  show ?case
    using turn quota failure_reason_known
    by (auto simp: Let_def ih ih' split: option.split prod.split sum.split)
qed

text \<open>The ledger holds, for each model, a row of this run.\<close>

lemma map_of_fold_update:
  "map_of (fold (\<lambda>a m. AList.update (asr_model a) a m) rows acc) k =
     (case fetch (\<lambda>a. asr_model a = k) (rev rows) of Some a \<Rightarrow> Some a | None \<Rightarrow> map_of acc k)"
proof (induction rows arbitrary: acc)
  case (Cons a rows)
  then show ?case by (simp add: update_conv' fetch_append split: option.split)
qed (simp add: fetch_def)

lemma set_insert_ordered: "set (insert_ordered a bs) = insert a (set bs)"
  by (induction bs) auto

lemma set_ordered_rows: "set (ordered_rows rows) = set rows"
proof -
  have "set (fold insert_ordered rows acc) = set rows \<union> set acc" for acc
    by (induction rows arbitrary: acc) (auto simp: set_insert_ordered)
  then show ?thesis by (simp add: ordered_rows_def)
qed

definition run_rows :: "claimed_job \<Rightarrow> int \<Rightarrow> string \<Rightarrow> db \<Rightarrow> asr_row list" where
  "run_rows job index m d = filter (\<lambda>a. asr_job a = Some (lease_job (cj_lease job))
     \<and> asr_retry_index a = index \<and> asr_model a = m) (asr_requests d)"

lemma callable_rows:
  assumes "attempts c job d = Inr ledger" "callable ledger m" "retry_index job = Inr index"
  shows "run_rows job index m d = [] \<or> (\<exists>a \<in> set (run_rows job index m d). asr_outcome a = ''reserved'')"
proof -
  let ?rows = "filter (\<lambda>a. asr_retry_index a = index)
      (ordered_rows (filter (\<lambda>a. asr_job a = Some (lease_job (cj_lease job))) (asr_requests d)))"
  have ledger: "ledger = by_model ?rows"
    using assms(1,3) by (auto simp: attempts_def Let_def split: sum.splits if_splits)
  have own: "a \<in> set (run_rows job index m d) \<longleftrightarrow> a \<in> set ?rows \<and> asr_model a = m" for a
    by (auto simp: run_rows_def set_ordered_rows)
  have m: "map_of ledger m = fetch (\<lambda>a. asr_model a = m) (rev ?rows)"
    by (simp add: ledger by_model_def map_of_fold_update split: option.split)
  show ?thesis
  proof (cases "map_of ledger m")
    case None
    then have "a \<notin> set (run_rows job index m d)" for a
      using own[of a] m by (auto simp: fetch_None_iff)
    then show ?thesis by (metis list.set_intros(1) neq_Nil_conv)
  next
    case (Some a)
    with m have "fetch (\<lambda>a. asr_model a = m) (rev ?rows) = Some a" by simp
    from fetch_SomeD[OF this] own[of a] have "a \<in> set (run_rows job index m d)" by simp
    with assms(2) Some show ?thesis by (auto simp: callable_def)
  qed
qed


section \<open>Properties\<close>

text \<open>C32: Speech is never sent twice. Whatever commits between the transactions of a run, the run calls
  each configured model at most once and in the configured order, a call is always preceded by a
  committed row of this run that says its outcome is uncertain, and a model which this run's ledger
  already shows as possibly sent (rows, none of them merely reserved) is not called again.\<close>

theorem speech_never_resent:
  assumes "transcribe c env build job s load d = (outcome, calls, e)" "[] \<notin> set (models s)"
  shows "subseq (map fst calls) (models s)
    \<and> (\<forall>(m, dc) \<in> set calls. written_ahead job m dc
        \<and> (\<forall>index. retry_index job = Inr index \<longrightarrow> run_rows job index m d = []
              \<or> (\<exists>a \<in> set (run_rows job index m d). asr_outcome a = ''reserved'')))"
proof (cases "calls = []")
  case False
  then obtain ledger speech where l: "attempts c job d = Inr ledger"
    "try_models env build job s speech ledger (models s) [] d = (outcome, calls, e)"
    using assms(1) by (auto simp: transcribe_def split: sum.splits option.splits)
  from try_models_calls[OF assms(2)] have "calls_ok job ledger (models s) calls"
    by (metis l(2) fst_conv snd_conv)
  then show ?thesis using callable_rows[OF l(1)] by (fastforce simp: calls_ok_def)
qed simp

text \<open>The policy always ends in one of its declared ways. It never looks up a reason it does not
  know (no crash), and once the run's ledger holds a completed attempt it returns exactly that stored
  result, without loading the audio, calling a provider or changing the database.\<close>

theorem speech_outcome_declared:
  "fst (transcribe c env build job s load d) \<noteq> Crash
    \<and> (\<forall>ledger a r. attempts c job d = Inr ledger \<longrightarrow> completed_row ledger = Some a \<longrightarrow> asr_result a = Some r \<longrightarrow>
         transcribe c env build job s load d = (Speech r, [], d))"
proof -
  have "fst (try_models env build job s speech ledger (models s) [] d) \<noteq> Crash" for speech ledger
    by (rule try_models_no_crash) (simp add: models_def)
  then show ?thesis
    by (auto simp: transcribe_def raise_ledger_def split: sum.split option.split)
qed

section \<open>Example\<close>

text \<open>The upload reserved the primary model; the run sends it and stores the result.\<close>

definition ex_audio :: speech_audio where
  "ex_audio = \<lparr>spa_audio = ''a'', spa_duration_ms = 1000, spa_quota_seconds = 1, spa_sha256 = ''h''\<rparr>"

definition ex_env :: "nat \<Rightarrow> attempt_env" where
  "ex_env n = \<lparr>ae_id = of_nat (20 + n), ae_now = 5, ae_begin_clk = ex_clk 5, ae_complete_clk = ex_clk 6,
     ae_before = id, ae_during = id, ae_beat = None,
     ae_reply = Inr (Inr [\<lparr>sgm_start = 0, sgm_end = 900, sgm_text = ''hi''\<rparr>])\<rparr>"

definition ex_build :: "string \<Rightarrow> segment list \<Rightarrow> speech_audio \<Rightarrow> json" where
  "ex_build m ss a = JObj [(''model'', JStr m), (''text'', JStr (concat (map sgm_text ss)))]"

definition ex_row :: "string \<Rightarrow> json option \<Rightarrow> asr_row" where
  "ex_row outcome result = \<lparr>asr_id = 20, asr_job = Some 7, asr_account = ''acct'',
     asr_model = ''whisper-large-v3-turbo'', asr_audio_seconds = 1, asr_created = 1,
     asr_outcome = outcome, asr_result = result, asr_retry_index = 0, asr_retry_after = None\<rparr>"

definition ex_text :: json where
  "ex_text = JObj [(''model'', JStr ''whisper-large-v3-turbo''), (''text'', JStr ''hi'')]"

definition ex_spoken :: "asr_row \<Rightarrow> db" where
  "ex_spoken row = ex_running\<lparr>asr_requests := [row]\<rparr>"

lemma ex_lock: "lock_active (ex_clk t) ex_lease (ex_spoken row) = Inr ()" if "t < 31"
  using that by (simp add: lock_active_def active_lease_def owned_def ex_running_def ex_job_def empty_db_def claimed_of_def
      leased_to_def set_state_def new_job_def queued_status_def ex_clk_def unexpired_def ex_spoken_def)

lemma ex_retry_index: "retry_index ex_job = Inr 0"
  by (simp add: ex_job_def claimed_of_def new_job_def retry_index_def payload_index_def json_int_def
        jget_def leased_to_def set_state_def)

lemma ex_lease_job: "lease_job ex_lease = 7"
  by (simp add: ex_job_def claimed_of_def leased_to_def set_state_def new_job_def)

lemmas ex_simps = ex_lock ex_retry_index ex_lease_job ex_row_def

lemma ex_attempts: "attempts (ex_clk 4) ex_job (ex_spoken (ex_row ''reserved'' None))
    = Inr [(''whisper-large-v3-turbo'', ex_row ''reserved'' None)]"
  by (simp add: attempts_def ex_simps ordered_rows_def by_model_def Let_def)
    (simp add: ex_spoken_def)

lemma ex_begin: "begin_attempt (ex_clk 5) i now ex_job ex_speech ''whisper-large-v3-turbo'' dur
    (ex_spoken (ex_row ''reserved'' None)) = Inr (20, ex_spoken (ex_row ''uncertain'' None))"
  by (simp add: begin_attempt_def ex_simps Let_def)
    (simp add: ex_spoken_def ex_speech_def)

lemma ex_complete: "complete_attempt (ex_clk 6) ex_job 20 (Some res) None (ex_spoken (ex_row ''uncertain'' None))
    = Inr (ex_spoken (ex_row ''completed'' (Some res)))"
  by (simp add: complete_attempt_def ex_simps recorded_delay_def)
    (simp add: ex_spoken_def)

lemma ex_transcribe:
  "transcribe (ex_clk 4) ex_env ex_build ex_job ex_speech (Inr ex_audio) (ex_spoken (ex_row ''reserved'' None))
   = (Speech ex_text, [(''whisper-large-v3-turbo'', ex_spoken (ex_row ''uncertain'' None))],
      ex_spoken (ex_row ''completed'' (Some ex_text)))"
proof -
  have m: "models ex_speech = [''whisper-large-v3-turbo'', ''whisper-large-v3'']"
    by (simp add: models_def ex_speech_def default_speech_def)
  have o: "asr_outcome (ex_row x y) = x" for x y by (simp add: ex_row_def)
  have "call_model (ex_env n) ex_build ex_job ex_speech ex_audio ''whisper-large-v3-turbo'' (ex_spoken (ex_row ''reserved'' None))
    = (Inl (Speech ex_text), [(''whisper-large-v3-turbo'', ex_spoken (ex_row ''uncertain'' None))],
       ex_spoken (ex_row ''completed'' (Some ex_text)))" for n
    by (simp add: call_model_def ex_env_def ex_begin ex_complete ex_build_def ex_text_def Let_def)
  then show ?thesis by (simp add: transcribe_def ex_attempts m completed_row_def o)
qed

theorem speech_never_resent_witness:
  "subseq [''whisper-large-v3-turbo''] (models ex_speech)
    \<and> written_ahead ex_job ''whisper-large-v3-turbo'' (ex_spoken (ex_row ''uncertain'' None))"
proof -
  have "[] \<notin> set (models ex_speech)" by (simp add: models_def ex_speech_def default_speech_def)
  from speech_never_resent[OF ex_transcribe this] show ?thesis by simp
qed

theorem speech_outcome_declared_witness:
  "transcribe (ex_clk 4) ex_env ex_build ex_job ex_speech (Inr ex_audio) (ex_spoken (ex_row ''completed'' (Some ex_text)))
   = (Speech ex_text, [], ex_spoken (ex_row ''completed'' (Some ex_text)))"
proof -
  have "attempts (ex_clk 4) ex_job (ex_spoken (ex_row ''completed'' (Some ex_text)))
      = Inr [(''whisper-large-v3-turbo'', ex_row ''completed'' (Some ex_text))]"
    by (simp add: attempts_def ex_simps ordered_rows_def by_model_def Let_def) (simp add: ex_spoken_def)
  moreover have "completed_row [(''whisper-large-v3-turbo'', ex_row ''completed'' (Some ex_text))]
      = Some (ex_row ''completed'' (Some ex_text))" "asr_result (ex_row ''completed'' (Some ex_text)) = Some ex_text"
    by (simp_all add: completed_row_def ex_row_def)
  ultimately show ?thesis using speech_outcome_declared by blast
qed

end
