(* ===== verification/ApiErrors.thy ===== *)
theory ApiErrors
  imports Pystd Schema
begin

text \<open>
  The error shape of the API, \<open>backend/services/api/errors.py\<close>: the typed error, the messages of
  rejected requests, the codes of failed jobs and the reply each kind of exception becomes. An
  operation of a route returns \<open>api_failure + result\<close>.
\<close>

record api_error =
  err_status :: int
  err_code :: string
  err_message :: string
  err_retryable :: bool
  err_action :: string
  err_headers :: "(string \<times> string) list"

text \<open>\<open>ApiError(status, code, message)\<close> with its default arguments.\<close>

definition plain_error :: "int \<Rightarrow> string \<Rightarrow> string \<Rightarrow> api_error" where
  "plain_error status code message = \<lparr>err_status = status, err_code = code, err_message = message,
     err_retryable = False, err_action = ''none'', err_headers = []\<rparr>"

section \<open>Codes of failed jobs\<close>

definition lookup_or :: "string \<Rightarrow> (string \<times> string) list \<Rightarrow> string option \<Rightarrow> string" where
  "lookup_or other table failure =
     (case map_of table (case failure of None \<Rightarrow> [] | Some f \<Rightarrow> f) of None \<Rightarrow> other | Some c \<Rightarrow> c)"

definition extraction_failure_code :: "string option \<Rightarrow> string" where
  "extraction_failure_code failure = lookup_or ''PROCESSING_FAILED''
     [(''ExtractionInvalid'', ''EXTRACTION_INVALID''),
      (''ExtractionUnavailable'', ''EXTRACTION_UNAVAILABLE''),
      (''ExtractionDenied'', ''EXTRACTION_DENIED''),
      (''InvalidCooldown'', ''EXTRACTION_UNAVAILABLE''),
      (''ExtractionBudgetExceeded'', ''EXTRACTION_BUDGET_EXHAUSTED''),
      (''UnknownOutcome'', ''EXTRACTION_OUTCOME_UNKNOWN'')] failure"

definition evidence_failure_code :: "string option \<Rightarrow> string" where
  "evidence_failure_code failure =
     (if failure = Some ''EvidenceUnavailable'' then ''EVIDENCE_UNAVAILABLE'' else ''EVIDENCE_FAILED'')"

text \<open>The client-safe object of a stored code: code, message and whether to retry.\<close>

definition media_errors :: "(string \<times> string \<times> bool) list" where
  "media_errors =
     [(''ASR_QUOTA_EXHAUSTED'', ''Speech quota is exhausted; automatic attempts have stopped'', False),
      (''ASR_UNAVAILABLE'', ''Speech transcription is unavailable'', False),
      (''INVALID_MEDIA'', ''The uploaded media could not be processed'', False),
      (''MEDIA_SIZE_LIMIT_EXCEEDED'', ''The media exceeds the permitted size'', False),
      (''DURATION_LIMIT_EXCEEDED'', ''The media exceeds the permitted duration'', False),
      (''MEDIA_PROCESSING_TIMEOUT'', ''Media processing exceeded its time limit'', True),
      (''MEDIA_PROCESSING_UNAVAILABLE'', ''Media processing is temporarily unavailable'', True),
      (''EVIDENCE_UNAVAILABLE'', ''Evidence checking is unavailable'', False),
      (''EVIDENCE_FAILED'', ''Evidence checking failed'', False),
      (''CLAIM_UNASSESSED'', ''This claim was not assessed; the report says why'', False)]"

definition safe_error :: "string option \<Rightarrow> (string \<times> string \<times> bool) option" where
  "safe_error error_code = map_option (\<lambda>code.
     case map_of media_errors code of
       Some (message, retryable) \<Rightarrow> (code, message, retryable)
     | None \<Rightarrow> (code, ''Processing failed'', False)) error_code"

section \<open>Rejected requests\<close>

datatype loc_part = Loc_Name string | Loc_Index int

record validation_error =
  ve_type :: string
  ve_loc :: "loc_part list"

definition IDENTITY_FIELDS :: "string list" where
  "IDENTITY_FIELDS = [''user_id'', ''owner_id'', ''principal_id'']"

definition MESSAGE_LIMIT :: nat where
  "MESSAGE_LIMIT = 240"

definition loc_names :: "validation_error \<Rightarrow> string list" where
  "loc_names e = concat (map (\<lambda>p. case p of Loc_Name n \<Rightarrow> [n] | Loc_Index _ \<Rightarrow> []) (ve_loc e))"

definition names_identity :: "validation_error \<Rightarrow> bool" where
  "names_identity e \<longleftrightarrow> loc_names e \<noteq> [] \<and> last (loc_names e) \<in> set IDENTITY_FIELDS"

definition error_path :: "validation_error \<Rightarrow> string" where
  "error_path e =
     (let location = (if ve_type e = ''extra_forbidden'' then butlast (loc_names e) else loc_names e);
          path = join_with ''.'' location
      in if path = [] then ''body'' else path)"

text \<open>The keys of \<open>dict.fromkeys\<close>, in first-insertion order.\<close>

definition first_uses :: "'a list \<Rightarrow> 'a list" where
  "first_uses xs = rev (remdups (rev xs))"

definition shorten :: "string \<Rightarrow> string" where
  "shorten message =
     (if length message > MESSAGE_LIMIT
      then let suffix = '', ...''; head = take (MESSAGE_LIMIT - length suffix) message;
               trimmed = (if CHR '','' \<in> set head then rev (tl (dropWhile (\<lambda>c. c \<noteq> CHR '','') (rev head)))
                          else rstrip_by (\<lambda>c. c = CHR ''.'') head)
           in take MESSAGE_LIMIT (trimmed @ suffix)
      else message)"

definition validation_message :: "validation_error list \<Rightarrow> string \<times> string" where
  "validation_message errors =
     (if list_ex names_identity errors
      then (''CLIENT_IDENTITY_REJECTED'', ''Identity is taken from the bearer credential'')
      else let joined = join_with '', '' (first_uses (map error_path errors));
               unique = (if joined = [] then ''body'' else joined)
           in (''VALIDATION_FAILED'', shorten (''The request is invalid at: '' @ unique)))"

section \<open>Replies\<close>

record error_reply =
  ery_status :: int
  ery_code :: string
  ery_message :: string
  ery_retryable :: bool
  ery_action :: string
  ery_request :: string
  ery_headers :: "(string \<times> string) list"

text \<open>\<open>_REQUEST_ID.fullmatch\<close>: a letter or digit, then at most 127 of those, hyphen or underscore.\<close>

definition is_alnum :: "char \<Rightarrow> bool" where
  "is_alnum c = (let n = cval c in (48 \<le> n \<and> n \<le> 57) \<or> (65 \<le> n \<and> n \<le> 90) \<or> (97 \<le> n \<and> n \<le> 122))"

definition good_request_id :: "string \<Rightarrow> bool" where
  "good_request_id s = (case s of
       [] \<Rightarrow> False
     | c # r \<Rightarrow> is_alnum c \<and> length r \<le> 127 \<and> list_all (\<lambda>x. is_alnum x \<or> x = CHR ''_'' \<or> x = CHR ''-'') r)"

definition request_id_of :: "string \<Rightarrow> string option \<Rightarrow> string option \<Rightarrow> string" where
  "request_id_of fresh_hex stored supplied = (case stored of
       Some s \<Rightarrow> s
     | None \<Rightarrow> (case supplied of
         Some s \<Rightarrow> if good_request_id s then s else fresh_hex
       | None \<Rightarrow> fresh_hex))"

text \<open>The merged headers: an assignment to a present key keeps its place.\<close>

definition error_response :: "string \<Rightarrow> api_error \<Rightarrow> error_reply" where
  "error_response request_id e = \<lparr>ery_status = err_status e, ery_code = err_code e,
     ery_message = err_message e, ery_retryable = err_retryable e, ery_action = err_action e,
     ery_request = request_id,
     ery_headers = filter (\<lambda>(k, v). k \<noteq> ''X-Request-Id'') (err_headers e) @ [(''X-Request-Id'', request_id)]\<rparr>"

text \<open>What a route can end in, besides a result.\<close>

datatype api_failure =
    Api api_error
  | Rejected "validation_error list"
  | Http int "(string \<times> string) list"
  | Database_Down
  | Internal exn

definition status_codes :: "(int \<times> string \<times> string) list" where
  "status_codes = [(404, ''NOT_FOUND'', ''The requested resource was not found''),
     (405, ''METHOD_NOT_ALLOWED'', ''The method is not allowed for this resource'')]"

text \<open>The exceptions of the model that are a \<open>SQLAlchemyError\<close>.\<close>

definition database_exceptions :: "exn list" where
  "database_exceptions = [IntegrityError, OtherError ''NoResultFound'']"

definition error_of :: "api_failure \<Rightarrow> api_error" where
  "error_of f = (case f of
       Api e \<Rightarrow> e
     | Rejected errors \<Rightarrow> (let (code, message) = validation_message errors
         in (plain_error 422 code message)\<lparr>err_action := ''fix_request''\<rparr>)
     | Http status headers \<Rightarrow>
         (let (code, message) = (case map_of status_codes status of
              Some cm \<Rightarrow> cm | None \<Rightarrow> (''REQUEST_FAILED'', ''Request failed''))
          in (plain_error status code message)\<lparr>err_headers := headers\<rparr>)
     | Database_Down \<Rightarrow> (plain_error 503 ''DATABASE_UNAVAILABLE'' ''The service is temporarily unavailable'')
         \<lparr>err_retryable := True, err_action := ''retry''\<rparr>
     | Internal x \<Rightarrow>
         if x \<in> set database_exceptions
         then (plain_error 503 ''DATABASE_UNAVAILABLE'' ''The service is temporarily unavailable'')
           \<lparr>err_retryable := True, err_action := ''retry''\<rparr>
         else plain_error 500 ''INTERNAL_ERROR'' ''An internal error occurred'')"

definition reply_to :: "string \<Rightarrow> api_failure \<Rightarrow> error_reply" where
  "reply_to request_id f = error_response request_id (error_of f)"

section \<open>Properties\<close>

lemma shorten_bound: "length (shorten m) \<le> MESSAGE_LIMIT"
proof -
  have "length (take MESSAGE_LIMIT x) \<le> MESSAGE_LIMIT" for x :: string by simp
  then show ?thesis unfolding shorten_def Let_def by (simp only: split: if_split) (simp add: not_less)
qed

text \<open>Two errors that differ only in a key the client chose.\<close>

definition same_but_key :: "validation_error \<Rightarrow> validation_error \<Rightarrow> bool" where
  "same_but_key e e' \<longleftrightarrow> ve_type e = ve_type e'
     \<and> (loc_names e = loc_names e'
        \<or> (ve_type e = ''extra_forbidden'' \<and> butlast (loc_names e) = butlast (loc_names e')
           \<and> \<not> names_identity e \<and> \<not> names_identity e'))"

lemma same_but_key_path: "same_but_key e e' \<Longrightarrow> error_path e = error_path e' \<and> names_identity e = names_identity e'"
  by (auto simp: same_but_key_def error_path_def names_identity_def Let_def)

lemma same_but_key_list:
  "list_all2 same_but_key es es' \<Longrightarrow>
     map error_path es = map error_path es' \<and> list_ex names_identity es = list_ex names_identity es'"
  by (induction rule: list_all2_induct) (auto dest: same_but_key_path)

text \<open>A rejected request never echoes what the client chose. The message of a validation failure is at
  most 240 characters, and it is the same for any two requests whose errors differ only in the names of
  forbidden extra keys (unless such a name is one of the three identity fields).\<close>

theorem rejection_reveals_nothing:
  "length (snd (validation_message es)) \<le> 240
    \<and> (list_all2 same_but_key es es' \<longrightarrow> validation_message es = validation_message es')"
proof
  show "length (snd (validation_message es)) \<le> 240"
    using shorten_bound by (simp add: validation_message_def Let_def MESSAGE_LIMIT_def)
  show "list_all2 same_but_key es es' \<longrightarrow> validation_message es = validation_message es'"
    using same_but_key_list[of es es'] by (simp add: validation_message_def)
qed

theorem rejection_reveals_nothing_witness:
  "validation_message [\<lparr>ve_type = ''extra_forbidden'', ve_loc = [Loc_Name ''body'', Loc_Name ''k1'']\<rparr>]
   = validation_message [\<lparr>ve_type = ''extra_forbidden'', ve_loc = [Loc_Name ''body'', Loc_Name ''k2'']\<rparr>]"
proof -
  have "list_all2 same_but_key
      [\<lparr>ve_type = ''extra_forbidden'', ve_loc = [Loc_Name ''body'', Loc_Name ''k1'']\<rparr>]
      [\<lparr>ve_type = ''extra_forbidden'', ve_loc = [Loc_Name ''body'', Loc_Name ''k2'']\<rparr>]"
    by (simp add: same_but_key_def loc_names_def names_identity_def IDENTITY_FIELDS_def)
  with rejection_reveals_nothing show ?thesis by blast
qed

end
