(* ===== verification/Accounts.thy ===== *)
theory Accounts
  imports ApiErrors
begin

text \<open>
  Principals and their bearer credentials: \<open>backend/services/api/auth/dependency.py\<close>,
  \<open>ownership.py\<close>, \<open>linking.py\<close>, \<open>google.py\<close> and \<open>credentials.py\<close>, with the two routes of
  \<open>routes/principals.py\<close>. The SHA-256 digest of a token, the random tokens and identifiers, and the
  Google library's verification are parameters. The theorems show that linking keeps the accounts
  consistent, moves exactly the guest's saved reports and locks the merged guest out.
\<close>

section \<open>Requests and authentication\<close>

record principal =
  pri_id :: uuid
  pri_kind :: string

text \<open>The names of the query parameters, and the headers under their lower-case names.\<close>

record http_request =
  req_query :: "string list"
  req_headers :: "(string \<times> string) list"

definition identity_params :: "string list" where
  "identity_params = [''user_id'', ''owner_id'', ''principal_id'']"

definition identity_headers :: "string list" where
  "identity_headers = [''x-user-id'', ''x-owner-id'', ''x-principal-id'']"

definition mint_token :: "string \<Rightarrow> string" where
  "mint_token random = ''ovk_'' @ random"

definition reject_client_identity :: "http_request \<Rightarrow> api_failure + unit" where
  "reject_client_identity r =
     (if list_ex (\<lambda>k. py_lower k \<in> set identity_params) (req_query r)
         \<or> list_ex (\<lambda>(k, v). py_lower k \<in> set identity_headers) (req_headers r)
      then Inl (Api ((plain_error 400 ''CLIENT_IDENTITY_REJECTED'' ''Identity is taken from the bearer credential'')
             \<lparr>err_action := ''fix_request''\<rparr>))
      else Inr ())"

definition challenge :: "(string \<times> string) list" where
  "challenge = [(''WWW-Authenticate'', ''Bearer'')]"

definition invalid_credential :: api_failure where
  "invalid_credential = Api ((plain_error 401 ''INVALID_CREDENTIAL'' ''The bearer credential is not valid'')
     \<lparr>err_action := ''authenticate'', err_headers := challenge\<rparr>)"

text \<open>\<open>header.partition(" ")\<close> without its middle part.\<close>

definition partition_space :: "string \<Rightarrow> string \<times> string" where
  "partition_space s = (takeWhile (\<lambda>c. c \<noteq> CHR '' '') s, tl (dropWhile (\<lambda>c. c \<noteq> CHR '' '') s))"

definition bearer_token :: "string \<Rightarrow> string option" where
  "bearer_token header =
     (let (scheme, rest) = partition_space header; token = py_strip rest
      in if py_lower scheme \<noteq> ''bearer'' \<or> token = [] \<or> CHR '' '' \<in> set token then None else Some token)"

definition credential_matches :: "string \<Rightarrow> db \<Rightarrow> credential_row \<Rightarrow> bool" where
  "credential_matches h d c \<longleftrightarrow> crd_hash c = h \<and> crd_revoked c = None
     \<and> list_ex (\<lambda>p. prn_id p = crd_principal c) (principals d)"

definition principal_by :: "uuid \<Rightarrow> db \<Rightarrow> principal_row option" where
  "principal_by i d = fetch (\<lambda>p. prn_id p = i) (principals d)"

definition current_principal :: "(string \<Rightarrow> string) \<Rightarrow> http_request \<Rightarrow> db \<Rightarrow> api_failure + principal" where
  "current_principal hash_token r d = rbind (reject_client_identity r) (\<lambda>_.
     let header = (case map_of (req_headers r) ''authorization'' of None \<Rightarrow> [] | Some h \<Rightarrow> h)
     in if header = []
        then Inl (Api ((plain_error 401 ''AUTHENTICATION_REQUIRED'' ''A bearer credential is required'')
               \<lparr>err_action := ''authenticate'', err_headers := challenge\<rparr>))
        else case bearer_token header of
               None \<Rightarrow> Inl invalid_credential
             | Some token \<Rightarrow>
                 (case fetch (credential_matches (hash_token token) d) (credentials d) of
                    None \<Rightarrow> Inl invalid_credential
                  | Some c \<Rightarrow> (case principal_by (crd_principal c) d of
                      None \<Rightarrow> Inl invalid_credential
                    | Some p \<Rightarrow> Inr \<lparr>pri_id = prn_id p, pri_kind = prn_kind p\<rparr>)))"

definition lock_active_principal :: "principal \<Rightarrow> db \<Rightarrow> api_failure + unit" where
  "lock_active_principal p d = (case principal_by (pri_id p) d of
       None \<Rightarrow> Inl invalid_credential
     | Some r \<Rightarrow> if prn_merged_into r \<noteq> None then Inl invalid_credential else Inr ())"

definition new_credential :: "uuid \<Rightarrow> uuid \<Rightarrow> string \<Rightarrow> time \<Rightarrow> credential_row" where
  "new_credential cid p h now = \<lparr>crd_id = cid, crd_principal = p, crd_hash = h, crd_created = now, crd_revoked = None\<rparr>"

definition create_guest_principal ::
    "(string \<Rightarrow> string) \<Rightarrow> uuid \<Rightarrow> uuid \<Rightarrow> string \<Rightarrow> time \<Rightarrow> db \<Rightarrow> api_failure + (principal \<times> string) \<times> db"
where
  "create_guest_principal hash_token pid cid random now d =
     (let token = mint_token random in
      if list_ex (\<lambda>p. prn_id p = pid) (principals d)
         \<or> list_ex (\<lambda>c. crd_id c = cid \<or> crd_hash c = hash_token token) (credentials d)
      then Inl (Internal IntegrityError)
      else Inr ((\<lparr>pri_id = pid, pri_kind = ''guest''\<rparr>, token),
        d\<lparr>principals := principals d @ [\<lparr>prn_id = pid, prn_kind = ''guest'', prn_created = now,
             prn_google_sub = None, prn_merged_into = None, prn_merged_at = None\<rparr>],
          credentials := credentials d @ [new_credential cid pid (hash_token token) now]\<rparr>))"

section \<open>Ownership\<close>

definition not_found :: api_failure where
  "not_found = Api (plain_error 404 ''NOT_FOUND'' ''The requested resource was not found'')"

definition owned_rows :: "('r \<Rightarrow> uuid) \<Rightarrow> principal \<Rightarrow> 'r list \<Rightarrow> 'r list" where
  "owned_rows owner p t = filter (\<lambda>r. owner r = pri_id p) t"

definition load_owned :: "('r \<Rightarrow> uuid) \<Rightarrow> ('r \<Rightarrow> uuid) \<Rightarrow> uuid \<Rightarrow> principal \<Rightarrow> 'r list \<Rightarrow> api_failure + 'r" where
  "load_owned owner ident i p t =
     (case fetch (\<lambda>r. ident r = i) (owned_rows owner p t) of None \<Rightarrow> Inl not_found | Some r \<Rightarrow> Inr r)"

section \<open>Google identities\<close>

record verified_identity =
  vi_provider :: string
  vi_subject :: string

definition GOOGLE_ISSUERS :: "string list" where
  "GOOGLE_ISSUERS = [''accounts.google.com'', ''https://accounts.google.com'']"

definition InvalidIdToken :: exn where
  "InvalidIdToken = OtherError ''InvalidIdToken''"

text \<open>
  \<open>verify_oauth2\<close> is the library's verification for the configured audience; \<open>None\<close> is a raised
  \<open>ValueError\<close> or \<open>GoogleAuthError\<close>. Membership in the set of issuers hashes the value, so a list or an
  object raises \<open>TypeError\<close>.
\<close>

definition google_verify :: "(string \<Rightarrow> json option) \<Rightarrow> string \<Rightarrow> exn + verified_identity" where
  "google_verify verify_oauth2 token = (case verify_oauth2 token of
       Some (JObj kvs) \<Rightarrow>
         (case jget (JObj kvs) ''iss'' of
            Some (JArr _) \<Rightarrow> Inl TypeError
          | Some (JObj _) \<Rightarrow> Inl TypeError
          | Some (JStr iss) \<Rightarrow>
              if iss \<notin> set GOOGLE_ISSUERS then Inl InvalidIdToken
              else (case jget (JObj kvs) ''sub'' of
                      Some (JStr s) \<Rightarrow> if s = [] then Inl InvalidIdToken
                        else Inr \<lparr>vi_provider = ''google'', vi_subject = s\<rparr>
                    | _ \<Rightarrow> Inl InvalidIdToken)
          | _ \<Rightarrow> Inl InvalidIdToken)
     | _ \<Rightarrow> Inl InvalidIdToken)"

section \<open>Linking\<close>

definition ACCOUNT_KIND :: string where
  "ACCOUNT_KIND = ''account''"

record link_outcome =
  lnk_principal :: uuid
  lnk_merged :: nat
  lnk_credential :: "string option"

definition already_linked :: api_failure where
  "already_linked = Api (plain_error 409 ''ACCOUNT_ALREADY_LINKED''
     ''This principal is already linked to a different account'')"

definition transfer_saved_reports :: "uuid \<Rightarrow> uuid \<Rightarrow> db \<Rightarrow> nat \<times> db" where
  "transfer_saved_reports from_p to_p d =
     (let already = map sav_report_id (filter (\<lambda>s. sav_owner s = to_p) (saved_reports d));
          kept = delete_where (\<lambda>s. sav_owner s = from_p \<and> sav_report_id s \<in> set already) (saved_reports d)
      in (count_where (\<lambda>s. sav_owner s = from_p) kept,
          d\<lparr>saved_reports := update_where (\<lambda>s. sav_owner s = from_p) (\<lambda>s. s\<lparr>sav_owner := to_p\<rparr>) kept\<rparr>))"

definition continue_as ::
    "(string \<Rightarrow> string) \<Rightarrow> uuid \<Rightarrow> string \<Rightarrow> time \<Rightarrow> uuid \<Rightarrow> uuid \<Rightarrow> db \<Rightarrow> api_failure + link_outcome \<times> db"
where
  "continue_as hash_token cid random now guest account d =
     (let (merged, d1) = transfer_saved_reports guest account d;
          d2 = d1\<lparr>credentials := update_where (\<lambda>c. crd_principal c = guest \<and> crd_revoked c = None)
                 (\<lambda>c. c\<lparr>crd_revoked := Some now\<rparr>) (credentials d1)\<rparr>;
          d3 = d2\<lparr>principals := update_where (\<lambda>p. prn_id p = guest)
                 (\<lambda>p. p\<lparr>prn_merged_into := Some account, prn_merged_at := Some now\<rparr>) (principals d2)\<rparr>;
          token = mint_token random
      in if list_ex (\<lambda>c. crd_id c = cid \<or> crd_hash c = hash_token token) (credentials d3)
         then Inl (Internal IntegrityError)
         else Inr (\<lparr>lnk_principal = account, lnk_merged = merged, lnk_credential = Some token\<rparr>,
           d3\<lparr>credentials := credentials d3 @ [new_credential cid account (hash_token token) now]\<rparr>))"

definition link_account ::
    "(string \<Rightarrow> string) \<Rightarrow> uuid \<Rightarrow> string \<Rightarrow> time \<Rightarrow> principal \<Rightarrow> verified_identity \<Rightarrow> db \<Rightarrow> api_failure + link_outcome \<times> db"
where
  "link_account hash_token cid random now p identity d =
     (case principal_by (pri_id p) d of
        None \<Rightarrow> Inl (Internal (OtherError ''NoResultFound''))
      | Some caller \<Rightarrow>
          if prn_google_sub caller = Some (vi_subject identity)
          then Inr (\<lparr>lnk_principal = pri_id p, lnk_merged = 0, lnk_credential = None\<rparr>, d)
          else if prn_google_sub caller \<noteq> None then Inl already_linked
          else case fetch (\<lambda>q. prn_google_sub q = Some (vi_subject identity)) (principals d) of
                 None \<Rightarrow> Inr (\<lparr>lnk_principal = pri_id p, lnk_merged = 0, lnk_credential = None\<rparr>,
                   d\<lparr>principals := update_where (\<lambda>q. prn_id q = pri_id p)
                      (\<lambda>q. q\<lparr>prn_google_sub := Some (vi_subject identity), prn_kind := ACCOUNT_KIND\<rparr>) (principals d)\<rparr>)
               | Some account \<Rightarrow> continue_as hash_token cid random now (pri_id p) (prn_id account) d)"

text \<open>The route: the verifier is \<open>None\<close> when no client is configured.\<close>

definition link_principal ::
    "(string \<Rightarrow> string) \<Rightarrow> uuid \<Rightarrow> string \<Rightarrow> time \<Rightarrow> (string \<Rightarrow> json option) option \<Rightarrow> string \<Rightarrow> principal \<Rightarrow> db
       \<Rightarrow> api_failure + link_outcome \<times> db"
where
  "link_principal hash_token cid random now verifier token p d =
     (case verifier of
        None \<Rightarrow> Inl (Api (plain_error 503 ''ACCOUNT_LINK_UNAVAILABLE''
                  ''Account linking is not configured on this server''))
      | Some v \<Rightarrow> (case google_verify v token of
          Inl x \<Rightarrow>
            if x = InvalidIdToken
            then Inl (Api ((plain_error 401 ''INVALID_ID_TOKEN'' ''The identity token could not be verified'')
                   \<lparr>err_action := ''authenticate''\<rparr>))
            else Inl (Internal x)
        | Inr identity \<Rightarrow> link_account hash_token cid random now p identity d))"


section \<open>The accounts invariant\<close>

definition accounts_ok :: "db \<Rightarrow> bool" where
  "accounts_ok d \<longleftrightarrow> distinct (map prn_id (principals d)) \<and> distinct (map crd_hash (credentials d))
     \<and> (\<forall>p \<in> set (principals d). \<forall>q \<in> set (principals d).
          prn_google_sub p \<noteq> None \<longrightarrow> prn_google_sub p = prn_google_sub q \<longrightarrow> p = q)
     \<and> (\<forall>p \<in> set (principals d). \<forall>a. prn_merged_into p = Some a \<longrightarrow> prn_google_sub p = None
          \<and> (\<exists>q \<in> set (principals d). prn_id q = a \<and> prn_google_sub q \<noteq> None))
     \<and> (\<forall>c \<in> set (credentials d). crd_revoked c = None \<longrightarrow>
          (\<exists>p \<in> set (principals d). prn_id p = crd_principal c \<and> prn_merged_into p = None))"

text \<open>
  One committed change: a new guest, a link of a caller that is not merged, or anything that leaves
  principals and credentials alone.
\<close>

inductive account_step :: "(string \<Rightarrow> string) \<Rightarrow> db \<Rightarrow> db \<Rightarrow> bool" for h where
  as_guest: "create_guest_principal h pid cid random now d = Inr (r, e) \<Longrightarrow> account_step h d e"
| as_link: "lock_active_principal p d = Inr () \<Longrightarrow> link_account h cid random now p identity d = Inr (out, e) \<Longrightarrow>
    account_step h d e"
| as_other: "principals e = principals d \<Longrightarrow> credentials e = credentials d \<Longrightarrow> account_step h d e"

interpretation principals_table: keyed prn_id .

lemma accounts_okI:
  assumes "distinct (map prn_id (principals d))" "distinct (map crd_hash (credentials d))"
    "\<And>p q. p \<in> set (principals d) \<Longrightarrow> q \<in> set (principals d) \<Longrightarrow> prn_google_sub p \<noteq> None \<Longrightarrow>
       prn_google_sub p = prn_google_sub q \<Longrightarrow> p = q"
    "\<And>p a. p \<in> set (principals d) \<Longrightarrow> prn_merged_into p = Some a \<Longrightarrow> prn_google_sub p = None
       \<and> (\<exists>q \<in> set (principals d). prn_id q = a \<and> prn_google_sub q \<noteq> None)"
    "\<And>c. c \<in> set (credentials d) \<Longrightarrow> crd_revoked c = None \<Longrightarrow>
       \<exists>p \<in> set (principals d). prn_id p = crd_principal c \<and> prn_merged_into p = None"
  shows "accounts_ok d"
  unfolding accounts_ok_def using assms by blast

lemma accounts_okD:
  assumes "accounts_ok d"
  shows "distinct (map prn_id (principals d))" "distinct (map crd_hash (credentials d))"
    "\<And>p q. p \<in> set (principals d) \<Longrightarrow> q \<in> set (principals d) \<Longrightarrow> prn_google_sub p \<noteq> None \<Longrightarrow>
       prn_google_sub p = prn_google_sub q \<Longrightarrow> p = q"
    "\<And>p a. p \<in> set (principals d) \<Longrightarrow> prn_merged_into p = Some a \<Longrightarrow> prn_google_sub p = None
       \<and> (\<exists>q \<in> set (principals d). prn_id q = a \<and> prn_google_sub q \<noteq> None)"
    "\<And>c. c \<in> set (credentials d) \<Longrightarrow> crd_revoked c = None \<Longrightarrow>
       \<exists>p \<in> set (principals d). prn_id p = crd_principal c \<and> prn_merged_into p = None"
  using assms unfolding accounts_ok_def by blast+

lemma accounts_ok_cong:
  "principals e = principals d \<Longrightarrow> credentials e = credentials d \<Longrightarrow> accounts_ok e = accounts_ok d"
  unfolding accounts_ok_def by simp

lemma guest_keeps_accounts:
  assumes "create_guest_principal h pid cid random now d = Inr (r, e)" "accounts_ok d"
  shows "accounts_ok e"
proof -
  note ok = accounts_okD[OF assms(2)]
  have e: "principals e = principals d @ [\<lparr>prn_id = pid, prn_kind = ''guest'', prn_created = now,
       prn_google_sub = None, prn_merged_into = None, prn_merged_at = None\<rparr>]"
    "credentials e = credentials d @ [new_credential cid pid (h (mint_token random)) now]"
    and fresh: "pid \<notin> prn_id ` set (principals d)" "h (mint_token random) \<notin> crd_hash ` set (credentials d)"
    using assms(1) by (auto simp: create_guest_principal_def Let_def list_ex_iff image_iff split: if_splits)
  show ?thesis
  proof (rule accounts_okI)
    show "distinct (map prn_id (principals e))" "distinct (map crd_hash (credentials e))"
      using ok(1,2) fresh by (simp_all add: e new_credential_def)
  next
    fix p q assume "p \<in> set (principals e)" "q \<in> set (principals e)" "prn_google_sub p \<noteq> None"
      "prn_google_sub p = prn_google_sub q"
    then show "p = q" using ok(3) by (auto simp: e)
  next
    fix p a assume "p \<in> set (principals e)" "prn_merged_into p = Some a"
    then have "p \<in> set (principals d)" by (auto simp: e)
    from ok(4)[OF this \<open>prn_merged_into p = Some a\<close>]
    show "prn_google_sub p = None \<and> (\<exists>q \<in> set (principals e). prn_id q = a \<and> prn_google_sub q \<noteq> None)"
      by (auto simp: e)
  next
    fix c assume "c \<in> set (credentials e)" "crd_revoked c = None"
    then show "\<exists>p \<in> set (principals e). prn_id p = crd_principal c \<and> prn_merged_into p = None"
      using ok(5)[of c] by (auto simp: e new_credential_def)
  qed
qed

text \<open>What a link of a second device does to the three tables.\<close>

lemma continue_as_Inr:
  assumes "continue_as h cid random now g a d = Inr (out, e)"
  shows "out = \<lparr>lnk_principal = a, lnk_merged = fst (transfer_saved_reports g a d), lnk_credential = Some (mint_token random)\<rparr>"
    "principals e = update_where (\<lambda>p. prn_id p = g) (\<lambda>p. p\<lparr>prn_merged_into := Some a, prn_merged_at := Some now\<rparr>) (principals d)"
    "credentials e = update_where (\<lambda>c. crd_principal c = g \<and> crd_revoked c = None)
       (\<lambda>c. c\<lparr>crd_revoked := Some now\<rparr>) (credentials d) @ [new_credential cid a (h (mint_token random)) now]"
    "saved_reports e = saved_reports (snd (transfer_saved_reports g a d))"
    "h (mint_token random) \<notin> crd_hash ` set (credentials d)"
proof -
  show "out = \<lparr>lnk_principal = a, lnk_merged = fst (transfer_saved_reports g a d), lnk_credential = Some (mint_token random)\<rparr>"
    "principals e = update_where (\<lambda>p. prn_id p = g) (\<lambda>p. p\<lparr>prn_merged_into := Some a, prn_merged_at := Some now\<rparr>) (principals d)"
    "credentials e = update_where (\<lambda>c. crd_principal c = g \<and> crd_revoked c = None)
       (\<lambda>c. c\<lparr>crd_revoked := Some now\<rparr>) (credentials d) @ [new_credential cid a (h (mint_token random)) now]"
    "saved_reports e = saved_reports (snd (transfer_saved_reports g a d))"
    using assms by (auto simp: continue_as_def transfer_saved_reports_def Let_def split: if_splits)
  let ?t = "update_where (\<lambda>c. crd_principal c = g \<and> crd_revoked c = None) (\<lambda>c. c\<lparr>crd_revoked := Some now\<rparr>) (credentials d)"
  have "h (mint_token random) \<notin> set (map crd_hash ?t)"
    using assms by (auto simp: continue_as_def transfer_saved_reports_def Let_def list_ex_iff split: if_splits)
  moreover have "map crd_hash ?t = map crd_hash (credentials d)" by (rule map_update_where) simp
  ultimately show "h (mint_token random) \<notin> crd_hash ` set (credentials d)" by simp
qed


lemma claim_keeps_accounts:
  assumes ok: "accounts_ok d" and g: "g \<in> set (principals d)" "prn_merged_into g = None" "prn_google_sub g = None"
    and new: "\<And>q. q \<in> set (principals d) \<Longrightarrow> prn_google_sub q \<noteq> Some s"
    and e: "principals e = update_where (\<lambda>q. prn_id q = prn_id g)
        (\<lambda>q. q\<lparr>prn_google_sub := Some s, prn_kind := k\<rparr>) (principals d)" "credentials e = credentials d"
  shows "accounts_ok e"
proof -
  note ok' = accounts_okD[OF ok]
  define f where "f q = (if prn_id q = prn_id g then q\<lparr>prn_google_sub := Some s, prn_kind := k\<rparr> else q)" for q :: principal_row
  have set_e: "set (principals e) = f ` set (principals d)" by (simp add: e set_update_where f_def)
  have one: "q = g" if "q \<in> set (principals d)" "prn_id q = prn_id g" for q
    using principals_table.row_unique[OF ok'(1) that(1) g(1) that(2)] .
  show ?thesis
  proof (rule accounts_okI)
    show "distinct (map prn_id (principals e))" "distinct (map crd_hash (credentials e))"
      using ok'(1,2) by (simp_all add: e map_update_where)
  next
    fix p q assume "p \<in> set (principals e)" "q \<in> set (principals e)" and sub: "prn_google_sub p \<noteq> None"
      "prn_google_sub p = prn_google_sub q"
    then obtain p' q' where p': "p' \<in> set (principals d)" "p = f p'" and q': "q' \<in> set (principals d)" "q = f q'"
      by (auto simp: set_e)
    show "p = q"
      using one[OF p'(1)] one[OF q'(1)] ok'(3)[OF p'(1) q'(1)] new[OF p'(1)] new[OF q'(1)] sub p'(2) q'(2)
      by (auto simp: f_def split: if_splits)
  next
    fix p a assume "p \<in> set (principals e)" and m: "prn_merged_into p = Some a"
    then obtain p' where p': "p' \<in> set (principals d)" "p = f p'" by (auto simp: set_e)
    have "prn_id p' \<noteq> prn_id g"
    proof
      assume "prn_id p' = prn_id g"
      moreover from one[OF p'(1) this] have "p' = g" .
      ultimately show False using m g(2) by (simp add: p'(2) f_def)
    qed
    then have p: "p = p'" by (simp add: p'(2) f_def)
    obtain q where q: "prn_google_sub p = None" "q \<in> set (principals d)" "prn_id q = a" "prn_google_sub q \<noteq> None"
      using ok'(4)[OF p'(1)] m p by auto
    from q(2-4) have "f q \<in> set (principals e) \<and> prn_id (f q) = a \<and> prn_google_sub (f q) \<noteq> None"
      by (simp add: set_e f_def)
    with q(1) show "prn_google_sub p = None \<and> (\<exists>q \<in> set (principals e). prn_id q = a \<and> prn_google_sub q \<noteq> None)"
      by blast
  next
    fix c assume "c \<in> set (credentials e)" "crd_revoked c = None"
    then obtain q where q: "q \<in> set (principals d)" "prn_id q = crd_principal c" "prn_merged_into q = None"
      using ok'(5) by (auto simp: e)
    then have "f q \<in> set (principals e) \<and> prn_id (f q) = crd_principal c \<and> prn_merged_into (f q) = None"
      by (simp add: set_e f_def)
    then show "\<exists>p \<in> set (principals e). prn_id p = crd_principal c \<and> prn_merged_into p = None" by blast
  qed
qed

lemma continue_keeps_accounts:
  assumes ok: "accounts_ok d" and g: "g \<in> set (principals d)" "prn_google_sub g = None"
    and a: "a \<in> set (principals d)" "prn_google_sub a \<noteq> None"
    and e: "continue_as h cid random now (prn_id g) (prn_id a) d = Inr (out, e)"
  shows "accounts_ok e"
proof -
  note ok' = accounts_okD[OF ok]
  note e' = continue_as_Inr[OF e]
  define f where "f q = (if prn_id q = prn_id g then q\<lparr>prn_merged_into := Some (prn_id a), prn_merged_at := Some now\<rparr> else q)" for q :: principal_row
  have set_e: "set (principals e) = f ` set (principals d)" by (simp add: e'(2) set_update_where f_def)
  have one: "q = g" if "q \<in> set (principals d)" "prn_id q = prn_id g" for q
    using principals_table.row_unique[OF ok'(1) that(1) g(1) that(2)] .
  have ag: "prn_id a \<noteq> prn_id g" using one[OF a(1)] a(2) g(2) by auto
  have a_active: "prn_merged_into a = None" using ok'(4)[OF a(1)] a(2) by (cases "prn_merged_into a") auto
  have fa: "f a = a" using ag by (simp add: f_def)
  show ?thesis
  proof (rule accounts_okI)
    show "distinct (map prn_id (principals e))" using ok'(1) by (simp add: e'(2) map_update_where)
    show "distinct (map crd_hash (credentials e))"
      using ok'(2) e'(5) by (simp add: e'(3) map_update_where new_credential_def image_iff set_update_where)
  next
    fix p q assume "p \<in> set (principals e)" "q \<in> set (principals e)" and sub: "prn_google_sub p \<noteq> None"
      "prn_google_sub p = prn_google_sub q"
    then obtain p' q' where p': "p' \<in> set (principals d)" "p = f p'" and q': "q' \<in> set (principals d)" "q = f q'"
      by (auto simp: set_e)
    have "prn_google_sub p = prn_google_sub p'" "prn_google_sub q = prn_google_sub q'" using p' q' by (auto simp: f_def)
    then show "p = q" using ok'(3)[OF p'(1) q'(1)] sub p'(2) q'(2) by simp
  next
    fix p b assume "p \<in> set (principals e)" and m: "prn_merged_into p = Some b"
    then obtain p' where p': "p' \<in> set (principals d)" "p = f p'" by (auto simp: set_e)
    have "prn_google_sub p = None \<and> (\<exists>q \<in> set (principals d). prn_id q = b \<and> prn_google_sub q \<noteq> None)"
    proof (cases "prn_id p' = prn_id g")
      case True
      then have "p' = g" "b = prn_id a" using one[OF p'(1)] p'(2) m by (simp_all add: f_def)
      then show ?thesis using p'(2) g(2) a by (auto simp: f_def)
    next
      case False
      then show ?thesis using ok'(4)[OF p'(1)] p'(2) m by (simp add: f_def)
    qed
    moreover have "prn_id (f q) = prn_id q \<and> prn_google_sub (f q) = prn_google_sub q" for q by (simp add: f_def)
    ultimately show "prn_google_sub p = None \<and> (\<exists>q \<in> set (principals e). prn_id q = b \<and> prn_google_sub q \<noteq> None)"
      unfolding set_e by (metis imageI)
  next
    fix c assume "c \<in> set (credentials e)" and act: "crd_revoked c = None"
    then consider "c \<in> set (credentials d)" "crd_principal c \<noteq> prn_id g" | "crd_principal c = prn_id a"
      by (auto simp: e'(3) set_update_where new_credential_def)
    then show "\<exists>p \<in> set (principals e). prn_id p = crd_principal c \<and> prn_merged_into p = None"
    proof cases
      case 1
      then obtain q where q: "q \<in> set (principals d)" "prn_id q = crd_principal c" "prn_merged_into q = None"
        using ok'(5) act by blast
      then have "f q = q" using 1(2) by (simp add: f_def)
      with q show ?thesis unfolding set_e by (metis imageI)
    next
      case 2
      with a(1) a_active fa show ?thesis unfolding set_e by (metis imageI)
    qed
  qed
qed

lemma link_cases:
  assumes "link_account h cid random now p identity d = Inr (out, e)"
  obtains (same) r where "principal_by (pri_id p) d = Some r" "lnk_credential out = None" "e = d"
  | (upgrade) r where "principal_by (pri_id p) d = Some r" "prn_google_sub r = None" "lnk_credential out = None"
      "\<And>q. q \<in> set (principals d) \<Longrightarrow> prn_google_sub q \<noteq> Some (vi_subject identity)"
      "e = d\<lparr>principals := update_where (\<lambda>q. prn_id q = pri_id p)
                      (\<lambda>q. q\<lparr>prn_google_sub := Some (vi_subject identity), prn_kind := ACCOUNT_KIND\<rparr>) (principals d)\<rparr>"
  | (device) r account where "principal_by (pri_id p) d = Some r" "prn_google_sub r = None"
      "account \<in> set (principals d)" "prn_google_sub account = Some (vi_subject identity)"
      "continue_as h cid random now (pri_id p) (prn_id account) d = Inr (out, e)"
  using assms unfolding link_account_def
  by (auto split: option.splits if_splits simp: fetch_None_iff dest!: fetch_SomeD)

lemma principal_byD: "principal_by i d = Some r \<Longrightarrow> r \<in> set (principals d) \<and> prn_id r = i"
  unfolding principal_by_def by (drule fetch_SomeD) simp

lemma account_step_ok: "accounts_ok d \<Longrightarrow> account_step h d e \<Longrightarrow> accounts_ok e"
proof (erule account_step.cases)
  fix pid cid random now r d' e'
  assume "accounts_ok d" "d = d'" "e = e'" "create_guest_principal h pid cid random now d' = Inr (r, e')"
  then show ?thesis using guest_keeps_accounts by blast
next
  fix p d' cid random now identity out e'
  assume ok: "accounts_ok d" and eq: "d = d'" "e = e'" and act: "lock_active_principal p d' = Inr ()"
    and l: "link_account h cid random now p identity d' = Inr (out, e')"
  from l show ?thesis
  proof (cases rule: link_cases)
    case (same r)
    then show ?thesis using ok eq by simp
  next
    case (upgrade r)
    note r = principal_byD[OF upgrade(1)]
    have "prn_merged_into r = None"
      using act upgrade(1) by (simp add: lock_active_principal_def split: if_splits)
    then show ?thesis
      using claim_keeps_accounts[of d' r "vi_subject identity" e' ACCOUNT_KIND] upgrade(2,4,5) r ok eq by simp
  next
    case (device r account)
    note r = principal_byD[OF device(1)]
    show ?thesis using continue_keeps_accounts[of d' r account h cid random now out e'] device r ok eq by simp
  qed
next
  fix e' d'
  assume "accounts_ok d" "d = d'" "e = e'" "principals e' = principals d'" "credentials e' = credentials d'"
  then show ?thesis using accounts_ok_cong by blast
qed

interpretation accounts: invariant_system "account_step h" accounts_ok for h
  by unfold_locales (rule account_step_ok)


section \<open>Properties\<close>


definition saved_by :: "uuid \<Rightarrow> db \<Rightarrow> uuid set" where
  "saved_by o' d = sav_report_id ` {s \<in> set (saved_reports d). sav_owner s = o'}"

definition saves_unique :: "db \<Rightarrow> bool" where
  "saves_unique d \<longleftrightarrow> distinct (map (\<lambda>s. (sav_owner s, sav_report_id s)) (saved_reports d))"

lemma saved_by_filter: "saved_by o' d = set (map sav_report_id (filter (\<lambda>s. sav_owner s = o') (saved_reports d)))"
  by (simp add: saved_by_def)

lemma transfer_facts:
  assumes "g \<noteq> a" "saves_unique d" "transfer_saved_reports g a d = (n, e)"
  shows "saved_by a e = saved_by a d \<union> saved_by g d" "saved_by g e = {}" "saves_unique e"
    "\<And>x. x \<noteq> a \<Longrightarrow> x \<noteq> g \<Longrightarrow> filter (\<lambda>s. sav_owner s = x) (saved_reports e) = filter (\<lambda>s. sav_owner s = x) (saved_reports d)"
    "n = card (saved_by g d - saved_by a d)"
proof -
  define already where "already = {sav_report_id s |s. s \<in> set (saved_reports d) \<and> sav_owner s = a}"
  define p where "p s \<longleftrightarrow> sav_owner s = g \<and> sav_report_id s \<in> already" for s :: saved_row
  define kept where "kept = delete_where p (saved_reports d)"
  define f where "f s = (if sav_owner s = g then s\<lparr>sav_owner := a\<rparr> else s)" for s :: saved_row
  have pe: "p = (\<lambda>s. sav_owner s = g \<and> sav_report_id s \<in> set (map sav_report_id (filter (\<lambda>s. sav_owner s = a) (saved_reports d))))"
    by (auto simp: p_def already_def fun_eq_iff)
  have n: "n = count_where (\<lambda>s. sav_owner s = g) kept" and e: "saved_reports e = map f kept"
    using assms(3) by (auto simp: transfer_saved_reports_def Let_def kept_def pe f_def update_where_def)
  have kept: "set kept = {s \<in> set (saved_reports d). \<not> p s}" by (simp add: kept_def)
  show "saved_by a e = saved_by a d \<union> saved_by g d"
  proof (rule set_eqI)
    fix r
    have "r \<in> saved_by a e \<longleftrightarrow> (\<exists>s \<in> set kept. sav_report_id (f s) = r \<and> sav_owner (f s) = a)"
      by (auto simp: saved_by_def e)
    also have "\<dots> \<longleftrightarrow> (\<exists>s \<in> set kept. sav_report_id s = r \<and> (sav_owner s = g \<or> sav_owner s = a))"
      by (auto simp: f_def split: if_splits)
    also have "\<dots> \<longleftrightarrow> r \<in> saved_by a d \<union> saved_by g d"
    proof
      assume "r \<in> saved_by a d \<union> saved_by g d"
      then have "r \<in> already \<or> (\<exists>s \<in> set (saved_reports d). sav_owner s = g \<and> sav_report_id s = r \<and> r \<notin> already)"
        by (auto simp: saved_by_def already_def)
      then show "\<exists>s \<in> set kept. sav_report_id s = r \<and> (sav_owner s = g \<or> sav_owner s = a)"
        using assms(1) by (auto simp: kept p_def already_def)
    qed (auto simp: kept saved_by_def)
    finally show "r \<in> saved_by a e \<longleftrightarrow> r \<in> saved_by a d \<union> saved_by g d" .
  qed
  show "saved_by g e = {}" using assms(1) by (auto simp: saved_by_def e f_def)
  show "filter (\<lambda>s. sav_owner s = x) (saved_reports e) = filter (\<lambda>s. sav_owner s = x) (saved_reports d)"
    if "x \<noteq> a" "x \<noteq> g" for x
  proof -
    have "filter (\<lambda>s. sav_owner s = x) (map f (delete_where p t)) = filter (\<lambda>s. sav_owner s = x) t" for t
      using that by (induction t) (auto simp: f_def p_def)
    then show ?thesis by (simp add: e kept_def)
  qed
  have inj: "inj_on (\<lambda>s. (sav_owner s, sav_report_id s)) (set (saved_reports d))"
    and dist: "distinct (saved_reports d)"
    using assms(2) by (simp_all add: saves_unique_def distinct_map)
  have dk: "distinct kept" using dist by (simp add: kept_def delete_where_def)
  have "inj_on (\<lambda>s. (sav_owner (f s), sav_report_id s)) (set kept)"
  proof (rule inj_onI)
    fix s t assume st: "s \<in> set kept" "t \<in> set kept"
      and eq: "(sav_owner (f s), sav_report_id s) = (sav_owner (f t), sav_report_id t)"
    have "sav_owner s = sav_owner t"
      using st eq by (auto simp: kept f_def p_def already_def split: if_splits)
    with st eq show "s = t" using inj by (auto simp: kept inj_on_def)
  qed
  moreover have "sav_report_id (f s) = sav_report_id s" for s by (simp add: f_def)
  ultimately show "saves_unique e"
    unfolding saves_unique_def e by (simp add: distinct_map dk comp_def inj_on_def)
  have "saved_by g d - saved_by a d = sav_report_id ` set (filter (\<lambda>s. sav_owner s = g) kept)"
    by (auto simp: saved_by_def kept p_def already_def image_iff)
  moreover have "inj_on sav_report_id (set (filter (\<lambda>s. sav_owner s = g) kept))"
    using inj by (auto simp: kept inj_on_def)
  ultimately show "n = card (saved_by g d - saved_by a d)"
    using dk by (simp add: n count_where_def card_image del: set_filter) (simp add: distinct_card[symmetric] del: set_filter)
qed


text \<open>What a link of a second device does to the saved reports.\<close>

lemma link_transfer_facts:
  assumes "link_account h cid random now p identity d = Inr (out, e)" "lnk_credential out = Some t"
    and "accounts_ok d" "saves_unique d"
  shows "saved_by (lnk_principal out) e = saved_by (lnk_principal out) d \<union> saved_by (pri_id p) d"
    and "saved_by (pri_id p) e = {}" and "saves_unique e"
    and "x \<noteq> lnk_principal out \<Longrightarrow> x \<noteq> pri_id p \<Longrightarrow>
      filter (\<lambda>s. sav_owner s = x) (saved_reports e) = filter (\<lambda>s. sav_owner s = x) (saved_reports d)"
    and "lnk_merged out = card (saved_by (pri_id p) d - saved_by (lnk_principal out) d)"
    and "e = d\<lparr>saved_reports := saved_reports e, credentials := credentials e, principals := principals e\<rparr>"
proof -
  have "\<exists>a. a \<noteq> pri_id p \<and> continue_as h cid random now (pri_id p) a d = Inr (out, e)"
    using assms(1)
  proof (cases rule: link_cases)
    case (device r account)
    have "prn_id account \<noteq> pri_id p"
      using principal_byD[OF device(1)] device(2,3,4)
        principals_table.row_unique[OF accounts_okD(1)[OF assms(3)], of r account] by auto
    with device(5) show ?thesis by blast
  qed (use assms(2) in simp_all)
  then obtain a where a: "a \<noteq> pri_id p" "continue_as h cid random now (pri_id p) a d = Inr (out, e)" by blast
  obtain n d1 where tr: "transfer_saved_reports (pri_id p) a d = (n, d1)" by (cases "transfer_saved_reports (pri_id p) a d")
  note c = continue_as_Inr[OF a(2)]
  note f = transfer_facts[OF a(1)[symmetric] assms(4) tr]
  have out: "lnk_principal out = a" "lnk_merged out = n" and s: "saved_reports e = saved_reports d1"
    using c(1,4) tr by simp_all
  have sb: "saved_by y e = saved_by y d1" "saves_unique e = saves_unique d1" for y
    by (simp_all add: saved_by_def saves_unique_def s)
  show "saved_by (lnk_principal out) e = saved_by (lnk_principal out) d \<union> saved_by (pri_id p) d"
    "saved_by (pri_id p) e = {}" "saves_unique e"
    "lnk_merged out = card (saved_by (pri_id p) d - saved_by (lnk_principal out) d)"
    using f(1,2,3,5) by (simp_all add: sb out)
  show "filter (\<lambda>s. sav_owner s = x) (saved_reports e) = filter (\<lambda>s. sav_owner s = x) (saved_reports d)"
    if "x \<noteq> lnk_principal out" "x \<noteq> pri_id p"
    using f(4)[of x] that by (simp add: s out)
  show "e = d\<lparr>saved_reports := saved_reports e, credentials := credentials e, principals := principals e\<rparr>"
    using a(2) by (auto simp: continue_as_def transfer_saved_reports_def Let_def split: if_splits)
qed

text \<open>Continuing as an existing account moves exactly the guest's saved reports. When a link hands out
  a credential for another principal, that principal's saved reports become its own and the guest's
  without duplicates, the guest has none left, the saves of everyone else are untouched, the outcome
  counts the saves that moved, and no other table changes (investigations, uploads, captures, reports,
  jobs and quotas stay with the guest).\<close>

theorem link_moves_saved_reports:
  assumes "link_account h cid random now p identity d = Inr (out, e)" "lnk_credential out = Some t"
    and "accounts_ok d" "saves_unique d"
  shows "saved_by (lnk_principal out) e = saved_by (lnk_principal out) d \<union> saved_by (pri_id p) d
    \<and> saved_by (pri_id p) e = {} \<and> saves_unique e
    \<and> (\<forall>x. x \<noteq> lnk_principal out \<longrightarrow> x \<noteq> pri_id p \<longrightarrow>
          filter (\<lambda>s. sav_owner s = x) (saved_reports e) = filter (\<lambda>s. sav_owner s = x) (saved_reports d))
    \<and> lnk_merged out = card (saved_by (pri_id p) d - saved_by (lnk_principal out) d)
    \<and> e = d\<lparr>saved_reports := saved_reports e, credentials := credentials e, principals := principals e\<rparr>"
  using link_transfer_facts[OF assms] by blast

text \<open>Every authenticated caller holds a credential that is not revoked.\<close>

lemma current_principal_Inr:
  assumes "current_principal h r d = Inr q"
  obtains c where "c \<in> set (credentials d)" "crd_revoked c = None" "crd_principal c = pri_id q"
proof -
  obtain t c p where c: "fetch (credential_matches (h t) d) (credentials d) = Some c"
    "principal_by (crd_principal c) d = Some p" "q = \<lparr>pri_id = prn_id p, pri_kind = prn_kind p\<rparr>"
    using assms unfolding current_principal_def
    by (auto simp: rbind_Inr_iff Let_def split: option.splits if_splits)
  with fetch_SomeD[OF c(1)] principal_byD[OF c(2)] show thesis
    by (intro that[of c]) (auto simp: credential_matches_def)
qed

lemma bearer_token_ok:
  assumes "t \<noteq> []" "\<forall>c \<in> set t. \<not> is_space c"
  shows "bearer_token (''Bearer '' @ t) = Some t"
proof -
  have "CHR '' '' \<notin> set t" using assms(2) by (auto simp: is_space_def cval_def)
  moreover have "py_strip t = t" using assms(2) by (simp add: py_strip_def strip_by_id)
  moreover have "py_lower ''Bearer'' = ''bearer''" by code_simp
  ultimately show ?thesis using assms(1) by (simp add: bearer_token_def partition_space_def)
qed

lemma authorization_allowed:
  "reject_client_identity \<lparr>req_query = [], req_headers = [(''authorization'', v)]\<rparr> = Inr ()"
proof -
  have "py_lower ''authorization'' = ''authorization''"
    by (simp add: py_lower_def to_lower_def cval_def Let_def)
  then show ?thesis by (simp add: reject_client_identity_def identity_headers_def)
qed

text \<open>Who can still authenticate after such a link.\<close>

lemma merged_guest_facts:
  assumes "link_account h cid random now p identity d = Inr (out, e)" "lnk_credential out = Some t"
    and "accounts_ok d" "\<forall>c \<in> set random. \<not> is_space c"
  shows "current_principal h r e = Inr q \<Longrightarrow> pri_id q \<noteq> pri_id p"
    and "lock_active_principal p e = Inl invalid_credential"
    and "\<exists>q. current_principal h \<lparr>req_query = [], req_headers = [(''authorization'', ''Bearer '' @ t)]\<rparr> e = Inr q
           \<and> pri_id q = lnk_principal out"
proof -
  obtain g account where l: "principal_by (pri_id p) d = Some g" "prn_google_sub g = None"
      "account \<in> set (principals d)" "prn_google_sub account = Some (vi_subject identity)"
      "continue_as h cid random now (pri_id p) (prn_id account) d = Inr (out, e)"
    using assms(1,2) by (cases rule: link_cases) auto
  note g = principal_byD[OF l(1)]
  note c = continue_as_Inr[OF l(5)]
  have ne: "prn_id account \<noteq> pri_id p"
    using g l(2,3,4) principals_table.row_unique[OF accounts_okD(1)[OF assms(3)], of g account] by auto
  show "pri_id q \<noteq> pri_id p" if q: "current_principal h r e = Inr q"
  proof -
    obtain k where k: "k \<in> set (credentials e)" "crd_revoked k = None" "crd_principal k = pri_id q"
      using q by (rule current_principal_Inr)
    from k(1,2) have "crd_principal k \<noteq> pri_id p \<or> crd_principal k = prn_id account"
      unfolding c(3) set_append Un_iff set_update_where new_credential_def by (elim disjE imageE) (simp_all split: if_splits)
    with k(3) ne show ?thesis by auto
  qed
  have "principal_by (pri_id p) e = map_option (\<lambda>r. if prn_id r = pri_id p
      then r\<lparr>prn_merged_into := Some (prn_id account), prn_merged_at := Some now\<rparr> else r) (principal_by (pri_id p) d)"
    unfolding principal_by_def c(2) by (rule principals_table.fetch_update) simp
  then show "lock_active_principal p e = Inl invalid_credential"
    using l(1) g by (simp add: lock_active_principal_def)
  have t: "t = mint_token random" using c(1) assms(2) by simp
  let ?c = "new_credential cid (prn_id account) (h t) now"
  have acc: "\<exists>q. principal_by (prn_id account) e = Some q \<and> prn_id q = prn_id account"
  proof -
    have "map prn_id (principals e) = map prn_id (principals d)" by (simp add: c(2) map_update_where)
    then have "prn_id ` set (principals e) = prn_id ` set (principals d)" by (metis list.set_map)
    then have "prn_id account \<in> prn_id ` set (principals e)" using l(3) by simp
    then have "principal_by (prn_id account) e \<noteq> None" by (auto simp: principal_by_def fetch_None_iff)
    then show ?thesis using principal_byD by blast
  qed
  have "fetch (credential_matches (h t) e) (credentials e) = Some ?c"
  proof (rule fetch_unique)
    show "?c \<in> set (credentials e)" by (simp add: c(3) t)
    show "credential_matches (h t) e ?c"
      using acc principal_byD by (fastforce simp: credential_matches_def new_credential_def list_ex_iff)
    fix x assume "x \<in> set (credentials e)" "credential_matches (h t) e x"
    then show "x = ?c" using c(5) by (auto simp: c(3) t credential_matches_def set_update_where image_iff split: if_splits)
  qed
  moreover have "bearer_token (''Bearer '' @ t) = Some t"
    using assms(4) by (intro bearer_token_ok) (auto simp: t mint_token_def is_space_def cval_def)
  ultimately show "\<exists>q. current_principal h \<lparr>req_query = [], req_headers = [(''authorization'', ''Bearer '' @ t)]\<rparr> e = Inr q
           \<and> pri_id q = lnk_principal out"
    using acc c(1) authorization_allowed[of "''Bearer '' @ t"]
    by (auto simp: current_principal_def new_credential_def)
qed

text \<open>C35: After a device continues as an account its old guest is locked out. Once a link has handed out a
  credential, no request authenticates as the guest any more and every operation that locks the caller's
  principal refuses it, while the new token authenticates as the account.\<close>

theorem merged_guest_locked_out:
  assumes "link_account h cid random now p identity d = Inr (out, e)" "lnk_credential out = Some t"
    and "accounts_ok d" "\<forall>c \<in> set random. \<not> is_space c"
  shows "(\<forall>r q. current_principal h r e = Inr q \<longrightarrow> pri_id q \<noteq> pri_id p)
    \<and> lock_active_principal p e = Inl invalid_credential
    \<and> (\<exists>q. current_principal h \<lparr>req_query = [], req_headers = [(''authorization'', ''Bearer '' @ t)]\<rparr> e = Inr q
           \<and> pri_id q = lnk_principal out)"
  using merged_guest_facts[OF assms] by blast


text \<open>
  \<open>link_account\<close> does not look at \<open>merged_into\<close> of its caller. A caller that another request
  merged after authentication can still claim a subject that no principal has; its credentials are
  revoked already, and every later device that continues with that subject receives a credential of a
  principal that every guarded operation refuses.
\<close>

lemma merged_caller_strands_subject:
  assumes "principal_by (pri_id p) d = Some r" "prn_merged_into r \<noteq> None" "prn_google_sub r = None"
    and "\<And>q. q \<in> set (principals d) \<Longrightarrow> prn_google_sub q \<noteq> Some (vi_subject identity)"
  shows "\<exists>out e. link_account h cid random now p identity d = Inr (out, e) \<and> lnk_credential out = None
    \<and> lnk_principal out = pri_id p \<and> lock_active_principal p e = Inl invalid_credential"
proof -
  have "fetch (\<lambda>q. prn_google_sub q = Some (vi_subject identity)) (principals d) = None"
    using assms(4) by (simp add: fetch_None_iff)
  moreover have "principal_by (pri_id p) (d\<lparr>principals := update_where (\<lambda>q. prn_id q = pri_id p)
        (\<lambda>q. q\<lparr>prn_google_sub := Some s, prn_kind := k\<rparr>) (principals d)\<rparr>)
      = map_option (\<lambda>q. if prn_id q = pri_id p then q\<lparr>prn_google_sub := Some s, prn_kind := k\<rparr> else q)
          (principal_by (pri_id p) d)" for s k
    unfolding principal_by_def by (simp add: principals_table.fetch_update)
  ultimately show ?thesis
    using assms(1,2,3) by (simp add: link_account_def lock_active_principal_def)
qed

section \<open>Example\<close>

text \<open>Guest 1 becomes an account on one device; guest 2 saves a report and continues as it.\<close>

definition ex_identity :: verified_identity where
  "ex_identity = \<lparr>vi_provider = ''google'', vi_subject = ''sub''\<rparr>"

definition ex_principal :: "uuid \<Rightarrow> string option \<Rightarrow> principal_row" where
  "ex_principal i s = \<lparr>prn_id = i, prn_kind = (if s = None then ''guest'' else ''account''), prn_created = 0,
     prn_google_sub = s, prn_merged_into = None, prn_merged_at = None\<rparr>"

definition ex_accounts :: "saved_row list \<Rightarrow> db" where
  "ex_accounts saves = empty_db\<lparr>principals := [ex_principal 1 (Some ''sub''), ex_principal 2 None],
     credentials := [new_credential 3 1 ''ovk_a'' 0, new_credential 4 2 ''ovk_b'' 0], saved_reports := saves\<rparr>"

lemma ex_accounts_ok: "accounts_ok (ex_accounts saves)"
  by (simp add: accounts_ok_def ex_accounts_def ex_principal_def new_credential_def)

definition ex_linked :: "saved_row list \<Rightarrow> nat \<times> db" where
  "ex_linked saves = (fst (transfer_saved_reports 2 1 (ex_accounts saves)),
     (snd (transfer_saved_reports 2 1 (ex_accounts saves)))\<lparr>
       principals := [ex_principal 1 (Some ''sub''), (ex_principal 2 None)\<lparr>prn_merged_into := Some 1, prn_merged_at := Some 9\<rparr>],
       credentials := [new_credential 3 1 ''ovk_a'' 0, (new_credential 4 2 ''ovk_b'' 0)\<lparr>crd_revoked := Some 9\<rparr>,
         new_credential 5 1 ''ovk_c'' 9]\<rparr>)"

lemma ex_link:
  "link_account id 5 ''c'' 9 \<lparr>pri_id = 2, pri_kind = ''guest''\<rparr> ex_identity (ex_accounts saves)
   = Inr (\<lparr>lnk_principal = 1, lnk_merged = fst (ex_linked saves), lnk_credential = Some ''ovk_c''\<rparr>, snd (ex_linked saves))"
  by (simp add: link_account_def principal_by_def ex_accounts_def ex_principal_def ex_identity_def continue_as_def
      transfer_saved_reports_def Let_def mint_token_def new_credential_def ex_linked_def)



definition ex_save :: "report_version \<Rightarrow> uuid \<Rightarrow> uuid \<Rightarrow> saved_row" where
  "ex_save rep o' i = \<lparr>sav_owner = o', sav_report_id = i, sav_investigation = 9, sav_version = 1,
     sav_report = rep, sav_at = 0\<rparr>"

theorem link_moves_saved_reports_witness:
  "\<forall>rep. saved_by 1 (snd (ex_linked [ex_save rep 1 7, ex_save rep 2 7, ex_save rep 2 8])) = {7, 8}
    \<and> fst (ex_linked [ex_save rep 1 7, ex_save rep 2 7, ex_save rep 2 8]) = 1"
proof
  fix rep
  let ?s = "[ex_save rep 1 7, ex_save rep 2 7, ex_save rep 2 8]"
  have u: "saves_unique (ex_accounts ?s)" by (simp add: saves_unique_def ex_accounts_def ex_save_def)
  have b: "saved_by 1 (ex_accounts ?s) = {7}" "saved_by 2 (ex_accounts ?s) = {7, 8}"
    unfolding saved_by_filter by (simp_all add: ex_accounts_def ex_save_def)
  have o: "lnk_credential \<lparr>lnk_principal = 1, lnk_merged = fst (ex_linked ?s), lnk_credential = Some ''ovk_c''\<rparr> = Some ''ovk_c''"
    by simp
  from link_moves_saved_reports[OF ex_link o ex_accounts_ok u]
  show "saved_by 1 (snd (ex_linked ?s)) = {7, 8} \<and> fst (ex_linked ?s) = 1"
    by (auto simp: b insert_Diff_if)
qed

theorem merged_guest_locked_out_witness:
  "lock_active_principal \<lparr>pri_id = 2, pri_kind = ''guest''\<rparr> (snd (ex_linked [])) = Inl invalid_credential
    \<and> (\<exists>q. current_principal id \<lparr>req_query = [], req_headers = [(''authorization'', ''Bearer ovk_c'')]\<rparr>
          (snd (ex_linked [])) = Inr q \<and> pri_id q = 1)"
proof -
  have s: "\<forall>c \<in> set ''c''. \<not> is_space c" by (simp add: is_space_def cval_def)
  have o: "lnk_credential \<lparr>lnk_principal = 1, lnk_merged = fst (ex_linked []), lnk_credential = Some ''ovk_c''\<rparr> = Some ''ovk_c''"
    by simp
  from merged_guest_locked_out[OF ex_link o ex_accounts_ok s] show ?thesis by simp
qed

end
