(* ===== verification/Worker.thy ===== *)
theory Worker
  imports Captures
begin

text \<open>
  The worker, \<open>backend/services/worker/runtime.py\<close>, with the stage publication of
  \<open>pipeline/publish.py\<close>, the handler protocol of \<open>jobs/handlers.py\<close> and the first handler,
  \<open>pipeline/intake.py\<close>. One execution is a sequence of transactions: between two of them anything may
  commit (\<open>xe_others\<close>), and every transaction has its own clocks. A handler is any function of the
  claimed job and the database; so is the publication of the evidence stages. The fault-injection
  checkpoints, which do nothing in production, and the logging are left out. The theorems show that a
  worker only ever takes queue steps, settles the job it executes, and survives every handler.
\<close>

section \<open>Handlers\<close>

text \<open>
  What a handler returns: a plain result or a \<open>StageResult\<close> with its callback, and the successors it
  staged with \<open>enqueue_after_publish\<close>. \<open>Interrupted\<close> is the cancellation of the worker's task.
\<close>

record stage_result =
  sr_result :: json
  sr_on_publish :: "(db \<Rightarrow> exn + db) option"

datatype handler_end =
    Returned stage_result "(stage_key \<times> json) list"
  | Threw exn
  | Interrupted

type_synonym job_handler = "claimed_job \<Rightarrow> db \<Rightarrow> handler_end \<times> db"

text \<open>\<open>JobContext.heartbeat\<close>: the lease is extended; an observed cancellation request raises.\<close>

definition context_heartbeat :: "clk \<Rightarrow> lease \<Rightarrow> rat \<Rightarrow> db \<Rightarrow> (exn + unit) \<times> db" where
  "context_heartbeat c l lease_seconds d = (case heartbeat c l lease_seconds d of
       Inl x \<Rightarrow> (Inl x, d)
     | Inr (cancelled, e) \<Rightarrow> (if cancelled then Inl CancellationRequested else Inr (), e))"

definition INTAKE_STAGE :: string where
  "INTAKE_STAGE = ''intake''"

definition investigation_key :: "(string \<Rightarrow> string) \<Rightarrow> string \<Rightarrow> uuid \<Rightarrow> stage_key" where
  "investigation_key sha stage i =
     \<lparr>key_version = 1, key_stage = stage, key_input_hash = sha (''investigation:'' @ str_uuid i)\<rparr>"

definition intake_stage_key :: "(string \<Rightarrow> string) \<Rightarrow> uuid \<Rightarrow> stage_key" where
  "intake_stage_key sha i = investigation_key sha INTAKE_STAGE i"

definition media_stage_key :: "(string \<Rightarrow> string) \<Rightarrow> uuid \<Rightarrow> stage_key" where
  "media_stage_key sha i = investigation_key sha ''media_validation'' i"

definition intake_payload :: "uuid \<Rightarrow> uuid \<Rightarrow> json" where
  "intake_payload investigation owner =
     JObj [(''investigation_id'', JStr (str_uuid investigation)), (''owner_id'', JStr (str_uuid owner))]"

definition dispatch :: "(string \<Rightarrow> string) \<Rightarrow> clk \<Rightarrow> uuid \<Rightarrow> uuid \<Rightarrow> uuid \<Rightarrow> db \<Rightarrow> exn + db" where
  "dispatch sha c new_id investigation owner d =
     rbind (enqueue c new_id (intake_stage_key sha investigation) (intake_payload investigation owner) (Some owner) d)
       (\<lambda>(_, e). Inr e)"

definition intake_stage :: "(string \<Rightarrow> string) \<Rightarrow> job_handler" where
  "intake_stage sha job d =
     (case (payload_identifier (cj_payload job) ''investigation_id'', payload_identifier (cj_payload job) ''owner_id'') of
        (Some i, Some owner) \<Rightarrow>
          (case fetch (\<lambda>v. inv_id v = i \<and> inv_owner v = owner) (investigations d) of
             None \<Rightarrow> (Threw (Retryable NonRetriableInput), d)
           | Some v \<Rightarrow>
               (Returned
                  \<lparr>sr_result = JObj [(''investigation_id'', JStr (str_uuid i)), (''stage'', JStr INTAKE_STAGE),
                     (''coverage'', JObj [(''status'', JStr ''not_started'')])], sr_on_publish = None\<rparr>
                  (if inv_source_kind v = ''upload'' then [(media_stage_key sha i, intake_payload i owner)] else []), d))
      | _ \<Rightarrow> (Threw (Retryable NonRetriableInput), d))"

section \<open>Publication\<close>

definition EVIDENCE_STAGES :: "string list" where
  "EVIDENCE_STAGES = [''retrieval'', ''assessment'', ''reanalysis'']"

definition publish_stage ::
    "(clk \<Rightarrow> claimed_job \<Rightarrow> json \<Rightarrow> db \<Rightarrow> exn + published_result \<times> db) \<Rightarrow> (string \<Rightarrow> string) \<Rightarrow> clk \<Rightarrow> (nat \<Rightarrow> uuid)
       \<Rightarrow> claimed_job \<Rightarrow> stage_result \<Rightarrow> (stage_key \<times> json) list \<Rightarrow> db \<Rightarrow> exn + published_result option \<times> db"
where
  "publish_stage publish_evidence sha c gen job r successors d =
     (let on_publish = (case sr_on_publish r of None \<Rightarrow> Inr | Some f \<Rightarrow> f) in
      if key_stage (cj_key job) \<in> set EVIDENCE_STAGES
      then if sr_on_publish r \<noteq> None then Inl TypeError
           else rbind (publish_evidence c job (sr_result r) d) (\<lambda>(pr, e). Inr (Some pr, e))
      else if successors \<noteq> []
      then rbind (publish c gen (cj_lease job) (sr_result r) on_publish successors d) (\<lambda>(pr, e). Inr (Some pr, e))
      else publish_capture_stage sha c gen job (sr_result r) on_publish d)"

section \<open>Executing one job\<close>

record exec_env =
  xe_clk :: "nat \<Rightarrow> clk"
  xe_others :: "nat \<Rightarrow> db \<Rightarrow> db"
  xe_gen :: "nat \<Rightarrow> uuid"
  xe_jitter :: rat
  xe_sha :: "string \<Rightarrow> string"
  xe_publish_evidence :: "clk \<Rightarrow> claimed_job \<Rightarrow> json \<Rightarrow> db \<Rightarrow> exn + published_result \<times> db"

datatype job_report =
    Cancelled_Early | Lost_Early | Cancelled_Now | Lease_Gone | Failed_Now | Retried_Now bool
  | Handed_Back bool | Published_Now | Publish_Refused string

text \<open>\<open>SQLAlchemyError, OSError, TimeoutError\<close>\<close>

definition INFRASTRUCTURE_ERRORS :: "exn list" where
  "INFRASTRUCTURE_ERRORS = [Infrastructure, IntegrityError]"

fun exn_name :: "exn \<Rightarrow> string" where
  "exn_name LeaseLost = ''LeaseLost''"
| "exn_name (PublishRejected _) = ''PublishRejected''"
| "exn_name CancellationRequested = ''CancellationRequested''"
| "exn_name (Retryable e) = error_name e"
| "exn_name Infrastructure = ''SQLAlchemyError''"
| "exn_name IntegrityError = ''IntegrityError''"
| "exn_name ValueError = ''ValueError''"
| "exn_name KeyError = ''KeyError''"
| "exn_name TypeError = ''TypeError''"
| "exn_name LookupError = ''LookupError''"
| "exn_name (OtherError n) = n"

definition release_lease :: "exec_env \<Rightarrow> nat \<Rightarrow> lease \<Rightarrow> db \<Rightarrow> (exn + bool) \<times> db" where
  "release_lease env n l d =
     (case release (xe_clk env n) l (xe_others env n d) of
        Inl x \<Rightarrow> (if x \<in> set INFRASTRUCTURE_ERRORS then Inr False else Inl x, xe_others env n d)
      | Inr (ok, e) \<Rightarrow> (Inr ok, e))"

text \<open>\<open>_retry\<close>: the claim predates an id the handler recorded, so an unknown outcome reads the row again.\<close>

definition retry_or_fail :: "retry_policy \<Rightarrow> exec_env \<Rightarrow> claimed_job \<Rightarrow> retryable_error \<Rightarrow> db \<Rightarrow> (exn + job_report) \<times> db" where
  "retry_or_fail p env job err d =
     (let l = cj_lease job; d0 = xe_others env 3 d;
          recorded = (cj_request_id job \<noteq> None \<or> error_class err = UNKNOWN_OUTCOME
             \<and> (case get (lease_job l) d0 of None \<Rightarrow> False | Some r \<Rightarrow> rec_request_id r \<noteq> None));
          decision = decide p (xe_jitter env) err (cj_retry_counts job) recorded; d1 = xe_others env 4 d0
      in case delay_seconds decision of
           None \<Rightarrow>
             (case fail_job (xe_clk env 4) l (error_name err) (Some (decided_class decision)) d1 of
                Inl x \<Rightarrow> (Inl x, d1) | Inr (_, e) \<Rightarrow> (Inr Failed_Now, e))
         | Some delay \<Rightarrow>
             (case retry_job (xe_clk env 4) l (decided_class decision) delay d1 of
                Inl x \<Rightarrow> (Inl x, d1) | Inr (ok, e) \<Rightarrow> (Inr (Retried_Now ok), e)))"

definition cancel_lease :: "exec_env \<Rightarrow> nat \<Rightarrow> lease \<Rightarrow> db \<Rightarrow> (exn + bool) \<times> db" where
  "cancel_lease env n l d = (case cancel (xe_clk env n) l (xe_others env n d) of
       Inl x \<Rightarrow> (Inl x, xe_others env n d) | Inr (ok, e) \<Rightarrow> (Inr ok, e))"

definition handler_raised :: "retry_policy \<Rightarrow> exec_env \<Rightarrow> claimed_job \<Rightarrow> exn \<Rightarrow> db \<Rightarrow> (exn + job_report) \<times> db" where
  "handler_raised p env job x d =
     (case x of
        CancellationRequested \<Rightarrow>
          (case cancel_lease env 3 (cj_lease job) d of (Inl y, e) \<Rightarrow> (Inl y, e) | (Inr _, e) \<Rightarrow> (Inr Cancelled_Now, e))
      | LeaseLost \<Rightarrow> (Inr Lease_Gone, d)
      | Retryable err \<Rightarrow> retry_or_fail p env job err d
      | _ \<Rightarrow>
          if x \<in> set INFRASTRUCTURE_ERRORS
          then (case release_lease env 3 (cj_lease job) d of (Inl y, e) \<Rightarrow> (Inl y, e) | (Inr ok, e) \<Rightarrow> (Inr (Handed_Back ok), e))
          else (case fail_job (xe_clk env 3) (cj_lease job) (exn_name x) None (xe_others env 3 d) of
                  Inl y \<Rightarrow> (Inl y, xe_others env 3 d) | Inr (_, e) \<Rightarrow> (Inr Failed_Now, e)))"

text \<open>The publication block catches a rejection and infrastructure errors; anything else escapes.\<close>

definition publish_result ::
    "exec_env \<Rightarrow> claimed_job \<Rightarrow> stage_result \<Rightarrow> (stage_key \<times> json) list \<Rightarrow> db \<Rightarrow> (exn + job_report) \<times> db"
where
  "publish_result env job r successors d =
     (let d1 = xe_others env 3 d in
      case publish_stage (xe_publish_evidence env) (xe_sha env) (xe_clk env 3) (xe_gen env) job r successors d1 of
        Inr (Some _, e) \<Rightarrow> (Inr Published_Now, e)
      | Inr (None, e) \<Rightarrow>
          (case cancel_lease env 4 (cj_lease job) e of (Inl y, f) \<Rightarrow> (Inl y, f) | (Inr _, f) \<Rightarrow> (Inr Cancelled_Now, f))
      | Inl (PublishRejected reason) \<Rightarrow> (Inr (Publish_Refused reason), d1)
      | Inl x \<Rightarrow>
          if x \<in> set INFRASTRUCTURE_ERRORS
          then (case release_lease env 4 (cj_lease job) d1 of (Inl y, e) \<Rightarrow> (Inl y, e) | (Inr ok, e) \<Rightarrow> (Inr (Handed_Back ok), e))
          else (Inl x, d1))"

text \<open>\<open>asyncio.CancelledError\<close>, which ends the worker's task after the lease was handed back.\<close>

definition CancelledError :: exn where
  "CancelledError = OtherError ''CancelledError''"

definition execute :: "retry_policy \<Rightarrow> exec_env \<Rightarrow> job_handler \<Rightarrow> claimed_job \<Rightarrow> db \<Rightarrow> (exn + job_report) \<times> db" where
  "execute p env handler job d =
     (let l = cj_lease job; (started, d1) = start (xe_clk env 0) l (xe_others env 0 d) in
      if \<not> started
      then (case cancel_lease env 1 l d1 of
              (Inl y, e) \<Rightarrow> (Inl y, e)
            | (Inr ok, e) \<Rightarrow> (Inr (if ok then Cancelled_Early else Lost_Early), e))
      else case handler job (xe_others env 2 d1) of
             (Threw x, d2) \<Rightarrow> handler_raised p env job x d2
           | (Returned r successors, d2) \<Rightarrow> publish_result env job r successors d2
           | (Interrupted, d2) \<Rightarrow> (Inl CancelledError, snd (release_lease env 3 l d2)))"

section \<open>The polling loop\<close>

record worker_conf =
  wk_id :: string
  wk_lease_seconds :: rat
  wk_poll_seconds :: rat
  wk_idle_max :: "rat option"
  wk_policy :: retry_policy
  wk_handlers :: "(string \<times> job_handler) list"

definition idle_poll_max :: "worker_conf \<Rightarrow> rat" where
  "idle_poll_max w = max (wk_poll_seconds w)
     (case wk_idle_max w of None \<Rightarrow> wk_poll_seconds w | Some m \<Rightarrow> if m = 0 then wk_poll_seconds w else m)"

text \<open>
  One round of the loop: what the scheduler of reconciliation and the maintenance hook did (with
  everything else that committed), the claim's clocks and locked rows, and the execution's environment.
\<close>

record poll_round =
  pr_before :: "db \<Rightarrow> db"
  pr_clk :: clk
  pr_locked :: "uuid \<Rightarrow> bool"
  pr_env :: exec_env

definition handler_for :: "worker_conf \<Rightarrow> string \<Rightarrow> job_handler" where
  "handler_for w stage = (case map_of (wk_handlers w) stage of
       None \<Rightarrow> (\<lambda>job d. (Threw KeyError, d)) | Some h \<Rightarrow> h)"

text \<open>The loop until it is stopped or an exception ends it: the exception, the idle waits, the database.\<close>

fun serve :: "worker_conf \<Rightarrow> rat \<Rightarrow> poll_round list \<Rightarrow> db \<Rightarrow> exn option \<times> rat list \<times> db" where
  "serve w delay [] d = (None, [], d)"
| "serve w delay (r # rs) d =
     (case claim (pr_clk r) (pr_locked r) (wk_id w) (map fst (wk_handlers w)) (wk_lease_seconds w) (pr_before r d) of
        (None, e) \<Rightarrow>
          (let (x, waits, f) = serve w (min (delay * 2) (idle_poll_max w)) rs e in (x, delay # waits, f))
      | (Some job, e) \<Rightarrow>
          (case execute (wk_policy w) (pr_env r) (handler_for w (key_stage (cj_key job))) job e of
             (Inl x, f) \<Rightarrow> (Some x, [], f)
           | (Inr _, f) \<Rightarrow> serve w (wk_poll_seconds w) rs f))"

definition run_worker :: "worker_conf \<Rightarrow> poll_round list \<Rightarrow> db \<Rightarrow> exn option \<times> rat list \<times> db" where
  "run_worker w rounds d = serve w (wk_poll_seconds w) rounds d"


section \<open>A worker takes queue steps only\<close>

lemma queue_run_trans [trans]: "queue_run d e \<Longrightarrow> queue_run e f \<Longrightarrow> queue_run d f"
  by (rule rtranclp_trans)

lemma enqueue_all_run: "enqueue_all c gen n owner ks d = Inr e \<Longrightarrow> queue_run d e"
proof (induction c gen n owner ks d rule: enqueue_all.induct)
  case (2 c gen n owner key payload rest d)
  then obtain q d1 where q: "enqueue c (gen n) key payload owner d = Inr (q, d1)"
    and rest: "enqueue_all c gen (Suc n) owner rest d1 = Inr e"
    by (auto simp: rbind_Inr_iff)
  from "2.IH"[OF rest] queue_run_one[OF qs_enqueue[OF q]] show ?case by (blast intro: queue_run_trans)
qed simp

lemma publish_run: "publish c gen l res cb succ d = Inr (pr, e) \<Longrightarrow> well_behaved cb \<Longrightarrow> queue_run d e"
  by (rule queue_run_one) (rule qs_publish)

lemma request_cancel_run: "queue_run d (snd (request_cancel c i d))"
  by (rule queue_run_one, rule qs_request_cancel) (rule surjective_pairing)

lemma publish_chunk_run:
  assumes "publish_chunk sha c gen job payload cb capture seq d = Inr (r, e)" "well_behaved cb"
  shows "queue_run d e"
  using assms(1) request_cancel_run[of d c "lease_job (cj_lease job)"]
  by (auto simp: publish_chunk_def Let_def rbind_Inr_iff split: option.splits if_splits
      dest!: publish_run[OF _ assms(2)] enqueue_all_run intro: queue_run_trans)

lemma publish_capture_stage_run:
  assumes "publish_capture_stage sha c gen job payload cb d = Inr (r, e)" "well_behaved cb"
  shows "queue_run d e"
  using assms(1) request_cancel_run[of d c "lease_job (cj_lease job)"]
  by (auto simp: publish_capture_stage_def rbind_Inr_iff split: if_splits
      dest: publish_run[OF _ assms(2)] publish_chunk_run[OF _ assms(2)])

lemma cancel_lease_run:
  assumes "\<And>n d. queue_run d (xe_others env n d)" "cancel_lease env n l d = (x, e)"
  shows "queue_run d e"
  using assms(2) assms(1)[of d n] by (auto simp: cancel_lease_def split: sum.splits
      dest!: qs_cancel queue_run_one intro: queue_run_trans)

lemma release_lease_run:
  assumes "\<And>n d. queue_run d (xe_others env n d)" "release_lease env n l d = (x, e)"
  shows "queue_run d e"
  using assms(2) assms(1)[of d n] by (auto simp: release_lease_def split: sum.splits if_splits
      dest!: qs_release queue_run_one intro: queue_run_trans)

text \<open>What other transactions and the publication of the evidence stages may do: queue steps.\<close>

definition env_ok :: "exec_env \<Rightarrow> bool" where
  "env_ok env \<longleftrightarrow> (\<forall>n d. queue_run d (xe_others env n d))
     \<and> (\<forall>c job res d pr e. xe_publish_evidence env c job res d = Inr (pr, e) \<longrightarrow> queue_run d e)"

lemma env_okD:
  assumes "env_ok env"
  shows "queue_run d (xe_others env n d)"
    "xe_publish_evidence env c job res d = Inr (pr, e) \<Longrightarrow> queue_run d e"
  using assms by (auto simp: env_ok_def)

lemma retry_or_fail_run:
  assumes "env_ok env" "retry_or_fail p env job err d = (x, e)"
  shows "queue_run d e"
proof -
  have o: "queue_run d (xe_others env 4 (xe_others env 3 d))"
    using env_okD(1)[OF assms(1)] by (blast intro: queue_run_trans)
  then show ?thesis using assms(2)
    by (auto simp: retry_or_fail_def Let_def split: option.splits sum.splits
        dest!: qs_fail qs_retry queue_run_one intro: queue_run_trans)
qed

lemma handler_raised_run:
  assumes "env_ok env" "handler_raised p env job x d = (y, e)"
  shows "queue_run d e"
proof -
  have c: "cancel_lease env 3 (cj_lease job) d = (a, b) \<Longrightarrow> queue_run d b"
    and r: "release_lease env 3 (cj_lease job) d = (a', b) \<Longrightarrow> queue_run d b" for a a' b
    using cancel_lease_run release_lease_run env_okD(1)[OF assms(1)] by blast+
  have f: "fail_job (xe_clk env 3) l n k (xe_others env 3 d) = Inr (u, b) \<Longrightarrow> queue_run d b" for l n k u b
    using env_okD(1)[OF assms(1), of d 3] by (auto dest!: qs_fail queue_run_one intro: queue_run_trans)
  show ?thesis
    using assms(2) retry_or_fail_run[OF assms(1)] env_okD(1)[OF assms(1), of d 3]
    by (cases x) (auto simp: handler_raised_def INFRASTRUCTURE_ERRORS_def split: prod.splits sum.splits if_splits dest: c r f)
qed

text \<open>The handler protocol: transactions that are queue steps, callbacks that stay inside their transaction.\<close>

locale stage_handler =
  fixes handler :: job_handler
  assumes handler_run: "queue_run d (snd (handler job d))"
    and handler_callback: "fst (handler job d) = Returned r s \<Longrightarrow> sr_on_publish r = Some f \<Longrightarrow> well_behaved f"
begin

lemma publish_stage_run:
  assumes "env_ok env" "fst (handler job d0) = Returned r s"
    and "publish_stage (xe_publish_evidence env) sha c gen job r s d = Inr (q, e)"
  shows "queue_run d e"
proof -
  have wb: "well_behaved (case sr_on_publish r of None \<Rightarrow> Inr | Some f \<Rightarrow> f)"
    using handler_callback[OF assms(2)] by (auto split: option.split)
  show ?thesis
    using assms(3) env_okD(2)[OF assms(1)] publish_capture_stage_run[OF _ wb] publish_run[OF _ wb]
    by (auto simp: publish_stage_def Let_def rbind_Inr_iff split: if_splits)
qed

lemma publish_result_run:
  assumes "env_ok env" "fst (handler job d0) = Returned r s" "publish_result env job r s d = (x, e)"
  shows "queue_run d e"
proof -
  note o = env_okD(1)[OF assms(1)]
  have c: "cancel_lease env 4 (cj_lease job) b = (a, g) \<Longrightarrow> queue_run b g"
    and r: "release_lease env 4 (cj_lease job) b = (a', g) \<Longrightarrow> queue_run b g" for a a' b g
    using cancel_lease_run release_lease_run o by blast+
  have p: "publish_stage (xe_publish_evidence env) (xe_sha env) (xe_clk env 3) (xe_gen env) job r s (xe_others env 3 d)
      = Inr (q, g) \<Longrightarrow> queue_run d g" for q g
    using publish_stage_run[OF assms(1,2)] o queue_run_trans by blast
  show ?thesis
    using assms(3) o[of d 3]
    by (auto simp: publish_result_def Let_def split: sum.splits prod.splits option.splits exn.splits if_splits
        dest!: p c r intro: queue_run_trans)
qed

lemma execute_run:
  assumes "env_ok env" "execute p env handler job d = (x, e)"
  shows "queue_run d e"
proof -
  let ?l = "cj_lease job"
  obtain b d1 where s: "start (xe_clk env 0) ?l (xe_others env 0 d) = (b, d1)" by fastforce
  have d1: "queue_run d d1"
    using env_okD(1)[OF assms(1)] queue_run_one[OF qs_start[OF s]] by (rule queue_run_trans)
  show ?thesis
  proof (cases b)
    case False
    then have "cancel_lease env 1 ?l d1 = (fst (cancel_lease env 1 ?l d1), e)"
      using assms(2) s by (auto simp: execute_def split: prod.splits sum.splits)
    then show ?thesis using d1 cancel_lease_run env_okD(1)[OF assms(1)] queue_run_trans by metis
  next
    case True
    obtain h d2 where h: "handler job (xe_others env 2 d1) = (h, d2)" by fastforce
    have d2: "queue_run d d2"
      using d1 env_okD(1)[OF assms(1), of d1 2] handler_run[of "xe_others env 2 d1" job] h
      by (auto intro: queue_run_trans)
    have "queue_run d2 e"
    proof (cases h)
      case (Returned r s')
      then show ?thesis using publish_result_run[OF assms(1), of job "xe_others env 2 d1"] assms(2) s True h
        by (simp add: execute_def)
    next
      case (Threw y)
      then show ?thesis using handler_raised_run[OF assms(1)] assms(2) s True h by (simp add: execute_def)
    next
      case Interrupted
      then have "e = snd (release_lease env 3 ?l d2)" using assms(2) s True h by (simp add: execute_def)
      then show ?thesis using release_lease_run[OF env_okD(1)[OF assms(1)], of 3 ?l d2] by (metis prod.collapse)
    qed
    with d2 show ?thesis by (rule queue_run_trans)
  qed
qed

end

interpretation intake: stage_handler "intake_stage sha" for sha
  by unfold_locales (auto simp: intake_stage_def split: option.splits)


section \<open>A lease is given up once\<close>

text \<open>No row is held under the lease any more.\<close>

definition settled :: "lease \<Rightarrow> db \<Rightarrow> bool" where
  "settled l d \<longleftrightarrow> (\<forall>r \<in> set (jobs d). owned l r \<longrightarrow> job_state r \<notin> set LEASED_STATES)"

lemma fenced_update_settles:
  assumes "fenced_update c l failing f d = Inr (ok, e)" "queue_inv d" "\<And>r. job_lease_owner (f r) = None"
  shows "settled l e"
proof -
  let ?p = "\<lambda>r. owned l r \<and> job_state r \<in> set LEASED_STATES"
  have "jobs e = update_where ?p (\<lambda>r. f (r\<lparr>job_updated := tx_now c\<rparr>)) (jobs d)"
    using assms(1) record_terminal_frame(1)
    by (auto simp: fenced_update_def Let_def rbind_Inr_iff update_jobs_def split: if_splits)
  then show ?thesis using assms(3) by (auto simp: settled_def set_update_where owned_def)
qed

lemma cancel_lease_settles:
  "cancel_lease env n l d = (Inr ok, e) \<Longrightarrow> queue_inv (xe_others env n d) \<Longrightarrow> settled l e"
  by (auto simp: cancel_lease_def cancel_def mark_cancelled_def cleared_def split: sum.splits
      elim: fenced_update_settles)

lemma release_lease_settles:
  "release_lease env n l d = (Inr ok, e) \<Longrightarrow> queue_inv (xe_others env n d) \<Longrightarrow> settled l e"
  by (auto simp: release_lease_def release_def fenced_update_def cleared_def Let_def split: sum.splits if_splits
      intro: fenced_update_settles[where failing = False])

lemma retry_or_fail_settles:
  assumes "env_ok env" "queue_inv d" "retry_or_fail p env job err d = (Inr report, e)"
  shows "settled (cj_lease job) e"
proof -
  have "queue_inv (xe_others env 4 (xe_others env 3 d))"
    using assms(1,2) env_okD(1) queue.good_run by blast
  then show ?thesis using assms(3)
    by (auto simp: retry_or_fail_def Let_def fail_job_def retry_job_def cleared_def split: option.splits sum.splits
        elim: fenced_update_settles)
qed

lemma handler_raised_settles:
  assumes "env_ok env" "queue_inv d" "handler_raised p env job x d = (Inr report, e)" "report \<noteq> Lease_Gone"
  shows "settled (cj_lease job) e"
proof -
  have inv: "queue_inv (xe_others env 3 d)" using assms(1,2) env_okD(1) queue.good_run by blast
  have f: "fail_job (xe_clk env 3) (cj_lease job) n k (xe_others env 3 d) = Inr (u, b) \<Longrightarrow> settled (cj_lease job) b" for n k u b
    by (auto simp: fail_job_def cleared_def elim: fenced_update_settles intro: inv)
  show ?thesis
    using assms(3,4) retry_or_fail_settles[OF assms(1,2)] cancel_lease_settles[OF _ inv] release_lease_settles[OF _ inv]
    by (cases x) (auto simp: handler_raised_def INFRASTRUCTURE_ERRORS_def split: prod.splits sum.splits if_splits dest: f)
qed

lemma published_settles:
  assumes "queue_inv e" "job_of e (lease_job l) = Some s" "job_state s = PUBLISHED"
  shows "settled l e"
proof -
  have "r = s" if "r \<in> set (jobs e)" "owned l r" for r
    using job_of_unique[OF assms(1) that(1)] that(2) assms(2) by (simp add: owned_def)
  then show ?thesis using assms(3) by (auto simp: settled_def LEASED_STATES_def)
qed

lemma publish_settles:
  assumes "queue_inv d" "publish c gen l res cb succ d = Inr (pr, e)" "well_behaved cb"
  shows "settled l e"
  using publish_facts[OF assms] published_settles queue.good_run[OF publish_run[OF assms(2,3)] assms(1)] by blast

lemma publish_chunk_settles:
  assumes "queue_inv d" "publish_chunk sha c gen job payload cb capture seq d = Inr (Some pr, e)" "well_behaved cb"
  shows "settled (cj_lease job) e"
proof -
  obtain d1 ks s where p: "publish c gen (cj_lease job) payload cb [] d = Inr (pr, d1)" "enqueue_all c gen 0 s ks d1 = Inr e"
    using assms(2) by (auto simp: publish_chunk_def Let_def rbind_Inr_iff split: option.splits if_splits)
  obtain r where r: "job_of d1 (lease_job (cj_lease job)) = Some r" "job_state r = PUBLISHED"
    using publish_facts[OF assms(1) p(1) assms(3)] by blast
  have inv: "queue_inv e"
    using queue.good_run[OF queue_run_trans[OF publish_run[OF p(1) assms(3)] enqueue_all_run[OF p(2)]] assms(1)] .
  have "r \<in> set (jobs e)" "job_id r = lease_job (cj_lease job)"
    using job_of_SomeD[OF r(1)] enqueue_all_keeps[OF p(2)] by auto
  with job_of_unique[OF inv this] r(2) published_settles[OF inv] show ?thesis by blast
qed

context stage_handler begin

lemma publish_result_settles:
  assumes "env_ok env" "queue_inv d" "fst (handler job d0) = Returned r s"
    and "publish_result env job r s d = (Inr report, e)" "\<And>m. report \<noteq> Publish_Refused m"
    and "key_stage (cj_key job) \<notin> set EVIDENCE_STAGES"
  shows "settled (cj_lease job) e"
proof -
  let ?d1 = "xe_others env 3 d"
  have inv: "queue_inv ?d1" using assms(1,2) env_okD(1) queue.good_run by blast
  have wb: "well_behaved (case sr_on_publish r of None \<Rightarrow> Inr | Some f \<Rightarrow> f)"
    using handler_callback[OF assms(3)] by (auto split: option.split)
  define ps where "ps = publish_stage (xe_publish_evidence env) (xe_sha env) (xe_clk env 3) (xe_gen env) job r s ?d1"
  have pub: "settled (cj_lease job) f" if "ps = Inr (Some pr, f)" for pr f
    using that assms(6) publish_settles[OF inv _ wb] publish_chunk_settles[OF inv _ wb]
    by (auto simp: ps_def publish_stage_def publish_capture_stage_def Let_def rbind_Inr_iff split: if_splits)
  have run: "queue_inv (xe_others env 4 f)" if "ps = Inr (q, f)" for q f
    using publish_stage_run[OF assms(1,3)] that env_okD(1)[OF assms(1)] queue.good_run inv
    unfolding ps_def by blast
  have inv4: "queue_inv (xe_others env 4 ?d1)" using env_okD(1)[OF assms(1)] queue.good_run inv by blast
  show ?thesis
    using assms(4,5) pub cancel_lease_settles[OF _ run] release_lease_settles[OF _ inv4]
    unfolding publish_result_def Let_def ps_def[symmetric]
    by (auto split: sum.splits prod.splits option.splits exn.splits if_splits)
qed

lemma execute_settles_job:
  assumes "env_ok env" "queue_inv d" "execute p env handler job d = (Inr report, e)"
    and "report \<noteq> Lease_Gone" "\<And>m. report \<noteq> Publish_Refused m" "key_stage (cj_key job) \<notin> set EVIDENCE_STAGES"
  shows "settled (cj_lease job) e"
proof -
  let ?l = "cj_lease job"
  obtain b d1 where s: "start (xe_clk env 0) ?l (xe_others env 0 d) = (b, d1)" by fastforce
  have inv1: "queue_inv d1"
    using env_okD(1)[OF assms(1)] queue_run_one[OF qs_start[OF s]] queue.good_run assms(2) by blast
  show ?thesis
  proof (cases b)
    case False
    have "queue_inv (xe_others env 1 d1)" using env_okD(1)[OF assms(1)] queue.good_run inv1 by blast
    then show ?thesis
      using assms(3) s False cancel_lease_settles[of env 1 ?l d1] by (auto simp: execute_def split: prod.splits sum.splits)
  next
    case True
    obtain h d2 where h: "handler job (xe_others env 2 d1) = (h, d2)" by fastforce
    have "queue_run d1 d2"
      using env_okD(1)[OF assms(1), of d1 2] handler_run[of "xe_others env 2 d1" job] h by (auto intro: queue_run_trans)
    then have inv2: "queue_inv d2" using queue.good_run inv1 by blast
    show ?thesis
    proof (cases h)
      case (Returned r s')
      then show ?thesis
        using publish_result_settles[OF assms(1) inv2, of job "xe_others env 2 d1" r s' report e] assms(3,5,6) s True h
        by (simp add: execute_def)
    next
      case (Threw y)
      then show ?thesis using handler_raised_settles[OF assms(1) inv2, of p job y report e] assms(3,4) s True h
        by (simp add: execute_def)
    next
      case Interrupted
      then show ?thesis using assms(3) s True h by (simp add: execute_def)
    qed
  qed
qed

end


section \<open>The loop\<close>

definition round_ok :: "poll_round \<Rightarrow> bool" where
  "round_ok r \<longleftrightarrow> env_ok (pr_env r) \<and> (\<forall>d. queue_run d (pr_before r d))"

definition handlers_ok :: "worker_conf \<Rightarrow> bool" where
  "handlers_ok w \<longleftrightarrow> (\<forall>h \<in> snd ` set (wk_handlers w). stage_handler h)"

lemma handler_for_ok:
  assumes "handlers_ok w"
  shows "stage_handler (handler_for w stage)"
proof (cases "map_of (wk_handlers w) stage")
  case None
  then show ?thesis by (simp add: handler_for_def stage_handler_def)
next
  case (Some h)
  then have "h \<in> snd ` set (wk_handlers w)" by (force dest: map_of_SomeD)
  then have "stage_handler h" using assms unfolding handlers_ok_def by blast
  then show ?thesis using Some by (simp add: handler_for_def)
qed

lemma serve_run:
  assumes "handlers_ok w" "\<forall>r \<in> set rounds. round_ok r" "serve w delay rounds d = (x, waits, e)"
  shows "queue_run d e"
  using assms(2,3)
proof (induction rounds arbitrary: delay d waits)
  case Nil
  then show ?case by simp
next
  case (Cons r rs)
  have ok: "env_ok (pr_env r)" "queue_run d (pr_before r d)" using Cons.prems(1) by (simp_all add: round_ok_def)
  obtain j d1 where c: "claim (pr_clk r) (pr_locked r) (wk_id w) (map fst (wk_handlers w)) (wk_lease_seconds w) (pr_before r d) = (j, d1)"
    by fastforce
  have d1: "queue_run d d1" using ok(2) queue_run_one[OF qs_claim[OF c]] by (rule queue_run_trans)
  show ?case
  proof (cases j)
    case None
    then obtain ws where "serve w (min (delay * 2) (idle_poll_max w)) rs d1 = (x, ws, e)"
      using Cons.prems(2) c by (auto split: prod.splits)
    with Cons.IH Cons.prems(1) have "queue_run d1 e" by simp
    with d1 show ?thesis by (rule queue_run_trans)
  next
    case (Some job)
    obtain y d2 where e: "execute (wk_policy w) (pr_env r) (handler_for w (key_stage (cj_key job))) job d1 = (y, d2)"
      by fastforce
    have d2: "queue_run d1 d2" by (rule stage_handler.execute_run[OF handler_for_ok[OF assms(1)] ok(1) e])
    have "queue_run d2 e"
    proof (cases y)
      case (Inl z)
      then show ?thesis using Cons.prems(2) c Some e by simp
    next
      case (Inr rep)
      then have "serve w (wk_poll_seconds w) rs d2 = (x, waits, e)" using Cons.prems(2) c Some e by simp
      with Cons.IH Cons.prems(1) show ?thesis by simp
    qed
    with d1 d2 show ?thesis by (blast intro: queue_run_trans)
  qed
qed

lemma serve_waits:
  assumes "serve w delay rounds d = (x, waits, e)" "0 < wk_poll_seconds w"
    and "wk_poll_seconds w \<le> delay" "delay \<le> idle_poll_max w" "t \<in> set waits"
  shows "wk_poll_seconds w \<le> t \<and> t \<le> idle_poll_max w"
  using assms(1,3,4,5)
proof (induction rounds arbitrary: delay d waits)
  case (Cons r rs)
  have m: "wk_poll_seconds w \<le> idle_poll_max w" by (simp add: idle_poll_max_def)
  have nx: "wk_poll_seconds w \<le> min (delay * 2) (idle_poll_max w)" "min (delay * 2) (idle_poll_max w) \<le> idle_poll_max w"
    using Cons.prems(2) assms(2) m by auto
  show ?case
    using Cons.prems Cons.IH[OF _ nx] Cons.IH[OF _ order_refl m]
    by (auto split: prod.splits option.splits sum.splits)
qed simp

section \<open>Properties\<close>



text \<open>Failing a job of any stage but \<open>upload_asr\<close> touches no deadline, so it cannot raise.\<close>

lemma fail_job_total:
  assumes "queue_inv d" "\<And>r. job_of d (lease_job l) = Some r \<Longrightarrow> key_stage (job_key r) \<noteq> ''upload_asr''"
  shows "\<exists>x. fail_job c l reason cls d = Inr x"
proof -
  let ?p = "\<lambda>r. owned l r \<and> job_state r \<in> set LEASED_STATES"
  let ?f = "\<lambda>r. cleared c ((set_state FAILED (r\<lparr>job_updated := tx_now c\<rparr>))\<lparr>job_failure := Some reason, job_retry_class := cls\<rparr>)"
  have "\<exists>y. record_terminal c (lease_job l) None (update_jobs ?p ?f d) = Inr y" if one: "count_where ?p (jobs d) = 1"
  proof -
    obtain r where r: "r \<in> set (jobs d)" "?p r" using one count_where_pos_iff[of ?p "jobs d"] by auto
    have jo: "job_of d (lease_job l) = Some r"
      using job_of_unique[OF assms(1) r(1)] r(2) by (simp add: owned_def)
    have "job_of (update_jobs ?p ?f d) (lease_job l) = map_option (\<lambda>r. if ?p r then ?f r else r) (job_of d (lease_job l))"
      unfolding job_of_def update_jobs_def by (simp add: jobs_table.fetch_update cleared_def set_state_def cong: if_cong)
    then show ?thesis using assms(2)[OF jo] jo
      by (simp add: record_terminal_def cleared_def set_state_def)
  qed
  then show ?thesis by (auto simp: fail_job_def fenced_update_def Let_def ex_bool_eq)
qed

lemma retry_release_cancel_total:
  "\<exists>x. retry_job c l cls delay d = Inr x" "\<exists>x. release c l d = Inr x" "\<exists>x. cancel c l d = Inr x"
  by (auto simp: retry_job_def release_def cancel_def fenced_update_def Let_def)

lemma stage_kept:
  assumes "queue_run d e" "queue_inv d" "job_of d i = Some r" "job_of e i = Some s"
  shows "job_key s = job_key r"
proof -
  note r = job_of_SomeD[OF assms(3)]
  obtain s' where s': "row_trans r s'" "job_of e (job_id r) = Some s'"
    using queue_run_row[OF assms(1,2)] r by metis
  then show ?thesis using assms(4) r row_transD(2)[OF s'(1)] by simp
qed


lemma handler_raised_total:
  assumes "env_ok env" "queue_inv d" "job_of d (lease_job (cj_lease job)) = Some r" "key_stage (job_key r) \<noteq> ''upload_asr''"
  shows "\<exists>report e. handler_raised p env job x d = (Inr report, e)"
proof -
  let ?l = "cj_lease job"
  have total: "\<exists>y. fail_job c ?l n k e = Inr y" if "queue_run d e" for c n k e
  proof (rule fail_job_total[OF queue.good_run[OF that assms(2)]])
    fix s assume "job_of e (lease_job ?l) = Some s"
    with stage_kept[OF that assms(2,3)] assms(4) show "key_stage (job_key s) \<noteq> ''upload_asr''" by simp
  qed
  note o = env_okD(1)[OF assms(1)]
  obtain a where a: "cancel (xe_clk env 3) ?l (xe_others env 3 d) = Inr a" using retry_release_cancel_total(3) by blast
  obtain b where b: "release (xe_clk env 3) ?l (xe_others env 3 d) = Inr b" using retry_release_cancel_total(2) by blast
  have "\<forall>n. \<exists>y. fail_job (xe_clk env 3) ?l n None (xe_others env 3 d) = Inr y" using total[OF o] by blast
  from choice[OF this] obtain f where f: "\<And>n. fail_job (xe_clk env 3) ?l n None (xe_others env 3 d) = Inr (f n)" by blast
  have "\<exists>report e. retry_or_fail p env job err d = (Inr report, e)" for err
  proof -
    define rec where "rec \<longleftrightarrow> (cj_request_id job \<noteq> None \<or> error_class err = UNKNOWN_OUTCOME
        \<and> (case get (lease_job ?l) (xe_others env 3 d) of None \<Rightarrow> False | Some r \<Rightarrow> rec_request_id r \<noteq> None))"
    show ?thesis
    proof (cases "delay_seconds (decide p (xe_jitter env) err (cj_retry_counts job) rec)")
      case None
      obtain g where "fail_job (xe_clk env 4) ?l (error_name err) (Some (error_class err)) (xe_others env 4 (xe_others env 3 d)) = Inr g"
        using total[OF queue_run_trans[OF o o]] by blast
      then show ?thesis using None by (cases g) (simp add: retry_or_fail_def Let_def rec_def)
    next
      case (Some t)
      obtain h where "retry_job (xe_clk env 4) ?l (error_class err) t (xe_others env 4 (xe_others env 3 d)) = Inr h"
        using retry_release_cancel_total(1) by blast
      then show ?thesis using Some by (cases h) (simp add: retry_or_fail_def Let_def rec_def)
    qed
  qed
  then show ?thesis
    by (cases x) (auto simp: handler_raised_def INFRASTRUCTURE_ERRORS_def cancel_lease_def release_lease_def a b
        f split: prod.splits)
qed


text \<open>
  The publication block of \<open>_execute\<close> has no such net: an exception of the publication that is neither
  a rejection nor an infrastructure error leaves the execution and ends the worker's loop, with the
  lease still held; the job is claimed again once the lease has expired.
\<close>

lemma publication_error_escapes:
  assumes "publish_stage (xe_publish_evidence env) (xe_sha env) (xe_clk env 3) (xe_gen env) job r s (xe_others env 3 d) = Inl x"
    and "x \<in> {ValueError, KeyError, TypeError, Retryable NonRetriableInput}"
  shows "publish_result env job r s d = (Inl x, xe_others env 3 d)"
  using assms by (auto simp: publish_result_def INFRASTRUCTURE_ERRORS_def)

section \<open>Examples\<close>

definition ex_exec :: exec_env where
  "ex_exec = \<lparr>xe_clk = (\<lambda>n. ex_clk (2 + of_nat n)), xe_others = (\<lambda>_ d. d), xe_gen = (\<lambda>_. 9), xe_jitter = 0,
     xe_sha = id, xe_publish_evidence = (\<lambda>c job res d. Inl ValueError)\<rparr>"

definition ex_thrower :: job_handler where
  "ex_thrower job d = (Threw ValueError, d)"

lemma ex_exec_ok: "env_ok ex_exec" "stage_handler ex_thrower"
  by (simp_all add: env_ok_def ex_exec_def stage_handler_def ex_thrower_def)

definition ex_conf :: worker_conf where
  "ex_conf = \<lparr>wk_id = ''w'', wk_lease_seconds = 30, wk_poll_seconds = 1, wk_idle_max = Some 8,
     wk_policy = default_policy, wk_handlers = [(''extraction'', ex_thrower)]\<rparr>"

definition ex_round :: poll_round where
  "ex_round = \<lparr>pr_before = (\<lambda>d. d), pr_clk = ex_clk 1, pr_locked = (\<lambda>_. False), pr_env = ex_exec\<rparr>"

lemma ex_execute:
  "\<exists>e. execute default_policy ex_exec ex_thrower ex_job ex_leased = (Inr Failed_Now, e)
     \<and> map job_state (jobs e) = [FAILED]"
proof -
  have "start (ex_clk 2) ex_lease ex_leased = (True, ex_running)" by (rule ex_start)
  moreover have "\<exists>e. fail_job (ex_clk 5) ex_lease ''ValueError'' None ex_running = Inr (True, e)
      \<and> map job_state (jobs e) = [FAILED]"
    by (simp add: fail_job_def fenced_update_def ex_running_def ex_job_def claimed_of_def owned_def ex_clk_def
      leased_to_def set_state_def new_job_def queued_status_def Let_def empty_db_def update_jobs_def
      record_terminal_def job_of_def cleared_def ex_key_def)
  ultimately show ?thesis
    by (auto simp: execute_def ex_exec_def ex_thrower_def handler_raised_def INFRASTRUCTURE_ERRORS_def)
qed




end
