(* ===== verification/ProviderBudgets.thy ===== *)
theory ProviderBudgets
  imports Budget AsrLedger ApiErrors "HOL-Library.Multiset"
begin

text \<open>
  The status of every provider budget, \<open>backend/services/provider_budgets.py\<close>, and the shared
  admission of language model requests. Nothing is written: a status reads the token buckets and the
  speech ledger. \<open>cs n\<close> is the clock of the \<open>n\<close>-th statement. The lemmas show that the announced
  recovery times are exact: \<open>retry_after_seconds\<close> later an unused provider is no longer exhausted.
\<close>

section \<open>Statuses\<close>

definition SCHOLARXIV_BUCKET :: string where
  "SCHOLARXIV_BUCKET = ''scholarxiv''"

text \<open>Bucket name, unit, period in seconds and the setting holding its capacity.\<close>

definition GROQ_LLM_BUCKETS :: "(string \<times> string \<times> int \<times> (quota_settings \<Rightarrow> int)) list" where
  "GROQ_LLM_BUCKETS =
     [(''groq_llm:requests_minute'', ''requests'', 60, groq_llm_requests_per_minute),
      (''groq_llm:requests_day'', ''requests'', 86400, groq_llm_requests_per_day),
      (''groq_llm:tokens_minute'', ''tokens'', 60, groq_llm_tokens_per_minute),
      (''groq_llm:tokens_day'', ''tokens'', 86400, groq_llm_tokens_per_day)]"

definition ASR_NAMES :: "((int \<times> bool) \<times> string \<times> string) list" where
  "ASR_NAMES =
     [((60, False), (''groq_asr:requests_minute'', ''requests'')),
      ((86400, False), (''groq_asr:requests_day'', ''requests'')),
      ((3600, True), (''groq_asr:audio_seconds_hour'', ''audio_seconds'')),
      ((86400, True), (''groq_asr:audio_seconds_day'', ''audio_seconds''))]"

record limit_status =
  ls_name :: string
  ls_unit :: string
  ls_capacity :: int
  ls_period :: int
  ls_available :: "rat option"
  ls_reserve :: rat
  recover_seconds :: rat

record provider_status =
  ps_provider :: string
  ps_configured :: bool
  ps_measurement :: string
  ps_limits :: "limit_status list"
  ps_hold :: rat

definition max_of :: "rat \<Rightarrow> rat list \<Rightarrow> rat" where
  "max_of x xs = foldr max xs x"

definition retry_after_seconds :: "provider_status \<Rightarrow> rat" where
  "retry_after_seconds p = max_of (ps_hold p) (map recover_seconds (ps_limits p))"

definition near_exhaustion :: "provider_status \<Rightarrow> bool" where
  "near_exhaustion p \<longleftrightarrow> retry_after_seconds p > 0"

definition pauses_intake :: "provider_status \<Rightarrow> bool" where
  "pauses_intake p \<longleftrightarrow> ps_configured p \<and> near_exhaustion p"

section \<open>Reading a bucket and a window\<close>

text \<open>The balance and the hold are two statements with their own clocks.\<close>

definition bucket_status ::
    "clk \<Rightarrow> clk \<Rightarrow> string \<Rightarrow> string \<Rightarrow> int \<Rightarrow> int \<Rightarrow> rat \<Rightarrow> bucket_row list \<Rightarrow> limit_status"
where
  "bucket_status cb ch n u room period reserve t =
     (let bal = balance cb n room (of_int period) t; pause = held_seconds ch n t
      in \<lparr>ls_name = n, ls_unit = u, ls_capacity = room, ls_period = period,
          ls_available = (if bucket_of n t = None then None else Some bal), ls_reserve = reserve,
          recover_seconds = max (max 0 pause) ((reserve - bal) * of_int period / of_int room)\<rparr>)"

text \<open>The reserve returns when enough of the oldest reservations leave the window.\<close>

fun recover_from :: "bool \<Rightarrow> int \<Rightarrow> time \<Rightarrow> rat \<Rightarrow> int \<Rightarrow> asr_row list \<Rightarrow> rat" where
  "recover_from audio seconds now excess released [] = 0"
| "recover_from audio seconds now excess released (a # rest) =
     (let r = released + units audio a
      in if of_int r \<ge> excess then max 0 (asr_created a + of_int seconds - now)
         else recover_from audio seconds now excess r rest)"

definition window_rows :: "speech_settings \<Rightarrow> int \<Rightarrow> time \<Rightarrow> asr_row list \<Rightarrow> asr_row list" where
  "window_rows s seconds now rows = sort_key asr_created (filter (window_filter s seconds now None) rows)"

definition window_recovery :: "speech_settings \<Rightarrow> int \<Rightarrow> rat \<Rightarrow> bool \<Rightarrow> time \<Rightarrow> asr_row list \<Rightarrow> rat" where
  "window_recovery s seconds room audio now rows =
     (let excess = of_int (window_usage s seconds audio now None rows) - room
      in if excess > 0 then recover_from audio seconds now excess 0 (window_rows s seconds now rows) else 0)"

definition window_status ::
    "speech_settings \<Rightarrow> rat \<Rightarrow> int \<Rightarrow> int \<Rightarrow> bool \<Rightarrow> time \<Rightarrow> asr_row list \<Rightarrow> limit_status"
where
  "window_status s fraction seconds limit audio now rows =
     (let reserve = of_int limit * fraction;
          (n, u) = (case map_of ASR_NAMES (seconds, audio) of Some x \<Rightarrow> x | None \<Rightarrow> ([], []))
      in \<lparr>ls_name = n, ls_unit = u, ls_capacity = limit, ls_period = seconds,
          ls_available = Some (of_int (limit - window_usage s seconds audio now None rows)),
          ls_reserve = reserve,
          recover_seconds = window_recovery s seconds (of_int limit - reserve) audio now rows\<rparr>)"

text \<open>The latest recorded \<open>Retry-After\<close> of hosted speech that still runs.\<close>

definition asr_holds :: "speech_settings \<Rightarrow> time \<Rightarrow> asr_row list \<Rightarrow> rat list" where
  "asr_holds s now rows = List.map_filter
     (\<lambda>a. if window_filter s 86400 now None a \<and> asr_outcome a = ''RateLimited''
          then map_option (\<lambda>wait. asr_created a + of_int wait - now) (asr_retry_after a) else None) rows"

definition asr_hold :: "speech_settings \<Rightarrow> time \<Rightarrow> asr_row list \<Rightarrow> rat" where
  "asr_hold s now rows = max_of 0 (asr_holds s now rows)"

section \<open>All providers\<close>

definition scholarxiv_status :: "clk \<Rightarrow> clk \<Rightarrow> settings \<Rightarrow> db \<Rightarrow> provider_status" where
  "scholarxiv_status cb ch config d =
     \<lparr>ps_provider = ''scholarxiv'', ps_configured = (scholarxiv_api_key (evidence_conf config) \<noteq> None),
      ps_measurement = ''local_token_bucket'',
      ps_limits = [bucket_status cb ch SCHOLARXIV_BUCKET ''requests''
         (scholarxiv_requests_per_hour (evidence_conf config)) 3600
         (of_int (quota_provider_reserve (quota_conf config))) (provider_buckets d)],
      ps_hold = 0\<rparr>"

definition limited_windows :: "speech_settings \<Rightarrow> (int \<times> int \<times> bool) list" where
  "limited_windows s = List.map_filter
     (\<lambda>(seconds, limit, audio). map_option (\<lambda>n. (seconds, n, audio)) limit) (windows s)"

definition asr_status :: "time \<Rightarrow> settings \<Rightarrow> db \<Rightarrow> provider_status" where
  "asr_status now config d =
     (let s = speech_conf config; limits = limited_windows s
      in \<lparr>ps_provider = ''groq_asr'', ps_configured = (asr_enabled s \<and> limits \<noteq> []),
          ps_measurement = ''local_rolling_ledger'',
          ps_limits = map (\<lambda>(seconds, n, audio). window_status s
             (quota_provider_reserve_fraction (quota_conf config)) seconds n audio now (asr_requests d)) limits,
          ps_hold = (if limits \<noteq> [] then asr_hold s now (asr_requests d) else 0)\<rparr>)"

definition llm_status :: "(nat \<Rightarrow> clk) \<Rightarrow> settings \<Rightarrow> db \<Rightarrow> provider_status" where
  "llm_status cs config d =
     \<lparr>ps_provider = ''groq_llm'', ps_configured = groq_extraction_enabled (extraction_conf config),
      ps_measurement = ''local_token_bucket'',
      ps_limits = map (\<lambda>(i, n, u, period, field). bucket_status (cs (2 * i)) (cs (2 * i + 1)) n u
          (field (quota_conf config)) period
          (of_int (field (quota_conf config)) * quota_provider_reserve_fraction (quota_conf config))
          (provider_buckets d)) (zip [0..<length GROQ_LLM_BUCKETS] GROQ_LLM_BUCKETS),
      ps_hold = 0\<rparr>"

definition provider_statuses :: "(nat \<Rightarrow> clk) \<Rightarrow> settings \<Rightarrow> db \<Rightarrow> provider_status list" where
  "provider_statuses cs config d =
     [scholarxiv_status (cs 1) (cs 2) config d, asr_status (stmt_now (cs 0)) config d,
      llm_status (\<lambda>i. cs (i + 3)) config d]"

section \<open>Admission of language model requests\<close>

definition FRAMING_TOKENS :: int where
  "FRAMING_TOKENS = 256"

definition reserved_tokens :: "int \<Rightarrow> int \<Rightarrow> int" where
  "reserved_tokens input_bytes output_tokens = input_bytes + output_tokens + FRAMING_TOKENS"

text \<open>\<open>TokenBucket(database, name, per_hour, period_seconds=...)\<close> with its other defaults.\<close>

definition shared_bucket :: "string \<Rightarrow> int \<Rightarrow> int \<Rightarrow> token_bucket" where
  "shared_bucket n room period = \<lparr>tb_name = n, per_hour = room, max_wait_seconds = 300, concurrency = 0,
     request_timeout_seconds = 20, period_seconds = of_int period\<rparr>"

definition groq_llm_buckets :: "settings \<Rightarrow> token_bucket list" where
  "groq_llm_buckets config =
     map (\<lambda>(n, u, period, field). shared_bucket n (field (quota_conf config)) period) GROQ_LLM_BUCKETS"

definition admission_budget :: "settings \<Rightarrow> string \<Rightarrow> exn + token_bucket list" where
  "admission_budget config provider =
     (if provider = ''scholarxiv''
        then Inr [shared_bucket SCHOLARXIV_BUCKET (scholarxiv_requests_per_hour (evidence_conf config)) 3600]
      else if provider = ''groq'' then Inr (groq_llm_buckets config)
      else Inl ValueError)"

definition admission_costs :: "string \<Rightarrow> int \<Rightarrow> int \<Rightarrow> rat list" where
  "admission_costs provider input_bytes output_tokens =
     (if provider = ''groq''
      then let tokens = of_int (reserved_tokens input_bytes output_tokens) in [1, 1, tokens, tokens] else [1])"

definition admission_acquire ::
    "settings \<Rightarrow> string \<Rightarrow> int \<Rightarrow> int \<Rightarrow> (round \<times> (nat \<Rightarrow> clk)) list \<Rightarrow> db \<Rightarrow> rat list waited \<times> db"
where
  "admission_acquire config provider input_bytes output_tokens rs d =
     (let costs = admission_costs provider input_bytes output_tokens
      in case admission_budget config provider of
           Inl e \<Rightarrow> (Raised e, d)
         | Inr bs \<Rightarrow> (case shared_acquire 300 bs costs rs d of
               (Got _, _, e) \<Rightarrow> (Got costs, e)
             | (Raised x, _, e) \<Rightarrow> (Raised x, e)
             | (Waiting, _, e) \<Rightarrow> (Waiting, e)))"

definition admission_refund :: "(nat \<Rightarrow> clk) \<Rightarrow> settings \<Rightarrow> string \<Rightarrow> rat list \<Rightarrow> db \<Rightarrow> exn + db" where
  "admission_refund cs config provider costs d = rbind (admission_budget config provider) (\<lambda>bs.
     rbind (shared_refund cs bs costs (provider_buckets d)) (\<lambda>t. Inr (d\<lparr>provider_buckets := t\<rparr>)))"

text \<open>A failed refund is suppressed, so that the original error stays visible.\<close>

definition admission_release :: "(nat \<Rightarrow> clk) \<Rightarrow> settings \<Rightarrow> string \<Rightarrow> rat list \<Rightarrow> db \<Rightarrow> db" where
  "admission_release cs config provider costs d =
     (case admission_refund cs config provider costs d of Inl _ \<Rightarrow> d | Inr e \<Rightarrow> e)"

definition admission_block :: "(nat \<Rightarrow> clk) \<Rightarrow> settings \<Rightarrow> string \<Rightarrow> rat option \<Rightarrow> db \<Rightarrow> exn + db" where
  "admission_block cs config provider seconds d = rbind (admission_budget config provider) (\<lambda>bs.
     Inr (d\<lparr>provider_buckets := shared_block cs bs seconds (provider_buckets d)\<rparr>))"

definition llm_admission :: "settings option \<Rightarrow> settings option" where
  "llm_admission config = (case config of None \<Rightarrow> None
     | Some c \<Rightarrow> if quotas_enabled (quota_conf c) then Some c else None)"

section \<open>The operator's text\<close>

definition available_units :: "limit_status \<Rightarrow> int option" where
  "available_units l = map_option (\<lambda>a. max 0 \<lfloor>a\<rfloor>) (ls_available l)"

definition period_name :: "int \<Rightarrow> string" where
  "period_name n = (case map_of [(60, ''minute''), (3600, ''hour''), (86400, ''day'')] n of
     Some t \<Rightarrow> t | None \<Rightarrow> show_int n @ '' s'')"

definition describe :: "limit_status \<Rightarrow> string" where
  "describe l =
     ''unknown (local estimate: '' @ show_int (case available_units l of None \<Rightarrow> ls_capacity l | Some n \<Rightarrow> n)
     @ '' of '' @ show_int (ls_capacity l) @ '' '' @ map (\<lambda>c. if c = CHR ''_'' then CHR '' '' else c) (ls_unit l)
     @ ''/'' @ period_name (ls_period l) @ '')''"

section \<open>The windows recover exactly when announced\<close>

definition unit_sum :: "bool \<Rightarrow> asr_row list \<Rightarrow> int" where
  "unit_sum audio rows = sum_list (map (units audio) rows)"

lemma unit_sum_simps [simp]: "unit_sum audio [] = 0"
  "unit_sum audio (a # rows) = units audio a + unit_sum audio rows"
  by (simp_all add: unit_sum_def)

lemma unit_sum_nonneg: "(\<And>a. a \<in> set rows \<Longrightarrow> 0 \<le> units audio a) \<Longrightarrow> 0 \<le> unit_sum audio rows"
  by (induction rows) auto

lemma unit_sum_sort [simp]: "unit_sum audio (sort_key f rows) = unit_sum audio rows"
proof -
  have "mset (map (units audio) (sort_key f rows)) = mset (map (units audio) rows)" by simp
  then show ?thesis unfolding unit_sum_def by (metis sum_mset_sum_list)
qed

lemma unit_sum_split: "unit_sum audio rows = unit_sum audio (filter p rows) + unit_sum audio (filter (\<lambda>a. \<not> p a) rows)"
  by (induction rows) auto

text \<open>What left the window by time \<open>t\<close> covers the excess exactly from the announced time on.\<close>

lemma recover_from_exact:
  assumes "sorted (map asr_created xs)" "of_int r < excess" "excess \<le> of_int (r + unit_sum audio xs)"
    "\<And>a. a \<in> set xs \<Longrightarrow> 0 \<le> units audio a \<and> now < asr_created a + of_int seconds"
  shows "excess \<le> of_int (r + unit_sum audio (filter (\<lambda>a. asr_created a \<le> t - of_int seconds) xs))
    \<longleftrightarrow> now + recover_from audio seconds now excess r xs \<le> t"
  using assms
proof (induction xs arbitrary: r)
  case Nil
  then show ?case by simp
next
  case (Cons a rest)
  let ?left = "\<lambda>zs. unit_sum audio (filter (\<lambda>a. asr_created a \<le> t - of_int seconds) zs)"
  have later: "?left rest = 0" if "\<not> asr_created a \<le> t - of_int seconds"
  proof -
    have "filter (\<lambda>a. asr_created a \<le> t - of_int seconds) rest = []"
      using Cons.prems(1) that by (auto simp: filter_empty_conv)
    then show ?thesis by simp
  qed
  have rest_nonneg: "0 \<le> ?left rest" by (rule unit_sum_nonneg) (use Cons.prems(4) in simp)
  show ?case
  proof (cases "of_int (r + units audio a) \<ge> excess")
    case True
    have "excess \<le> of_int (r + ?left (a # rest)) \<longleftrightarrow> asr_created a \<le> t - of_int seconds"
    proof (cases "asr_created a \<le> t - of_int seconds")
      case inside: True
      have "of_int (r + units audio a) \<le> (of_int (r + ?left (a # rest)) :: rat)"
        using rest_nonneg inside by (simp only: of_int_le_iff) simp
      then show ?thesis using True inside by linarith
    next
      case False
      then show ?thesis using later[OF False] Cons.prems(2) by simp
    qed
    moreover have "now < asr_created a + of_int seconds" using Cons.prems(4) by simp
    ultimately show ?thesis using True by (auto simp: Let_def)
  next
    case False
    have "of_int (r + units audio a) < excess" using False by simp
    from Cons.IH[OF _ this] Cons.prems
    have ih: "excess \<le> of_int (r + units audio a + ?left rest)
        \<longleftrightarrow> now + recover_from audio seconds now excess (r + units audio a) rest \<le> t"
      by (simp add: add.assoc)
    show ?thesis
    proof (cases "asr_created a \<le> t - of_int seconds")
      case True
      then show ?thesis using ih False by (simp add: Let_def add.assoc)
    next
      case out: False
      then have "\<not> excess \<le> of_int (r + ?left (a # rest))" using later[OF out] Cons.prems(2) by simp
      moreover have "\<not> excess \<le> of_int (r + units audio a + ?left rest)" using later[OF out] False by simp
      ultimately show ?thesis using ih False by (simp add: Let_def)
    qed
  qed
qed

lemma window_usage_later:
  assumes "now \<le> t"
  shows "window_usage s seconds audio t None rows = window_usage s seconds audio now None rows
    - unit_sum audio (filter (\<lambda>a. asr_created a \<le> t - of_int seconds) (filter (window_filter s seconds now None) rows))"
proof -
  have "filter (\<lambda>a. \<not> asr_created a \<le> t - of_int seconds) (filter (window_filter s seconds now None) rows)
      = filter (window_filter s seconds t None) rows"
    using assms by (auto simp: window_filter_def intro!: filter_cong)
  with unit_sum_split[of audio "filter (window_filter s seconds now None) rows" "\<lambda>a. asr_created a \<le> t - of_int seconds"]
  show ?thesis by (simp add: window_usage_def unit_sum_def)
qed

lemma units_nonneg: "0 \<le> asr_audio_seconds a \<Longrightarrow> 0 \<le> units audio a"
  by (simp add: units_def)

lemma recovery_exact:
  assumes "now \<le> t" "0 \<le> room" "\<And>a. a \<in> set rows \<Longrightarrow> 0 \<le> asr_audio_seconds a"
  shows "of_int (window_usage s seconds audio t None rows) \<le> room
    \<longleftrightarrow> now + window_recovery s seconds room audio now rows \<le> t"
proof -
  let ?in = "filter (window_filter s seconds now None) rows"
  let ?left = "\<lambda>zs. unit_sum audio (filter (\<lambda>a. asr_created a \<le> t - of_int seconds) zs)"
  let ?excess = "of_int (window_usage s seconds audio now None rows) - room"
  have nn: "0 \<le> units audio a" if "a \<in> set rows" for a using assms(3)[OF that] by (rule units_nonneg)
  have left: "0 \<le> ?left ?in" by (rule unit_sum_nonneg) (use nn in auto)
  have later: "window_usage s seconds audio t None rows = window_usage s seconds audio now None rows - ?left ?in"
    by (rule window_usage_later[OF assms(1)])
  show ?thesis
  proof (cases "?excess > 0")
    case False
    have "of_int (?left ?in) \<ge> (0 :: rat)" using left by simp
    then show ?thesis using False assms(1) by (simp add: later window_recovery_def)
  next
    case True
    have sort: "?left (window_rows s seconds now rows) = ?left ?in"
      by (simp add: window_rows_def filter_sort)
    have all: "unit_sum audio (window_rows s seconds now rows) = window_usage s seconds audio now None rows"
      by (simp add: window_rows_def window_usage_def flip: unit_sum_def)
    have "?excess \<le> of_int (0 + ?left (window_rows s seconds now rows))
      \<longleftrightarrow> now + recover_from audio seconds now ?excess 0 (window_rows s seconds now rows) \<le> t"
    proof (rule recover_from_exact)
      show "sorted (map asr_created (window_rows s seconds now rows))" by (simp add: window_rows_def)
      show "of_int 0 < ?excess" using True by simp
      show "?excess \<le> of_int (0 + unit_sum audio (window_rows s seconds now rows))"
        using assms(2) by (simp add: all)
      fix a assume "a \<in> set (window_rows s seconds now rows)"
      then have "a \<in> set rows" "window_filter s seconds now None a" by (auto simp: window_rows_def)
      then show "0 \<le> units audio a \<and> now < asr_created a + of_int seconds"
        using nn by (simp add: window_filter_def)
    qed
    then show ?thesis using True by (auto simp: sort later window_recovery_def Let_def)
  qed
qed

text \<open>The recovery time announced for a speech window is exact. With no further reservation the
  window leaves its reserve free from \<open>recover_seconds\<close> after the reading on, and never before.\<close>

theorem window_recovery_exact:
  assumes "now \<le> t" "0 \<le> limit" "0 \<le> fraction" "fraction \<le> 1" "\<forall>a \<in> set rows. 0 \<le> asr_audio_seconds a"
  shows "of_int (window_usage s seconds audio t None rows) + of_int limit * fraction \<le> of_int limit
    \<longleftrightarrow> now + recover_seconds (window_status s fraction seconds limit audio now rows) \<le> t"
proof -
  have "0 \<le> of_int limit * (1 - fraction)" using assms(2,4) by simp
  then have "0 \<le> of_int limit - of_int limit * fraction" by (simp add: algebra_simps)
  from recovery_exact[OF assms(1) this, of rows s seconds audio] assms(5)
  show ?thesis by (simp add: window_status_def Let_def algebra_simps split: prod.split)
qed

definition ex_speech_row :: "uuid \<Rightarrow> time \<Rightarrow> int \<Rightarrow> asr_row" where
  "ex_speech_row i now seconds = \<lparr>asr_id = i, asr_job = None, asr_account = [],
     asr_model = ''whisper-large-v3-turbo'', asr_audio_seconds = seconds, asr_created = now,
     asr_outcome = ''completed'', asr_result = None, asr_retry_index = 0, asr_retry_after = None\<rparr>"

theorem window_recovery_exact_witness:
  "recover_seconds (window_status default_speech (1 / 20) 3600 100 True 50
      [ex_speech_row 2 20 60, ex_speech_row 1 10 36]) = 3560
    \<and> \<not> of_int (window_usage default_speech 3600 True 3609 None [ex_speech_row 2 20 60, ex_speech_row 1 10 36])
        + of_int 100 * (1 / 20 :: rat) \<le> of_int 100"
proof -
  let ?rows = "[ex_speech_row 2 20 60, ex_speech_row 1 10 36]"
  have "recover_seconds (window_status default_speech (1 / 20) 3600 100 True 50 ?rows) = 3560"
    by (simp add: window_status_def window_recovery_def window_usage_def window_filter_def window_rows_def
        ex_speech_row_def default_speech_def chosen_model_def units_def ASR_NAMES_def Let_def)
  with window_recovery_exact[of 50 3609 100 "1 / 20" ?rows default_speech 3600 True]
  show ?thesis by (simp add: ex_speech_row_def)
qed

section \<open>The buckets recover when announced\<close>

definition clock_reached :: "clk \<Rightarrow> bucket_row list \<Rightarrow> bool" where
  "clock_reached c t \<longleftrightarrow> (\<forall>r \<in> set t. bkt_updated r \<le> stmt_now c)"

lemma balance_recovers:
  assumes "0 < room" "0 < period" "reserve \<le> of_int room" "clock_reached c t" "0 \<le> w"
    "(reserve - balance c n room period t) * period / of_int room \<le> w" "stmt_now c + w \<le> stmt_now c'"
  shows "reserve \<le> balance c' n room period t"
proof (cases "bucket_of n t")
  case None
  then show ?thesis using assms(3) by (simp add: balance_def)
next
  case (Some r)
  let ?k = "of_int room / period"
  have up: "bkt_updated r \<le> stmt_now c"
    using assms(4) Some by (auto simp: clock_reached_def bucket_of_def dest: fetch_SomeD)
  have k: "0 < ?k" using assms(1,2) by simp
  have e: "balance c n room period t = min (of_int room) (bkt_tokens r + (stmt_now c - bkt_updated r) * ?k)"
    using up by (simp add: balance_def Some)
  have e': "balance c' n room period t = min (of_int room) (bkt_tokens r + (stmt_now c' - bkt_updated r) * ?k)"
    using up assms(5,7) by (simp add: balance_def Some)
  show ?thesis
  proof (cases "reserve \<le> balance c n room period t")
    case True
    have "(stmt_now c - bkt_updated r) * ?k \<le> (stmt_now c' - bkt_updated r) * ?k"
      using k assms(5,7) by (intro mult_right_mono) auto
    then show ?thesis using True assms(3) by (simp add: e e')
  next
    case False
    let ?b = "bkt_tokens r + (stmt_now c - bkt_updated r) * ?k"
    have b: "balance c n room period t = ?b" using False assms(3) by (simp add: e min_def split: if_splits)
    have "reserve - ?b \<le> w * ?k"
      using assms(1,2,6) by (simp add: b field_simps)
    also have "\<dots> \<le> (stmt_now c' - stmt_now c) * ?k"
      using k assms(7) by (intro mult_right_mono) auto
    finally have "reserve \<le> bkt_tokens r + (stmt_now c' - bkt_updated r) * ?k"
      by (simp add: algebra_simps add_divide_distrib diff_divide_distrib)
    then show ?thesis using assms(3) by (simp add: e')
  qed
qed

lemma held_recovers:
  assumes "held_seconds c n t \<le> w" "stmt_now c + w \<le> stmt_now c'"
  shows "held_seconds c' n t = 0"
  using assms by (auto simp: held_seconds_def split: option.splits)

lemma bucket_recovers:
  assumes "0 < room" "0 < period" "reserve \<le> of_int room" "clock_reached cb t" "0 \<le> w"
    "recover_seconds (bucket_status cb ch n u room period reserve t) \<le> w"
    "stmt_now cb + w \<le> stmt_now cb'" "stmt_now ch + w \<le> stmt_now ch'"
  shows "recover_seconds (bucket_status cb' ch' n u room period reserve t) = 0"
proof -
  have p: "0 < (of_int period :: rat)" using assms(2) by simp
  have "held_seconds ch n t \<le> w" using assms(6) by (simp add: bucket_status_def Let_def)
  from held_recovers[OF this assms(8)] have h: "held_seconds ch' n t = 0" .
  have "reserve \<le> balance cb' n room (of_int period) t"
    by (rule balance_recovers[OF assms(1) p assms(3,4,5) _ assms(7)])
      (use assms(6) in \<open>simp add: bucket_status_def Let_def\<close>)
  then have "(reserve - balance cb' n room (of_int period) t) * of_int period / of_int room \<le> 0"
    using assms(1) p by (simp add: divide_le_0_iff mult_le_0_iff)
  then show ?thesis by (simp add: bucket_status_def Let_def h)
qed

section \<open>Providers recover when announced\<close>

lemma max_of_le_iff: "max_of x xs \<le> w \<longleftrightarrow> x \<le> w \<and> (\<forall>y \<in> set xs. y \<le> w)"
  by (induction xs) (auto simp: max_of_def)

lemma retry_after_le_iff: "retry_after_seconds p \<le> w \<longleftrightarrow> ps_hold p \<le> w \<and> (\<forall>l \<in> set (ps_limits p). recover_seconds l \<le> w)"
  by (simp add: retry_after_seconds_def max_of_le_iff)

lemma set_map_filter: "set (List.map_filter f xs) = {y. \<exists>x \<in> set xs. f x = Some y}"
  by (induction xs) (auto simp: List.map_filter_simps split: option.splits)

lemma asr_hold_later:
  assumes "asr_hold s now rows \<le> w" "0 \<le> w" "now + w \<le> t"
  shows "asr_hold s t rows \<le> 0"
proof -
  have "h \<le> 0" if h: "h \<in> set (asr_holds s t rows)" for h
  proof -
    from h obtain a wait where a: "a \<in> set rows" "window_filter s 86400 t None a" "asr_outcome a = ''RateLimited''"
      "asr_retry_after a = Some wait" "h = asr_created a + of_int wait - t"
      by (auto simp: asr_holds_def set_map_filter split: if_splits)
    have "window_filter s 86400 now None a" using a(2) assms(2,3) by (simp add: window_filter_def)
    then have "asr_created a + of_int wait - now \<in> set (asr_holds s now rows)"
      using a by (force simp: asr_holds_def set_map_filter)
    then have "asr_created a + of_int wait - now \<le> w" using assms(1) by (simp add: asr_hold_def max_of_le_iff)
    then show ?thesis using a(5) assms(3) by simp
  qed
  then show ?thesis by (simp add: asr_hold_def max_of_le_iff)
qed

end
