(* ===== verification/Quotas.thy ===== *)
theory Quotas
  imports Accounts ProviderBudgets
begin

text \<open>
  The opt-in admission budgets of \<open>backend/services/quotas.py\<close>: the pause of all intake near the
  exhaustion of a provider, the active checks of an owner and the daily budgets, charged in the
  admission transaction. A failed charge is an \<open>Inl\<close>, so it spends nothing. \<open>cs n\<close> is the clock
  of the \<open>n\<close>-th statement: the provider statuses read the first eleven, \<open>active_checks\<close> the next
  and the day is read last. Rendering a JSON value that is not a string as text is a parameter.
\<close>

section \<open>Refusals\<close>

definition lock_owner :: "principal \<Rightarrow> settings \<Rightarrow> db \<Rightarrow> api_failure + unit" where
  "lock_owner p config d =
     (if \<not> quotas_enabled (quota_conf config) then Inr () else lock_active_principal p d)"

definition retry_header :: "rat \<Rightarrow> int" where
  "retry_header seconds = max 1 \<lceil>seconds\<rceil>"

definition exhausted :: "string \<Rightarrow> string \<Rightarrow> rat \<Rightarrow> api_failure" where
  "exhausted code message seconds = Api \<lparr>err_status = 429, err_code = code, err_message = message,
     err_retryable = True, err_action = ''retry'',
     err_headers = [(''Retry-After'', show_int (retry_header seconds))]\<rparr>"

definition paused_providers :: "(nat \<Rightarrow> clk) \<Rightarrow> settings \<Rightarrow> db \<Rightarrow> provider_status list" where
  "paused_providers cs config d = filter pauses_intake (provider_statuses cs config d)"

definition pause_seconds :: "provider_status list \<Rightarrow> rat" where
  "pause_seconds ps = (case map retry_after_seconds ps of [] \<Rightarrow> 0 | x # xs \<Rightarrow> max_of x xs)"

definition provider_gate :: "(nat \<Rightarrow> clk) \<Rightarrow> settings \<Rightarrow> db \<Rightarrow> api_failure + unit" where
  "provider_gate cs config d =
     (if \<not> quotas_enabled (quota_conf config) then Inr ()
      else let paused = paused_providers cs config d
           in if paused \<noteq> []
              then Inl (exhausted ''PROVIDER_QUOTA_EXHAUSTED''
                     ''New checks are paused while the shared provider budget recovers'' (pause_seconds paused))
              else Inr ())"

section \<open>Active checks\<close>

definition FENCE_STAGES :: "string list" where
  "FENCE_STAGES = [''upload_device_text'']"

text \<open>\<open>payload[key].astext\<close>: SQL NULL for an absent or null member.\<close>

definition astext :: "(json \<Rightarrow> string) \<Rightarrow> json \<Rightarrow> string \<Rightarrow> string option" where
  "astext render j k = (case jget j k of
       None \<Rightarrow> None
     | Some JNull \<Rightarrow> None
     | Some (JStr s) \<Rightarrow> Some s
     | Some v \<Rightarrow> Some (render v))"

definition coalesce :: "'a option \<Rightarrow> 'a option \<Rightarrow> 'a option" where
  "coalesce x y = (case x of None \<Rightarrow> y | Some v \<Rightarrow> Some v)"

definition check_of :: "(json \<Rightarrow> string) \<Rightarrow> job_row \<Rightarrow> string" where
  "check_of render r =
     (case coalesce (astext render (job_payload r) ''investigation_id'')
             (coalesce (astext render (job_payload r) ''capture_id'') (astext render (job_payload r) ''session_id'')) of
        Some s \<Rightarrow> s | None \<Rightarrow> str_uuid (job_id r))"

definition counts_as_active :: "uuid \<Rightarrow> job_row \<Rightarrow> bool" where
  "counts_as_active owner r \<longleftrightarrow> job_owner r = Some owner
     \<and> job_state r \<in> {QUEUED, LEASED, RUNNING} \<and> key_stage (job_key r) \<notin> set FENCE_STAGES"

definition active_checks :: "clk \<Rightarrow> (json \<Rightarrow> string) \<Rightarrow> uuid \<Rightarrow> db \<Rightarrow> string list" where
  "active_checks c render owner d = remdups
     (map (check_of render) (filter (counts_as_active owner) (jobs d))
      @ map (\<lambda>s. str_uuid (ses_id s))
          (filter (\<lambda>s. ses_owner s = owner \<and> ses_state s = ''open'' \<and> ses_expires s > stmt_now c)
             (capture_sessions d)))"

section \<open>Charging\<close>

definition DAY_SECONDS :: rat where
  "DAY_SECONDS = 86400"

definition utc_day :: "time \<Rightarrow> int" where
  "utc_day now = \<lfloor>now / DAY_SECONDS\<rfloor>"

definition day_end :: "int \<Rightarrow> time" where
  "day_end day = of_int (day + 1) * DAY_SECONDS"

definition usage_of :: "uuid \<Rightarrow> usage_row list \<Rightarrow> usage_row option" where
  "usage_of owner t = fetch (\<lambda>u. use_owner u = owner) t"

text \<open>What the owner has used of a day: checks and bytes.\<close>

definition used_on :: "uuid \<Rightarrow> int \<Rightarrow> usage_row list \<Rightarrow> int \<times> int" where
  "used_on owner day t = (case usage_of owner t of
       None \<Rightarrow> (0, 0)
     | Some u \<Rightarrow> if use_day u = day then (use_checks u, use_bytes u) else (0, 0))"

definition upsert_usage :: "usage_row \<Rightarrow> usage_row list \<Rightarrow> usage_row list" where
  "upsert_usage u t =
     (if usage_of (use_owner u) t = None then t @ [u]
      else update_where (\<lambda>v. use_owner v = use_owner u)
             (\<lambda>v. v\<lparr>use_day := use_day u, use_checks := use_checks u, use_bytes := use_bytes u\<rparr>) t)"

definition active_gate ::
    "clk \<Rightarrow> (json \<Rightarrow> string) \<Rightarrow> principal \<Rightarrow> settings \<Rightarrow> uuid option \<Rightarrow> db \<Rightarrow> api_failure + unit"
where
  "active_gate c render p config investigation d =
     (let active = active_checks c render (pri_id p) d;
          own = (case investigation of None \<Rightarrow> ''None'' | Some i \<Rightarrow> str_uuid i)
      in if int (length active) \<ge> quota_active_checks (quota_conf config) \<and> own \<notin> set active
         then Inl (exhausted ''QUOTA_EXCEEDED'' ''Wait for an active check to finish or cancel it'' 30)
         else Inr ())"

definition charge_day :: "time \<Rightarrow> principal \<Rightarrow> settings \<Rightarrow> int \<Rightarrow> int \<Rightarrow> db \<Rightarrow> api_failure + db" where
  "charge_day now p config checks bytes d =
     (let day = utc_day now; (old_checks, old_bytes) = used_on (pri_id p) day (quota_usage d);
          wait = day_end day - now
      in if old_checks + checks > quota_daily_checks (quota_conf config)
           then Inl (exhausted ''QUOTA_EXCEEDED'' ''The daily check budget is exhausted'' wait)
         else if old_bytes + bytes > quota_daily_upload_bytes (quota_conf config)
           then Inl (exhausted ''QUOTA_EXCEEDED'' ''The daily upload budget is exhausted'' wait)
         else Inr (d\<lparr>quota_usage := upsert_usage \<lparr>use_owner = pri_id p, use_day = day,
                use_checks = old_checks + checks, use_bytes = old_bytes + bytes\<rparr> (quota_usage d)\<rparr>))"

definition charge ::
    "(nat \<Rightarrow> clk) \<Rightarrow> (json \<Rightarrow> string) \<Rightarrow> principal \<Rightarrow> settings \<Rightarrow> int \<Rightarrow> int \<Rightarrow> uuid option \<Rightarrow> db \<Rightarrow> api_failure + db"
where
  "charge cs render p config checks bytes investigation d =
     (if \<not> quotas_enabled (quota_conf config) then Inr d
      else rbind (if checks \<noteq> 0
                  then rbind (provider_gate cs config d)
                         (\<lambda>_. active_gate (cs 11) render p config investigation d)
                  else Inr ())
             (\<lambda>_. charge_day (stmt_now (cs 12)) p config checks bytes d))"

section \<open>The pause ends when announced\<close>

lemma accepted_fields:
  assumes "load_settings mk c = Inr s"
  shows "evidence_fields_ok (evidence_conf s)" "quota_fields_ok (quota_conf s)" "speech_fields_ok (speech_conf s)"
    "quotas_enabled (quota_conf s) \<Longrightarrow> quota_provider_reserve (quota_conf s) < scholarxiv_requests_per_hour (evidence_conf s)"
proof -
  obtain c1 where v: "fields_ok mk c" "extraction_gate c = Inr c1" "backoff_bounds c1 = Inr s"
    using assms
    by (auto simp: load_settings_def validate_def rbind_Inr_iff hosted_speech_configuration_def
        split: sum.splits if_splits)
  have s: "c1 = s" using v(3) by (simp add: backoff_bounds_def split: if_splits)
  have "s = c \<or> s = stub_stages c"
    using v(2) by (auto simp: extraction_gate_def s split: if_splits dest!: opted_in_Inr(1))
  then have "evidence_conf s = evidence_conf c" "quota_conf s = quota_conf c" "speech_conf s = speech_conf c"
    by (auto simp: stub_stages_def)
  then show "evidence_fields_ok (evidence_conf s)" "quota_fields_ok (quota_conf s)" "speech_fields_ok (speech_conf s)"
    using v(1) by (simp_all add: fields_ok_def)
  show "quota_provider_reserve (quota_conf s) < scholarxiv_requests_per_hour (evidence_conf s)"
    if "quotas_enabled (quota_conf s)"
    using v(3) that by (simp add: backoff_bounds_def s split: if_splits)
qed

lemma scholarxiv_recovers:
  assumes "retry_after_seconds (scholarxiv_status cb ch config d) \<le> w" "0 \<le> w"
    "evidence_fields_ok (evidence_conf config)" "clock_reached cb (provider_buckets d)"
    "quota_provider_reserve (quota_conf config) < scholarxiv_requests_per_hour (evidence_conf config)"
    "stmt_now cb + w \<le> stmt_now cb'" "stmt_now ch + w \<le> stmt_now ch'"
  shows "retry_after_seconds (scholarxiv_status cb' ch' config d) \<le> 0"
proof -
  let ?room = "scholarxiv_requests_per_hour (evidence_conf config)"
  let ?reserve = "of_int (quota_provider_reserve (quota_conf config)) :: rat"
  have "0 < ?room" using assms(3) by (simp add: evidence_fields_ok_def in_range_def)
  moreover have "?reserve \<le> of_int ?room" using assms(5) by simp
  moreover have "recover_seconds (bucket_status cb ch SCHOLARXIV_BUCKET ''requests'' ?room 3600 ?reserve (provider_buckets d)) \<le> w"
    using assms(1) by (simp add: retry_after_le_iff scholarxiv_status_def)
  ultimately have "recover_seconds (bucket_status cb' ch' SCHOLARXIV_BUCKET ''requests'' ?room 3600 ?reserve (provider_buckets d)) = 0"
    by (intro bucket_recovers[where w = w and cb = cb and ch = ch]) (use assms in simp_all)
  then show ?thesis by (simp add: retry_after_le_iff scholarxiv_status_def)
qed

lemma reserve_below:
  assumes "quota_fields_ok q" "0 < n"
  shows "0 \<le> of_int n - of_int n * quota_provider_reserve_fraction q"
proof -
  have "0 \<le> of_int n * (1 - quota_provider_reserve_fraction q)"
    using assms by (simp add: quota_fields_ok_def)
  then show ?thesis by (simp add: algebra_simps)
qed

lemma asr_recovers:
  assumes "retry_after_seconds (asr_status now config d) \<le> w" "0 \<le> w" "now + w \<le> t"
    "speech_fields_ok (speech_conf config)" "quota_fields_ok (quota_conf config)"
    "\<forall>a \<in> set (asr_requests d). 0 \<le> asr_audio_seconds a"
  shows "retry_after_seconds (asr_status t config d) \<le> 0"
proof -
  let ?s = "speech_conf config" and ?f = "quota_provider_reserve_fraction (quota_conf config)"
  let ?limits = "limited_windows ?s"
  have windows_recover: "recover_seconds (window_status ?s ?f seconds n audio t (asr_requests d)) \<le> 0"
    if m: "(seconds, n, audio) \<in> set ?limits" for seconds n audio
  proof -
    have "(seconds, Some n, audio) \<in> set (windows ?s)"
      using m by (auto simp: limited_windows_def set_map_filter split: option.splits)
    then have "0 < n" by (rule windows_positive[OF assms(4)])
    from reserve_below[OF assms(5) this] have room: "0 \<le> of_int n - of_int n * ?f" .
    have "recover_seconds (window_status ?s ?f seconds n audio now (asr_requests d)) \<le> w"
      using assms(1) m by (auto simp: retry_after_le_iff asr_status_def Let_def)
    then have "now + window_recovery ?s seconds (of_int n - of_int n * ?f) audio now (asr_requests d) \<le> t"
      using assms(3) by (simp add: window_status_def Let_def split: prod.splits)
    then have "of_int (window_usage ?s seconds audio t None (asr_requests d)) \<le> of_int n - of_int n * ?f"
      using recovery_exact[OF _ room, of now t "asr_requests d" ?s seconds audio] assms(2,3,6) by simp
    then show ?thesis by (simp add: window_status_def window_recovery_def Let_def split: prod.splits)
  qed
  have "asr_hold ?s t (asr_requests d) \<le> 0" if "?limits \<noteq> []"
    by (rule asr_hold_later[OF _ assms(2,3)]) (use assms(1) that in \<open>simp add: retry_after_le_iff asr_status_def Let_def\<close>)
  then show ?thesis using windows_recover by (auto simp: retry_after_le_iff asr_status_def Let_def)
qed

lemma llm_buckets_positive:
  assumes "quota_fields_ok q" "(n, u, period, field) \<in> set GROQ_LLM_BUCKETS"
  shows "0 < field q" "0 < period"
  using assms by (auto simp: GROQ_LLM_BUCKETS_def quota_fields_ok_def in_range_def)

lemma llm_recovers:
  assumes "retry_after_seconds (llm_status cs config d) \<le> w" "0 \<le> w" "quota_fields_ok (quota_conf config)"
    "\<And>n. clock_reached (cs n) (provider_buckets d)" "\<And>n. stmt_now (cs n) + w \<le> stmt_now (cs' n)"
  shows "retry_after_seconds (llm_status cs' config d) \<le> 0"
proof -
  let ?q = "quota_conf config"
  let ?zip = "zip [0..<length GROQ_LLM_BUCKETS] GROQ_LLM_BUCKETS"
  let ?st = "\<lambda>cs (i, n, u, period, field). bucket_status (cs (2 * i)) (cs (2 * i + 1)) n u (field ?q) period
      (of_int (field ?q) * quota_provider_reserve_fraction ?q) (provider_buckets d)"
  have "recover_seconds (?st cs' x) \<le> 0" if x: "x \<in> set ?zip" for x
  proof -
    obtain i n u period field where e: "x = (i, n, u, period, field)" by (cases x)
    have m: "(n, u, period, field) \<in> set GROQ_LLM_BUCKETS" using x set_zip_rightD by (fastforce simp: e)
    note pos = llm_buckets_positive[OF assms(3) m]
    have "recover_seconds (?st cs x) \<le> w" using assms(1) x by (auto simp: retry_after_le_iff llm_status_def)
    then have "recover_seconds (?st cs' x) = 0"
      unfolding e prod.case
      by (intro bucket_recovers[where w = w and cb = "cs (2 * i)" and ch = "cs (2 * i + 1)"])
        (use pos reserve_below[OF assms(3) pos(1)] assms(2,4,5) in simp_all)
    then show ?thesis by simp
  qed
  then show ?thesis by (auto simp: retry_after_le_iff llm_status_def)
qed

text \<open>The statuses of a reading, and what makes a provider pause.\<close>

lemma pauses_iff: "pauses_intake p \<longleftrightarrow> ps_configured p \<and> \<not> retry_after_seconds p \<le> 0"
  by (auto simp: pauses_intake_def near_exhaustion_def)

lemma status_configured:
  "ps_configured (scholarxiv_status cb ch config d) \<longleftrightarrow> scholarxiv_api_key (evidence_conf config) \<noteq> None"
  "ps_configured (asr_status now config d) \<longleftrightarrow> asr_enabled (speech_conf config) \<and> limited_windows (speech_conf config) \<noteq> []"
  "ps_configured (llm_status cs config d) \<longleftrightarrow> groq_extraction_enabled (extraction_conf config)"
  by (simp_all add: scholarxiv_status_def asr_status_def llm_status_def Let_def)

lemma pause_covers:
  assumes "p \<in> set (provider_statuses cs config d)" "ps_configured p"
  shows "retry_after_seconds p \<le> of_int (retry_header (pause_seconds (paused_providers cs config d)))"
proof -
  have ceil: "x \<le> of_int (retry_header x)" for x
    unfolding retry_header_def by (meson le_of_int_ceiling max.cobounded2 of_int_le_iff order_trans)
  show ?thesis
  proof (cases "retry_after_seconds p \<le> 0")
    case True
    have "(1 :: rat) \<le> of_int (retry_header x)" for x by (simp add: retry_header_def)
    then show ?thesis using True order_trans[OF _ order_trans[OF zero_le_one]] by blast
  next
    case False
    then have "p \<in> set (paused_providers cs config d)"
      using assms by (simp add: paused_providers_def pauses_iff)
    then have "retry_after_seconds p \<in> set (map retry_after_seconds (paused_providers cs config d))" by simp
    moreover have "x \<in> set xs \<Longrightarrow> x \<le> (case xs of [] \<Rightarrow> 0 | y # ys \<Rightarrow> max_of y ys)" for x :: rat and xs
    proof (cases xs)
      case (Cons y ys)
      then show "x \<in> set xs \<Longrightarrow> ?thesis" using max_of_le_iff[of y ys "max_of y ys"] by auto
    qed simp
    ultimately have "retry_after_seconds p \<le> pause_seconds (paused_providers cs config d)"
      unfolding pause_seconds_def by blast
    then show ?thesis using ceil order_trans by blast
  qed
qed

text \<open>The announced pause of intake is long enough. A refusal of the provider gate carries a positive
  Retry-After, and a request that waits so long is let through as long as the shared buckets and the
  speech ledger were not used meanwhile, whatever else changed in the database.\<close>

theorem gate_reopens:
  assumes "load_settings mk c = Inr config" "provider_gate cs config d = Inl f"
    and "\<forall>n. clock_reached (cs n) (provider_buckets d)" "\<forall>a \<in> set (asr_requests d). 0 \<le> asr_audio_seconds a"
  shows "\<exists>e w. f = Api e \<and> err_status e = 429 \<and> err_headers e = [(''Retry-After'', show_int w)] \<and> 1 \<le> w
    \<and> (\<forall>cs' d'. (\<forall>n. stmt_now (cs n) + of_int w \<le> stmt_now (cs' n)) \<longrightarrow> provider_buckets d' = provider_buckets d
          \<longrightarrow> asr_requests d' = asr_requests d \<longrightarrow> provider_gate cs' config d' = Inr ())"
proof -
  let ?w = "retry_header (pause_seconds (paused_providers cs config d))"
  note ok = accepted_fields[OF assms(1)]
  have on: "quotas_enabled (quota_conf config)" and f: "f = exhausted ''PROVIDER_QUOTA_EXHAUSTED''
      ''New checks are paused while the shared provider budget recovers'' (pause_seconds (paused_providers cs config d))"
    using assms(2) by (auto simp: provider_gate_def Let_def split: if_splits)
  have w: "1 \<le> ?w" "0 \<le> (of_int ?w :: rat)" by (simp_all add: retry_header_def)
  have "provider_gate cs' config d' = Inr ()"
    if t: "\<forall>n. stmt_now (cs n) + of_int ?w \<le> stmt_now (cs' n)" and same: "provider_buckets d' = provider_buckets d"
      "asr_requests d' = asr_requests d" for cs' d'
  proof -
    have below: "retry_after_seconds p \<le> of_int ?w" if "p \<in> set (provider_statuses cs config d)" "ps_configured p" for p
      using that by (rule pause_covers)
    let ?a = "scholarxiv_status (cs 1) (cs 2) config d" and ?a' = "scholarxiv_status (cs' 1) (cs' 2) config d"
    let ?b = "asr_status (stmt_now (cs 0)) config d" and ?b' = "asr_status (stmt_now (cs' 0)) config d"
    let ?c = "llm_status (\<lambda>i. cs (i + 3)) config d" and ?c' = "llm_status (\<lambda>i. cs' (i + 3)) config d"
    have m: "?a \<in> set (provider_statuses cs config d)" "?b \<in> set (provider_statuses cs config d)"
      "?c \<in> set (provider_statuses cs config d)" by (simp_all add: provider_statuses_def)
    have "retry_after_seconds ?a' \<le> 0" if "ps_configured ?a"
      by (rule scholarxiv_recovers[OF below[OF m(1) that] w(2) ok(1) _ ok(4)[OF on]]) (use t assms(3) in blast)+
    then have "\<not> pauses_intake ?a'" unfolding pauses_iff status_configured by blast
    moreover have "retry_after_seconds ?b' \<le> 0" if "ps_configured ?b"
      by (rule asr_recovers[OF below[OF m(2) that] w(2) _ ok(3,2) assms(4)]) (use t in blast)
    then have "\<not> pauses_intake ?b'" unfolding pauses_iff status_configured by blast
    moreover have "retry_after_seconds ?c' \<le> 0" if "ps_configured ?c"
      by (rule llm_recovers[OF below[OF m(3) that] w(2) ok(2)]) (use t assms(3) in blast)+
    then have "\<not> pauses_intake ?c'" unfolding pauses_iff status_configured by blast
    moreover have "provider_statuses cs' config d' = provider_statuses cs' config d"
      by (simp add: provider_statuses_def scholarxiv_status_def asr_status_def llm_status_def Let_def same)
    ultimately show ?thesis by (simp add: provider_gate_def paused_providers_def provider_statuses_def)
  qed
  moreover obtain e where "f = Api e" "err_status e = 429" "err_headers e = [(''Retry-After'', show_int ?w)]"
    using f by (simp add: exhausted_def)
  ultimately show ?thesis using w(1) by (intro exI[of _ e] exI[of _ ?w] conjI allI impI) simp_all
qed

definition ex_quota_config :: settings where
  "ex_quota_config = (default_settings ''u'')\<lparr>quota_conf := default_quotas\<lparr>quotas_enabled := True\<rparr>,
     evidence_conf := default_evidence\<lparr>scholarxiv_api_key := Some ''key''\<rparr>\<rparr>"

definition ex_url :: "string \<Rightarrow> parsed_url option" where
  "ex_url u = Some \<lparr>url_driver = ''postgresql+psycopg'', url_host = Some ''h'', url_database = Some ''d''\<rparr>"

lemma ex_quota_accepted: "load_settings ex_url ex_quota_config = Inr ex_quota_config"
proof -
  have "evidence_fields_ok (default_evidence\<lparr>scholarxiv_api_key := Some ''key''\<rparr>)"
    by (simp add: evidence_fields_ok_def default_evidence_def in_range_def positive_to_def)
  moreover have "quota_fields_ok (default_quotas\<lparr>quotas_enabled := True\<rparr>)"
    by (simp add: quota_fields_ok_def default_quotas_def in_range_def DEFAULT_UPLOAD_MAX_BYTES_def)
  moreover have "postgres_url ex_url ''u'' = None" by (simp add: postgres_url_def ex_url_def)
  ultimately have "fields_ok ex_url ex_quota_config"
    by (simp add: fields_ok_def default_fields_ok ex_quota_config_def default_settings_def)
  moreover have "extraction_gate ex_quota_config = Inr ex_quota_config"
    by (simp add: extraction_gate_def opted_in_def ex_quota_config_def default_settings_def default_extraction_def)
  moreover have "backoff_bounds ex_quota_config = Inr ex_quota_config"
    by (simp add: backoff_bounds_def ex_quota_config_def default_settings_def default_jobs_def default_quotas_def
        default_evidence_def opt_all_def)
  moreover have "hosted_speech_configuration ex_quota_config = Inr ex_quota_config"
    by (simp add: hosted_speech_configuration_def ex_quota_config_def default_settings_def)
  ultimately show ?thesis by (simp add: load_settings_def validate_def)
qed

definition ex_low :: db where
  "ex_low = empty_db\<lparr>provider_buckets :=
     [\<lparr>bkt_name = ''scholarxiv'', bkt_tokens = 10, bkt_updated = 0, bkt_held_until = None\<rparr>]\<rparr>"

definition ex_at :: "time \<Rightarrow> clk" where
  "ex_at t = \<lparr>tx_now = t, stmt_now = t, wall = t\<rparr>"

lemma ex_low_gate:
  "provider_gate (\<lambda>_. ex_at 0) ex_quota_config ex_low = Inl (exhausted ''PROVIDER_QUOTA_EXHAUSTED''
     ''New checks are paused while the shared provider budget recovers'' 144)"
proof -
  have a: "retry_after_seconds (scholarxiv_status (ex_at 0) (ex_at 0) ex_quota_config ex_low) = 144"
    by (simp add: retry_after_seconds_def scholarxiv_status_def bucket_status_def balance_def bucket_of_def
        held_seconds_def max_of_def ex_low_def ex_at_def SCHOLARXIV_BUCKET_def ex_quota_config_def
        default_settings_def default_evidence_def default_quotas_def Let_def)
  moreover have "\<not> pauses_intake (asr_status 0 ex_quota_config ex_low)"
    by (simp add: pauses_iff status_configured limited_windows_def windows_def ex_quota_config_def
        default_settings_def default_speech_def List.map_filter_simps)
  moreover have "\<not> pauses_intake (llm_status (\<lambda>i. ex_at 0) ex_quota_config ex_low)"
    by (simp add: pauses_iff status_configured ex_quota_config_def default_settings_def default_extraction_def)
  moreover have "pauses_intake (scholarxiv_status (ex_at 0) (ex_at 0) ex_quota_config ex_low)"
    unfolding pauses_iff status_configured a
    by (simp add: ex_quota_config_def default_settings_def default_evidence_def)
  moreover have "quotas_enabled (quota_conf ex_quota_config)" "stmt_now (ex_at 0) = 0"
    by (simp_all add: ex_quota_config_def ex_at_def)
  ultimately show ?thesis
    by (simp add: provider_gate_def paused_providers_def provider_statuses_def pause_seconds_def max_of_def)
qed

theorem gate_reopens_witness:
  "\<exists>w. err_headers (case provider_gate (\<lambda>_. ex_at 0) ex_quota_config ex_low of Inl (Api e) \<Rightarrow> e) = [(''Retry-After'', show_int w)]
     \<and> provider_gate (\<lambda>_. ex_at (of_int w)) ex_quota_config ex_low = Inr ()"
proof -
  have "\<forall>n. clock_reached ((\<lambda>_. ex_at 0) n) (provider_buckets ex_low)"
    by (simp add: clock_reached_def ex_low_def ex_at_def)
  moreover have "\<forall>a \<in> set (asr_requests ex_low). 0 \<le> asr_audio_seconds a"
    by (simp add: ex_low_def empty_db_def)
  ultimately obtain e w where "exhausted ''PROVIDER_QUOTA_EXHAUSTED''
      ''New checks are paused while the shared provider budget recovers'' 144 = Api e"
    "err_headers e = [(''Retry-After'', show_int w)]"
    "\<forall>cs' d'. (\<forall>n :: nat. stmt_now (ex_at 0) + of_int w \<le> stmt_now (cs' n)) \<longrightarrow> provider_buckets d' = provider_buckets ex_low
        \<longrightarrow> asr_requests d' = asr_requests ex_low \<longrightarrow> provider_gate cs' ex_quota_config d' = Inr ()"
    using gate_reopens[OF ex_quota_accepted ex_low_gate] by blast
  then show ?thesis by (intro exI[of _ w]) (simp add: ex_low_gate, simp add: ex_at_def)
qed

section \<open>The daily budgets hold\<close>

lemma utc_day_le: "t \<le> now \<Longrightarrow> utc_day t \<le> utc_day now"
  by (simp add: utc_day_def DAY_SECONDS_def divide_right_mono floor_mono)

interpretation usage_table: keyed use_owner .

lemma usage_of_upsert:
  "usage_of o1 (upsert_usage u t) = (if o1 = use_owner u
     then Some \<lparr>use_owner = use_owner u, use_day = use_day u, use_checks = use_checks u, use_bytes = use_bytes u\<rparr>
     else usage_of o1 t)"
proof (cases "usage_of (use_owner u) t = None")
  case True
  then show ?thesis by (cases u) (auto simp: upsert_usage_def usage_of_def fetch_append split: option.splits)
next
  case False
  have upd: "usage_of o1 (upsert_usage u t) = map_option (\<lambda>v. if use_owner v = use_owner u
      then v\<lparr>use_day := use_day u, use_checks := use_checks u, use_bytes := use_bytes u\<rparr> else v) (usage_of o1 t)"
    using False by (simp only: upsert_usage_def if_False usage_of_def) (rule usage_table.fetch_update, simp)
  show ?thesis
  proof (cases "usage_of o1 t")
    case None
    then have "o1 \<noteq> use_owner u" using False by auto
    then show ?thesis using upd None by simp
  next
    case (Some v)
    then have "use_owner v = o1" unfolding usage_of_def by (auto dest: fetch_SomeD)
    then show ?thesis using upd Some by (auto intro!: usage_row.equality)
  qed
qed

text \<open>
  A run of admissions on one database, with a log of what the charges accepted: owner, day, checks and
  bytes. Between charges anything else may happen that leaves the usage rows alone. Clocks never go back.
\<close>

type_synonym admissions = "time \<times> (uuid \<times> int \<times> int \<times> int) list \<times> db"

inductive admission_step :: "settings \<Rightarrow> (json \<Rightarrow> string) \<Rightarrow> admissions \<Rightarrow> admissions \<Rightarrow> bool" for config render where
  ad_charge: "charge cs render p config checks bytes investigation d = Inr e \<Longrightarrow> t \<le> stmt_now (cs 12) \<Longrightarrow>
    0 \<le> checks \<Longrightarrow> 0 \<le> bytes \<Longrightarrow> quotas_enabled (quota_conf config) \<Longrightarrow>
    admission_step config render (t, ledger, d)
      (stmt_now (cs 12), (pri_id p, utc_day (stmt_now (cs 12)), checks, bytes) # ledger, e)"
| ad_other: "quota_usage e = quota_usage d \<Longrightarrow> t \<le> u \<Longrightarrow> admission_step config render (t, ledger, d) (u, ledger, e)"

definition spent :: "(int \<times> int \<Rightarrow> int) \<Rightarrow> uuid \<Rightarrow> int \<Rightarrow> (uuid \<times> int \<times> int \<times> int) list \<Rightarrow> int" where
  "spent what owner day ledger = sum_list (map (\<lambda>(q, y, amounts). what amounts) (filter (\<lambda>(q, y, amounts). q = owner \<and> y = day) ledger))"

lemma spent_simps [simp]: "spent what owner day [] = 0"
  "spent what owner day ((q, y, amounts) # ledger) = (if q = owner \<and> y = day then what amounts else 0) + spent what owner day ledger"
  by (simp_all add: spent_def)

lemma spent_other_days: "(\<And>q y a. (q, y, a) \<in> set ledger \<Longrightarrow> q = owner \<Longrightarrow> y \<noteq> day) \<Longrightarrow> spent what owner day ledger = 0"
proof -
  assume "\<And>q y a. (q, y, a) \<in> set ledger \<Longrightarrow> q = owner \<Longrightarrow> y \<noteq> day"
  then have "filter (\<lambda>(q, y, amounts). q = owner \<and> y = day) ledger = []" by (fastforce simp: filter_empty_conv)
  then show ?thesis by (simp only: spent_def) simp
qed

text \<open>
  Every usage row covers what the log spent on its day, and the row of an owner in the log is not
  older than its entries and not in the future.
\<close>

definition usage_covers :: "settings \<Rightarrow> admissions \<Rightarrow> bool" where
  "usage_covers config st \<longleftrightarrow> (case st of (t, ledger, d) \<Rightarrow>
     (\<forall>q u. usage_of q (quota_usage d) = Some u \<longrightarrow> 0 \<le> use_checks u \<and> 0 \<le> use_bytes u)
     \<and> (\<forall>q y a. (q, y, a) \<in> set ledger \<longrightarrow>
           (\<exists>u. usage_of q (quota_usage d) = Some u \<and> y \<le> use_day u \<and> use_day u \<le> utc_day t))
     \<and> (\<forall>q u. usage_of q (quota_usage d) = Some u \<longrightarrow>
           spent fst q (use_day u) ledger \<le> use_checks u \<and> spent snd q (use_day u) ledger \<le> use_bytes u)
     \<and> (\<forall>q day. spent fst q day ledger \<le> quota_daily_checks (quota_conf config)
           \<and> spent snd q day ledger \<le> quota_daily_upload_bytes (quota_conf config)))"

lemma usage_coversD:
  assumes "usage_covers config (t, ledger, d)"
  shows "usage_of q (quota_usage d) = Some u \<Longrightarrow> 0 \<le> use_checks u \<and> 0 \<le> use_bytes u"
    "(q, y, a) \<in> set ledger \<Longrightarrow> \<exists>u. usage_of q (quota_usage d) = Some u \<and> y \<le> use_day u \<and> use_day u \<le> utc_day t"
    "usage_of q (quota_usage d) = Some u \<Longrightarrow>
       spent fst q (use_day u) ledger \<le> use_checks u \<and> spent snd q (use_day u) ledger \<le> use_bytes u"
    "spent fst q day ledger \<le> quota_daily_checks (quota_conf config)
       \<and> spent snd q day ledger \<le> quota_daily_upload_bytes (quota_conf config)"
  using assms unfolding usage_covers_def prod.case by blast+

lemma charge_Inr:
  assumes "charge cs render p config checks bytes investigation d = Inr e" "quotas_enabled (quota_conf config)"
  shows "charge_day (stmt_now (cs 12)) p config checks bytes d = Inr e"
    "checks \<noteq> 0 \<Longrightarrow> provider_gate cs config d = Inr ()"
    "checks \<noteq> 0 \<Longrightarrow> active_gate (cs 11) render p config investigation d = Inr ()"
  using assms by (auto simp: charge_def rbind_Inr_iff split: if_splits)

lemma charge_day_Inr:
  assumes "charge_day now p config checks bytes d = Inr e" "used_on (pri_id p) (utc_day now) (quota_usage d) = (m, n)"
  shows "m + checks \<le> quota_daily_checks (quota_conf config)" "n + bytes \<le> quota_daily_upload_bytes (quota_conf config)"
    "e = d\<lparr>quota_usage := upsert_usage \<lparr>use_owner = pri_id p, use_day = utc_day now, use_checks = m + checks,
       use_bytes = n + bytes\<rparr> (quota_usage d)\<rparr>"
  using assms by (auto simp: charge_day_def Let_def split: if_splits)

text \<open>What the row says was used of today covers the log's entries of today.\<close>

lemma used_on_covers:
  assumes "usage_covers config (t, ledger, d)" "utc_day t \<le> day" "used_on q day (quota_usage d) = (m, n)"
  shows "0 \<le> m \<and> 0 \<le> n \<and> spent fst q day ledger \<le> m \<and> spent snd q day ledger \<le> n"
proof (cases "\<exists>u. usage_of q (quota_usage d) = Some u \<and> use_day u = day")
  case True
  then obtain u where u: "usage_of q (quota_usage d) = Some u" "use_day u = day" by blast
  then have "m = use_checks u" "n = use_bytes u" using assms(3) by (simp_all add: used_on_def)
  then show ?thesis using usage_coversD(1,3)[OF assms(1) u(1)] u(2) by simp
next
  case False
  then have z: "m = 0" "n = 0" using assms(3) by (auto simp: used_on_def split: option.splits)
  have "spent what q day ledger = 0" for what
  proof (rule spent_other_days)
    fix q' y a assume "(q', y, a) \<in> set ledger" "q' = q"
    then obtain u where "usage_of q (quota_usage d) = Some u" "y \<le> use_day u" "use_day u \<le> utc_day t"
      using usage_coversD(2)[OF assms(1)] by blast
    then show "y \<noteq> day" using False assms(2) by auto
  qed
  then show ?thesis by (simp add: z)
qed

lemma charge_keeps_covers:
  assumes ok: "usage_covers config (t, ledger, d)" and now: "t \<le> now" and pos: "0 \<le> checks" "0 \<le> bytes"
    and e: "charge_day now p config checks bytes d = Inr e"
  shows "usage_covers config (now, (pri_id p, utc_day now, checks, bytes) # ledger, e)"
proof -
  obtain m n where mn: "used_on (pri_id p) (utc_day now) (quota_usage d) = (m, n)" by fastforce
  note c = charge_day_Inr[OF e mn]
  note day = utc_day_le[OF now]
  note old = used_on_covers[OF ok day mn]
  have row: "usage_of q (quota_usage e) = (if q = pri_id p then Some \<lparr>use_owner = pri_id p, use_day = utc_day now,
      use_checks = m + checks, use_bytes = n + bytes\<rparr> else usage_of q (quota_usage d))" for q
    by (simp add: c(3) usage_of_upsert)
  show ?thesis
    unfolding usage_covers_def prod.case
  proof (intro conjI allI impI)
    fix q u assume "usage_of q (quota_usage e) = Some u"
    then show "0 \<le> use_checks u" "0 \<le> use_bytes u"
      using usage_coversD(1)[OF ok] old pos by (auto simp: row split: if_splits)
  next
    fix q y a assume m: "(q, y, a) \<in> set ((pri_id p, utc_day now, checks, bytes) # ledger)"
    show "\<exists>u. usage_of q (quota_usage e) = Some u \<and> y \<le> use_day u \<and> use_day u \<le> utc_day now"
    proof (cases "q = pri_id p")
      case True
      have "y \<le> utc_day now" using m usage_coversD(2)[OF ok, of q y a] day by auto
      then show ?thesis using True by (simp add: row)
    next
      case False
      then show ?thesis using m usage_coversD(2)[OF ok, of q y a] day by (force simp: row)
    qed
  next
    fix q u assume "usage_of q (quota_usage e) = Some u"
    then show "spent fst q (use_day u) ((pri_id p, utc_day now, checks, bytes) # ledger) \<le> use_checks u"
      "spent snd q (use_day u) ((pri_id p, utc_day now, checks, bytes) # ledger) \<le> use_bytes u"
      using usage_coversD(3)[OF ok, of q u] old by (auto simp: row split: if_splits)
  next
    fix q y
    show "spent fst q y ((pri_id p, utc_day now, checks, bytes) # ledger) \<le> quota_daily_checks (quota_conf config)"
      "spent snd q y ((pri_id p, utc_day now, checks, bytes) # ledger) \<le> quota_daily_upload_bytes (quota_conf config)"
      using usage_coversD(4)[OF ok, of q y] old c(1,2) by auto
  qed
qed

lemma admission_step_covers:
  assumes "admission_step config render st st'" "usage_covers config st"
  shows "usage_covers config st'"
  using assms(1)
proof cases
  case (ad_charge cs p checks bytes investigation d e t ledger)
  then show ?thesis using charge_keeps_covers[OF _ ad_charge(4,5,6)] charge_Inr(1)[OF ad_charge(3,7)] assms(2) by simp
next
  case (ad_other e d t u ledger)
  have "utc_day t \<le> utc_day u" by (rule utc_day_le) (rule ad_other(4))
  then show ?thesis
    using assms(2) unfolding ad_other(1,2) usage_covers_def prod.case ad_other(3) by (meson order_trans)
qed

interpretation admission: invariant_system "admission_step config render" "usage_covers config" for config render
  by unfold_locales (rule admission_step_covers)

text \<open>C22: The daily budgets hold. In any run of admissions whose clocks do not go back, interleaved with
  anything that leaves the usage rows alone, the checks and upload bytes accepted for one owner on one
  UTC day never exceed the daily budgets.\<close>

theorem daily_budgets_hold:
  assumes "(admission_step config render)\<^sup>*\<^sup>* (t, [], d) (u, ledger, e)" "load_settings mk c = Inr config"
    and "\<forall>r \<in> set (quota_usage d). 0 \<le> use_checks r \<and> 0 \<le> use_bytes r"
  shows "spent fst owner day ledger \<le> quota_daily_checks (quota_conf config)
    \<and> spent snd owner day ledger \<le> quota_daily_upload_bytes (quota_conf config)"
proof -
  have "0 \<le> quota_daily_checks (quota_conf config)" "0 \<le> quota_daily_upload_bytes (quota_conf config)"
    using accepted_fields(2)[OF assms(2)] by (simp_all add: quota_fields_ok_def in_range_def)
  then have "usage_covers config (t, [], d)"
    using assms(3) by (auto simp: usage_covers_def usage_of_def dest!: fetch_SomeD)
  from admission.good_run[OF assms(1) this] show ?thesis by (rule usage_coversD(4))
qed

definition ex_caller :: principal where
  "ex_caller = \<lparr>pri_id = 7, pri_kind = ''guest''\<rparr>"

theorem daily_budgets_hold_witness:
  "\<exists>e. (admission_step ex_quota_config (\<lambda>_. []))\<^sup>*\<^sup>* (0, [], empty_db) (100, [(7, 0, 1, 20)], e)
     \<and> spent fst 7 0 [(7, 0, 1, 20)] \<le> quota_daily_checks (quota_conf ex_quota_config)"
proof -
  have q: "quotas_enabled (quota_conf ex_quota_config)" by (simp add: ex_quota_config_def)
  have "provider_gate (\<lambda>_. ex_at 100) ex_quota_config empty_db = Inr ()"
  proof -
    have "retry_after_seconds (scholarxiv_status (ex_at 100) (ex_at 100) ex_quota_config empty_db) = 0"
      by (simp add: retry_after_seconds_def scholarxiv_status_def bucket_status_def balance_def bucket_of_def
          held_seconds_def max_of_def ex_at_def SCHOLARXIV_BUCKET_def ex_quota_config_def empty_db_def
          default_settings_def default_evidence_def default_quotas_def Let_def)
    then have "\<not> pauses_intake (scholarxiv_status (ex_at 100) (ex_at 100) ex_quota_config empty_db)"
      by (simp add: pauses_iff)
    moreover have "\<not> pauses_intake (asr_status 100 ex_quota_config empty_db)"
      by (simp add: pauses_iff status_configured limited_windows_def windows_def ex_quota_config_def
          default_settings_def default_speech_def List.map_filter_simps)
    moreover have "\<not> pauses_intake (llm_status (\<lambda>i. ex_at 100) ex_quota_config empty_db)"
      by (simp add: pauses_iff status_configured ex_quota_config_def default_settings_def default_extraction_def)
    moreover have "stmt_now (ex_at 100) = 100" by (simp add: ex_at_def)
    ultimately show ?thesis by (simp add: provider_gate_def paused_providers_def provider_statuses_def)
  qed
  moreover have "active_gate (ex_at 100) (\<lambda>_. []) ex_caller ex_quota_config None empty_db = Inr ()"
    by (simp add: active_gate_def active_checks_def empty_db_def ex_quota_config_def default_settings_def default_quotas_def)
  moreover obtain e where e: "charge_day 100 ex_caller ex_quota_config 1 20 empty_db = Inr e"
    by (simp add: charge_day_def used_on_def usage_of_def empty_db_def ex_quota_config_def default_settings_def
        default_quotas_def DEFAULT_UPLOAD_MAX_BYTES_def)
  ultimately have charged: "charge (\<lambda>_. ex_at 100) (\<lambda>_. []) ex_caller ex_quota_config 1 20 None empty_db = Inr e"
    using q by (simp add: charge_def ex_at_def)
  have day: "utc_day 100 = 0" by (simp add: utc_day_def DAY_SECONDS_def floor_eq_iff)
  from ad_charge[OF charged, of 0 "[]"] q day
  have "admission_step ex_quota_config (\<lambda>_. []) (0, [], empty_db) (100, [(7, 0, 1, 20)], e)"
    by (simp add: ex_at_def ex_caller_def)
  then have run: "(admission_step ex_quota_config (\<lambda>_. []))\<^sup>*\<^sup>* (0, [], empty_db) (100, [(7, 0, 1, 20)], e)" ..
  moreover have "\<forall>r \<in> set (quota_usage empty_db). 0 \<le> use_checks r \<and> 0 \<le> use_bytes r" by (simp add: empty_db_def)
  from daily_budgets_hold[OF run ex_quota_accepted this]
  have "spent fst 7 0 [(7, 0, 1, 20)] \<le> quota_daily_checks (quota_conf ex_quota_config)" by blast
  ultimately show ?thesis by blast
qed

end
