(* ===== verification/Reports.thy ===== *)
theory Reports
  imports Accounts JobQueue "HOL-Library.Sublist"
begin

text \<open>
  Immutable report versions and explicit saves, \<open>backend/services/reports.py\<close>, their routes
  \<open>routes/reports.py\<close> and the export payload \<open>report_export.py\<close>. A stored payload is the typed
  \<open>report_version\<close>, so its validation is the identity. The lemmas show that the versions of an
  investigation are 1, 2, 3 in a chain that only grows, and what saving and exporting keep.
\<close>

section \<open>Publishing a version\<close>

record next_version =
  nv_id :: uuid
  nv_investigation :: uuid
  nv_version :: int
  nv_supersedes :: "string option"
  nv_created_at :: time

definition history :: "uuid \<Rightarrow> report_row list \<Rightarrow> report_row list" where
  "history i t = filter (\<lambda>r. rep_investigation r = i) t"

text \<open>\<open>ORDER BY version DESC LIMIT 1\<close>.\<close>

definition newest_row :: "uuid \<Rightarrow> report_row list \<Rightarrow> report_row option" where
  "newest_row i t = (case sort_key (\<lambda>r. - rep_version r) (history i t) of [] \<Rightarrow> None | r # _ \<Rightarrow> Some r)"

definition next_identity :: "uuid \<Rightarrow> time \<Rightarrow> uuid \<Rightarrow> report_row option \<Rightarrow> next_version" where
  "next_identity new_id now i newest = \<lparr>nv_id = new_id, nv_investigation = i,
     nv_version = (case newest of None \<Rightarrow> 1 | Some r \<Rightarrow> rep_version r + 1),
     nv_supersedes = (case newest of None \<Rightarrow> None | Some r \<Rightarrow> Some (str_uuid (rep_id r))),
     nv_created_at = now\<rparr>"

definition carries :: "next_version \<Rightarrow> report_version \<Rightarrow> bool" where
  "carries v r \<longleftrightarrow> report_id r = str_uuid (nv_id v) \<and> report_investigation r = nv_investigation v
     \<and> report_version r = nv_version v \<and> supersedes r = nv_supersedes v"

definition report_row_of :: "next_version \<Rightarrow> uuid \<Rightarrow> bool \<Rightarrow> report_version \<Rightarrow> report_row" where
  "report_row_of v owner fixture r = \<lparr>rep_id = nv_id v, rep_investigation = nv_investigation v, rep_owner = owner,
     rep_version = nv_version v, rep_summary = change_summary r, rep_fixture = fixture, rep_payload = r,
     rep_created = report_created_at r\<rparr>"

definition publish_report_version ::
    "uuid \<Rightarrow> time \<Rightarrow> uuid \<Rightarrow> (next_version \<Rightarrow> api_failure + report_version) \<Rightarrow> bool \<Rightarrow> db
      \<Rightarrow> api_failure + report_version \<times> db"
where
  "publish_report_version new_id now i build fixture d =
     (case fetch (\<lambda>v. inv_id v = i) (investigations d) of
        None \<Rightarrow> Inl (Internal LookupError)
      | Some v \<Rightarrow>
          let identity = next_identity new_id now i (newest_row i (report_versions d))
          in rbind (build identity) (\<lambda>built.
               let report = built\<lparr>report_fixture := fixture\<rparr>
               in if \<not> carries identity report then Inl (Internal ValueError)
                  else if list_ex (\<lambda>r. rep_id r = new_id
                       \<or> (rep_investigation r = i \<and> rep_version r = nv_version identity)) (report_versions d)
                    then Inl (Internal IntegrityError)
                  else Inr (report, d\<lparr>report_versions :=
                         report_versions d @ [report_row_of identity (inv_owner v) fixture report]\<rparr>)))"

section \<open>Jobs of a report\<close>

definition REANALYSIS_STAGE :: string where
  "REANALYSIS_STAGE = ''reanalysis''"

text \<open>
  \<open>uuid.UUID(str(value))\<close>: no text of a float, an array or an object is a UUID, the text of an
  integer may be.
\<close>

definition json_uuid :: "json \<Rightarrow> uuid option" where
  "json_uuid v = (case v of JStr s \<Rightarrow> parse_uuid s | JInt n \<Rightarrow> parse_uuid (show_int n) | _ \<Rightarrow> None)"

definition reanalysis_request_of :: "string \<Rightarrow> json \<Rightarrow> uuid option" where
  "reanalysis_request_of stage payload =
     (case jget payload (if stage = REANALYSIS_STAGE then ''request_id'' else ''reanalysis_request_id'') of
        None \<Rightarrow> None
      | Some v \<Rightarrow> if truthy v then json_uuid v else None)"

definition contract_stage :: "job_row \<Rightarrow> string" where
  "contract_stage r = (let stage = key_stage (job_key r) in
     if stage = ''upload_asr'' then ''asr''
     else if stage \<noteq> REANALYSIS_STAGE then stage
     else if jget (job_payload r) ''reason'' = Some (JStr ''expansion'') then ''media_validation'' else ''retrieval'')"

record job_summary =
  sum_id :: uuid
  sum_state :: job_state
  sum_stage :: string
  sum_cancel_requested :: bool
  sum_attempts :: int
  sum_retry_class :: "retry_class option"
  sum_available_at :: time
  sum_updated_at :: time

definition summarize_job :: "job_row \<Rightarrow> job_summary" where
  "summarize_job r = \<lparr>sum_id = job_id r, sum_state = job_state r, sum_stage = contract_stage r,
     sum_cancel_requested = job_cancel r, sum_attempts = job_attempts r, sum_retry_class = job_retry_class r,
     sum_available_at = job_available r, sum_updated_at = job_updated r\<rparr>"

section \<open>Reading versions\<close>

definition report_from_row :: "report_row \<Rightarrow> report_version" where
  "report_from_row r = (rep_payload r)\<lparr>report_fixture := rep_fixture r\<rparr>"

definition latest_reports :: "uuid list \<Rightarrow> db \<Rightarrow> (uuid \<times> report_version) list" where
  "latest_reports ids d = List.map_filter
     (\<lambda>i. map_option (\<lambda>r. (i, report_from_row r)) (newest_row i (report_versions d))) (remdups ids)"

definition parse_canonical_uuid :: "string \<Rightarrow> uuid option" where
  "parse_canonical_uuid s = (case parse_uuid s of
     None \<Rightarrow> None | Some u \<Rightarrow> if str_uuid u = s then Some u else None)"

record version_summary =
  vs_id :: string
  vs_version :: int
  vs_created_at :: time
  vs_provisional :: bool
  vs_change_summary :: string
  vs_supersedes :: "string option"
  vs_fixture :: bool

definition list_report_versions :: "uuid \<Rightarrow> principal \<Rightarrow> db \<Rightarrow> api_failure + version_summary list" where
  "list_report_versions i p d = rbind (load_owned inv_owner inv_id i p (investigations d)) (\<lambda>_.
     Inr (map (\<lambda>r. let v = rep_payload r in
         \<lparr>vs_id = report_id v, vs_version = report_version v, vs_created_at = report_created_at v,
          vs_provisional = report_provisional v, vs_change_summary = change_summary v,
          vs_supersedes = supersedes v, vs_fixture = rep_fixture r\<rparr>)
       (sort_key rep_version (history i (report_versions d)))))"

definition owned_version :: "uuid \<Rightarrow> int \<Rightarrow> principal \<Rightarrow> db \<Rightarrow> api_failure + report_version \<times> bool" where
  "owned_version i n p d = rbind (load_owned inv_owner inv_id i p (investigations d)) (\<lambda>_.
     case fetch (\<lambda>r. rep_investigation r = i \<and> rep_version r = n) (report_versions d) of
       None \<Rightarrow> Inl not_found
     | Some r \<Rightarrow> Inr (report_from_row r, rep_fixture r))"

section \<open>Saving\<close>

record saved_view =
  svw_report_id :: string
  svw_investigation :: uuid
  svw_version :: int
  svw_saved_at :: time
  svw_report :: report_version

definition saved_report :: "saved_row \<Rightarrow> saved_view" where
  "saved_report r = \<lparr>svw_report_id = str_uuid (sav_report_id r), svw_investigation = sav_investigation r,
     svw_version = sav_version r, svw_saved_at = sav_at r, svw_report = sav_report r\<rparr>"

definition saved_by_caller :: "principal \<Rightarrow> uuid \<Rightarrow> saved_row \<Rightarrow> bool" where
  "saved_by_caller p i r \<longleftrightarrow> sav_owner r = pri_id p \<and> sav_report_id r = i"

definition save_owned_report :: "time \<Rightarrow> principal \<Rightarrow> uuid \<Rightarrow> db \<Rightarrow> api_failure + saved_view \<times> db" where
  "save_owned_report now p i d = rbind (lock_active_principal p d) (\<lambda>_.
     case fetch (saved_by_caller p i) (saved_reports d) of
       Some r \<Rightarrow> Inr (saved_report r, d)
     | None \<Rightarrow> rbind (load_owned rep_owner rep_id i p (report_versions d)) (\<lambda>v.
         let row = \<lparr>sav_owner = pri_id p, sav_report_id = rep_id v, sav_investigation = rep_investigation v,
                    sav_version = rep_version v, sav_report = rep_payload v, sav_at = now\<rparr>
         in Inr (saved_report row, d\<lparr>saved_reports := saved_reports d @ [row]\<rparr>)))"

definition unsave_owned_report :: "principal \<Rightarrow> uuid \<Rightarrow> db \<Rightarrow> api_failure + db" where
  "unsave_owned_report p i d = rbind (lock_active_principal p d) (\<lambda>_.
     if count_where (saved_by_caller p i) (saved_reports d) = 0
     then rbind (load_owned rep_owner rep_id i p (report_versions d)) (\<lambda>_. Inr d)
     else Inr (d\<lparr>saved_reports := delete_where (saved_by_caller p i) (saved_reports d)\<rparr>))"

text \<open>The routes: an id that is not canonical names no object.\<close>

definition save_route :: "time \<Rightarrow> principal \<Rightarrow> string \<Rightarrow> db \<Rightarrow> api_failure + saved_view \<times> db" where
  "save_route now p s d = (case parse_canonical_uuid s of None \<Rightarrow> Inl not_found | Some i \<Rightarrow> save_owned_report now p i d)"

definition unsave_route :: "principal \<Rightarrow> string \<Rightarrow> db \<Rightarrow> api_failure + db" where
  "unsave_route p s d = (case parse_canonical_uuid s of None \<Rightarrow> Inl not_found | Some i \<Rightarrow> unsave_owned_report p i d)"

definition list_saved_reports :: "principal \<Rightarrow> db \<Rightarrow> saved_view list" where
  "list_saved_reports p d = map saved_report (take 100
     (sort_key (\<lambda>r. - sav_at r) (sort_key (\<lambda>r. uint (sav_report_id r)) (owned_rows sav_owner p (saved_reports d)))))"

section \<open>Evidence failures\<close>

definition main_evidence_job :: "uuid \<Rightarrow> job_row \<Rightarrow> bool" where
  "main_evidence_job i r \<longleftrightarrow> key_stage (job_key r) \<in> {''retrieval'', ''assessment''}
     \<and> jtext (job_payload r) ''investigation_id'' = Some (str_uuid i)
     \<and> jget (job_payload r) ''reanalysis_request_id'' \<in> {None, Some JNull} \<and> job_state r \<noteq> DELETED"

definition evidence_failure :: "uuid \<Rightarrow> db \<Rightarrow> string option" where
  "evidence_failure i d =
     (case sort_key (\<lambda>r. - job_created r) (sort_key (\<lambda>r. - uint (job_id r)) (filter (main_evidence_job i) (jobs d))) of
        [] \<Rightarrow> None
      | r # _ \<Rightarrow> if job_state r \<noteq> FAILED then None else Some (evidence_failure_code (job_failure r)))"

section \<open>Export\<close>

definition FIXTURE_LIMITATION :: string where
  "FIXTURE_LIMITATION = ''Development fixture: this report was not produced by checking this media.''"

definition VERDICT_LIMITATION :: string where
  "VERDICT_LIMITATION = ''Assessments describe the evidence that was found for each claim; they are not a verdict on the whole video.''"

definition unassessed :: "report_version \<Rightarrow> claim list" where
  "unassessed r = filter (\<lambda>c. claim_id c \<notin> set (map assessed_claim (assessments r))) (claims r)"

definition limitations :: "report_version \<Rightarrow> bool \<Rightarrow> string list" where
  "limitations r fixture =
     (if fixture then [FIXTURE_LIMITATION] else [])
     @ (if report_provisional r then [''This report is provisional: checking was not complete when it was made.''] else [])
     @ (if unassessed r \<noteq> [] then [show_nat (length (unassessed r)) @ '' of '' @ show_nat (length (claims r))
           @ '' claims have not been assessed yet.''] else [])
     @ (if claims r = [] then [''No assessable factual claim was found. This does not mean the video is accurate.''] else [])
     @ (if list_ex (\<lambda>e. evidence_level e \<noteq> FullText) (evidences r)
        then [''Some sources were read only in part (abstract or metadata).''] else [])
     @ (if list_ex (\<lambda>e. evidence_retraction e \<in> {Retracted, Withdrawn}) (evidences r)
        then [''At least one source has been retracted or withdrawn.''] else [])
     @ [VERDICT_LIMITATION]"

text \<open>Python's dictionaries, where a later entry replaces an earlier one.\<close>

definition assessment_map :: "report_version \<Rightarrow> string \<Rightarrow> assessment option" where
  "assessment_map r = map_of (rev (map (\<lambda>a. (assessed_claim a, a)) (assessments r)))"

definition relation_map :: "report_version \<Rightarrow> string \<Rightarrow> relation option" where
  "relation_map r = map_of (rev (map (\<lambda>x. (related_evidence x, relation x)) (concat (map relations (assessments r)))))"

definition export_claim_of :: "report_version \<Rightarrow> claim \<Rightarrow> export_claim" where
  "export_claim_of r c = \<lparr>exc_id = claim_id c, exc_proposition = claim_proposition c,
     exc_interval = claim_interval c, exc_corrected = (correction c \<noteq> None),
     exc_assessment = map_option (\<lambda>a. \<lparr>exp_overall = overall a, exp_summary = assessment_summary a,
        exp_provisional = assessment_provisional a\<rparr>) (assessment_map r (claim_id c))\<rparr>"

definition export_source_of :: "report_version \<Rightarrow> evidence \<Rightarrow> export_source" where
  "export_source_of r e = \<lparr>exs_evidence_id = evidence_id e, exs_claim_id = evidence_claim e,
     exs_title = source_title (evidence_source e), exs_publisher = source_publisher (evidence_source e),
     exs_url = source_url (evidence_source e), exs_published_at = source_published_at (evidence_source e),
     exs_retrieved_at = retrieved_at e, exs_source_type = evidence_source_type e, exs_level = evidence_level e,
     exs_retraction = evidence_retraction e, exs_relation = relation_map r (evidence_id e)\<rparr>"

definition build_export :: "report_version \<Rightarrow> bool \<Rightarrow> time \<Rightarrow> report_export" where
  "build_export r fixture now = \<lparr>exr_investigation = report_investigation r, exr_report_id = report_id r,
     exr_version = report_version r, exr_supersedes = supersedes r, exr_provisional = report_provisional r,
     exr_fixture = fixture, exr_report_created_at = report_created_at r, exr_retrieved_at = now,
     exr_change_summary = change_summary r, exr_claims = map (export_claim_of r) (claims r),
     exr_sources = map (export_source_of r) (evidences r), exr_limitations = limitations r fixture\<rparr>"

definition export_report_version :: "time \<Rightarrow> uuid \<Rightarrow> int \<Rightarrow> principal \<Rightarrow> db \<Rightarrow> api_failure + report_export" where
  "export_report_version now i n p d =
     rbind (owned_version i n p d) (\<lambda>(report, fixture). Inr (build_export report fixture now))"

section \<open>The version history\<close>

text \<open>Versions count up from \<open>n\<close>, each names its predecessor and the payload carries the row's identity.\<close>

fun chain :: "int \<Rightarrow> string option \<Rightarrow> report_row list \<Rightarrow> bool" where
  "chain n prev [] = True"
| "chain n prev (r # rs) \<longleftrightarrow> rep_version r = n \<and> supersedes (rep_payload r) = prev
     \<and> report_id (rep_payload r) = str_uuid (rep_id r) \<and> report_version (rep_payload r) = n
     \<and> report_investigation (rep_payload r) = rep_investigation r
     \<and> report_fixture (rep_payload r) = rep_fixture r \<and> chain (n + 1) (Some (str_uuid (rep_id r))) rs"

lemma chain_snoc:
  "chain n prev (rs @ [r]) \<longleftrightarrow> chain n prev rs
     \<and> chain (n + int (length rs)) (if rs = [] then prev else Some (str_uuid (rep_id (last rs)))) [r]"
  by (induction rs arbitrary: n prev) (auto simp: algebra_simps)

lemma chain_versions: "chain n prev rs \<Longrightarrow> map rep_version rs = map (\<lambda>k. n + int k) [0..<length rs]"
proof (induction rs arbitrary: n prev)
  case (Cons r rs)
  have "map (\<lambda>k. n + int k) [0..<length (r # rs)] = n # map (\<lambda>k. n + 1 + int k) [0..<length rs]"
    by (intro nth_equalityI) (auto simp: nth_Cons' simp del: upt_Suc)
  moreover have "map rep_version rs = map (\<lambda>k. n + 1 + int k) [0..<length rs]"
    by (rule Cons.IH[of "n + 1" "Some (str_uuid (rep_id r))"]) (use Cons.prems in simp)
  moreover have "rep_version r = n" using Cons.prems by simp
  ultimately show ?case by (simp del: upt_Suc)
qed simp

lemma newest_of_chain:
  assumes "chain 1 None (history i t)"
  shows "newest_row i t = (if history i t = [] then None else Some (last (history i t)))"
    "history i t \<noteq> [] \<Longrightarrow> rep_version (last (history i t)) = int (length (history i t))"
proof -
  let ?h = "history i t"
  have v: "map rep_version ?h = map (\<lambda>k. 1 + int k) [0..<length ?h]" by (rule chain_versions[OF assms])
  have nth: "rep_version (?h ! k) = 1 + int k" if "k < length ?h" for k
    using arg_cong[OF v, of "\<lambda>xs. xs ! k"] that by simp
  show last: "rep_version (last ?h) = int (length ?h)" if "?h \<noteq> []"
  proof -
    have "length ?h - 1 < length ?h" using that by simp
    from nth[OF this] that show ?thesis by (simp add: last_conv_nth of_nat_diff Suc_leI)
  qed
  show "newest_row i t = (if ?h = [] then None else Some (last ?h))"
  proof (cases "sort_key (\<lambda>r. - rep_version r) ?h")
    case Nil
    then have "?h = []" by (metis length_0_conv length_sort)
    then show ?thesis by (simp add: newest_row_def)
  next
    case (Cons y ys)
    then have ne: "?h \<noteq> []" by auto
    have y: "y \<in> set ?h" "\<forall>x \<in> set ?h. - rep_version y \<le> - rep_version x"
      using sort_key_hd_min[OF Cons] by auto
    obtain k where k: "k < length ?h" "y = ?h ! k" using y(1) by (metis in_set_conv_nth)
    have "rep_version (last ?h) \<le> rep_version y" using y(2) ne by simp
    then have "k = length ?h - 1" using last[OF ne] nth[OF k(1)] k by simp
    then have "y = last ?h" using ne k(2) by (simp add: last_conv_nth)
    then show ?thesis using ne Cons by (simp add: newest_row_def)
  qed
qed

lemma history_append [simp]: "history i (t @ u) = history i t @ history i u"
  by (simp add: history_def)

text \<open>What a publication adds, and that it extends the chain of its investigation.\<close>

lemma publish_report_Inr:
  assumes "publish_report_version new_id now i build fixture d = Inr (report, e)"
  shows "\<exists>row. report_versions e = report_versions d @ [row] \<and> rep_investigation row = i \<and> rep_payload row = report
      \<and> rep_fixture row = fixture \<and> report_fixture report = fixture \<and> rep_id row = new_id
      \<and> rep_version row = nv_version (next_identity new_id now i (newest_row i (report_versions d)))
      \<and> carries (next_identity new_id now i (newest_row i (report_versions d))) report
      \<and> (\<exists>v. fetch (\<lambda>v. inv_id v = i) (investigations d) = Some v \<and> rep_owner row = inv_owner v)
      \<and> (\<exists>built. build (next_identity new_id now i (newest_row i (report_versions d))) = Inr built
            \<and> report = built\<lparr>report_fixture := fixture\<rparr>)
      \<and> e = d\<lparr>report_versions := report_versions e\<rparr>"
proof -
  obtain v where v: "fetch (\<lambda>v. inv_id v = i) (investigations d) = Some v"
    using assms by (auto simp: publish_report_version_def split: option.splits)
  let ?n = "next_identity new_id now i (newest_row i (report_versions d))"
  obtain built where b: "build ?n = Inr built" "carries ?n (built\<lparr>report_fixture := fixture\<rparr>)"
    "report = built\<lparr>report_fixture := fixture\<rparr>"
    "e = d\<lparr>report_versions := report_versions d @ [report_row_of ?n (inv_owner v) fixture report]\<rparr>"
    using assms v by (auto simp: publish_report_version_def Let_def rbind_Inr_iff split: if_splits)
  show ?thesis
    by (intro exI[of _ "report_row_of ?n (inv_owner v) fixture report"])
      (use v b in \<open>simp add: report_row_of_def next_identity_def\<close>)
qed

lemma publish_report_chain:
  assumes "publish_report_version new_id now i build fixture d = Inr (report, e)"
    "chain 1 None (history i (report_versions d))"
  shows "chain 1 None (history i (report_versions e))"
proof -
  let ?h = "history i (report_versions d)"
  obtain row where r: "report_versions e = report_versions d @ [row]" "rep_investigation row = i" "rep_payload row = report"
      "rep_fixture row = fixture" "report_fixture report = fixture" "rep_id row = new_id"
      "rep_version row = nv_version (next_identity new_id now i (newest_row i (report_versions d)))"
      "carries (next_identity new_id now i (newest_row i (report_versions d))) report"
    using publish_report_Inr[OF assms(1)] by blast
  have h: "history i (report_versions e) = ?h @ [row]" using r(1,2) by (simp add: history_def)
  show ?thesis
  proof (cases "?h = []")
    case True
    have "newest_row i (report_versions d) = None" using newest_of_chain(1)[OF assms(2)] True by simp
    then show ?thesis unfolding h True using r by (simp add: carries_def next_identity_def)
  next
    case False
    then show ?thesis
      unfolding h chain_snoc using r newest_of_chain[OF assms(2)] assms(2)
      by (simp add: carries_def next_identity_def)
  qed
qed

text \<open>
  One committed change of the report tables: a publication, a save, the removal of a save, the
  deletion of an investigation of \<open>gone\<close> (its versions go with it) or anything that leaves the
  versions alone.
\<close>

inductive report_step :: "uuid set \<Rightarrow> db \<Rightarrow> db \<Rightarrow> bool" for gone where
  rs_publish: "publish_report_version new_id now i build fixture d = Inr (report, e) \<Longrightarrow> report_step gone d e"
| rs_save: "save_owned_report now p i d = Inr (s, e) \<Longrightarrow> report_step gone d e"
| rs_unsave: "unsave_owned_report p i d = Inr e \<Longrightarrow> report_step gone d e"
| rs_forget: "i \<in> gone \<Longrightarrow> report_versions e = delete_where (\<lambda>r. rep_investigation r = i) (report_versions d) \<Longrightarrow>
    report_step gone d e"
| rs_other: "report_versions e = report_versions d \<Longrightarrow> report_step gone d e"

definition histories_ok :: "db \<Rightarrow> bool" where
  "histories_ok d \<longleftrightarrow> (\<forall>i. chain 1 None (history i (report_versions d)))"

lemma history_forgotten:
  "history i (delete_where (\<lambda>r. rep_investigation r = j) t) = (if i = j then [] else history i t)"
  by (induction t) (auto simp: history_def)

lemma save_keeps_versions: "save_owned_report now p i d = Inr (s, e) \<Longrightarrow> report_versions e = report_versions d"
  by (auto simp: save_owned_report_def rbind_Inr_iff Let_def split: option.splits)

lemma unsave_keeps_versions: "unsave_owned_report p i d = Inr e \<Longrightarrow> report_versions e = report_versions d"
  by (auto simp: unsave_owned_report_def rbind_Inr_iff split: if_splits)

lemma report_step_history:
  assumes "report_step gone d e" "histories_ok d"
  shows "chain 1 None (history i (report_versions e))"
    "i \<notin> gone \<Longrightarrow> prefix (history i (report_versions d)) (history i (report_versions e))"
proof -
  have ok: "chain 1 None (history k (report_versions d))" for k using assms(2) by (simp add: histories_ok_def)
  have same: "chain 1 None (history i (report_versions e))
      \<and> (i \<notin> gone \<longrightarrow> prefix (history i (report_versions d)) (history i (report_versions e)))"
    if "report_versions e = report_versions d" using ok that by simp
  have "chain 1 None (history i (report_versions e))
      \<and> (i \<notin> gone \<longrightarrow> prefix (history i (report_versions d)) (history i (report_versions e)))"
    using assms(1)
  proof cases
    case (rs_publish new_id now j build fixture report)
    obtain row where row: "report_versions e = report_versions d @ [row]" "rep_investigation row = j"
      using publish_report_Inr[OF rs_publish] by blast
    show ?thesis
    proof (cases "j = i")
      case True
      then show ?thesis using publish_report_chain[OF rs_publish ok] row by simp
    next
      case False
      then have "history i (report_versions e) = history i (report_versions d)" using row by (simp add: history_def)
      then show ?thesis using ok by simp
    qed
  next
    case (rs_forget j)
    then show ?thesis using ok by (auto simp: history_forgotten)
  qed (use same save_keeps_versions unsave_keeps_versions in blast)+
  then show "chain 1 None (history i (report_versions e))"
    "i \<notin> gone \<Longrightarrow> prefix (history i (report_versions d)) (history i (report_versions e))" by blast+
qed

interpretation report_history: invariant_system "report_step gone" histories_ok for gone
  by unfold_locales (simp add: histories_ok_def report_step_history(1))

text \<open>C23: Report versions are immutable and gapless. In every run of publications, saves, removals of saves
  and deletions of whole investigations, the versions of each investigation are 1, 2, 3 and so on, each
  naming the version it supersedes and carrying its own identity, and the history of an investigation
  that is not deleted only ever grows at its end.\<close>

theorem versions_immutable:
  assumes "(report_step gone)\<^sup>*\<^sup>* d e" "histories_ok d"
  shows "map rep_version (history i (report_versions e)) = map (\<lambda>k. 1 + int k) [0..<length (history i (report_versions e))]
    \<and> chain 1 None (history i (report_versions e))
    \<and> (i \<notin> gone \<longrightarrow> prefix (history i (report_versions d)) (history i (report_versions e)))"
proof -
  have "chain 1 None (history i (report_versions e))"
    using report_history.good_run[OF assms] by (simp add: histories_ok_def)
  moreover have "prefix (history i (report_versions d)) (history i (report_versions e))" if "i \<notin> gone"
    by (rule report_history.relation_run[OF assms, where R = "\<lambda>x y. prefix (history i (report_versions x)) (history i (report_versions y))"])
      (use that report_step_history(2) in \<open>auto intro: prefix_order.trans\<close>)
  ultimately show ?thesis using chain_versions by blast
qed

definition ex_built :: "next_version \<Rightarrow> report_version" where
  "ex_built v = \<lparr>report_id = str_uuid (nv_id v), report_investigation = nv_investigation v,
     report_version = nv_version v, report_created_at = nv_created_at v, report_provisional = False,
     change_summary = ''First check'', supersedes = nv_supersedes v, claims = [], evidences = [], assessments = [],
     report_fixture = False, processing_attempts = None, reconciliation = None\<rparr>"

definition ex_investigation :: "uuid \<Rightarrow> uuid \<Rightarrow> investigation_row" where
  "ex_investigation i owner = \<lparr>inv_id = i, inv_owner = owner, inv_source_kind = ''upload'', inv_source_url = None,
     inv_upload = Some 9, inv_declared_ms = None, inv_state = ''queued'', inv_stage = ''intake'', inv_version = 1,
     inv_error_code = None, inv_created = 0, inv_updated = 0\<rparr>"

definition ex_reports :: db where
  "ex_reports = empty_db\<lparr>investigations := [ex_investigation 1 7],
     principals := [\<lparr>prn_id = 7, prn_kind = ''guest'', prn_created = 0, prn_google_sub = None,
       prn_merged_into = None, prn_merged_at = None\<rparr>]\<rparr>"

definition ex_published :: db where
  "ex_published = (let v = next_identity 5 10 1 None in
     ex_reports\<lparr>report_versions := [report_row_of v 7 False (ex_built v)]\<rparr>)"

lemma ex_publish_report:
  "publish_report_version 5 10 1 (\<lambda>v. Inr (ex_built v)) False ex_reports
     = Inr (ex_built (next_identity 5 10 1 None), ex_published)"
  by (simp add: publish_report_version_def ex_reports_def ex_published_def ex_investigation_def empty_db_def
      newest_row_def history_def carries_def ex_built_def next_identity_def report_row_of_def Let_def)

theorem versions_immutable_witness:
  "(report_step {})\<^sup>*\<^sup>* ex_reports ex_published \<and> map rep_version (history 1 (report_versions ex_published)) = [1]"
proof -
  have run: "(report_step {})\<^sup>*\<^sup>* ex_reports ex_published" using rs_publish[OF ex_publish_report] by blast
  have "histories_ok ex_reports" by (simp add: histories_ok_def ex_reports_def empty_db_def history_def)
  from versions_immutable[OF run this, of 1]
  have "map rep_version (history 1 (report_versions ex_published))
      = map (\<lambda>k. 1 + int k) [0..<length (history 1 (report_versions ex_published))]" by blast
  moreover have "length (history 1 (report_versions ex_published)) = 1"
    by (simp add: history_def ex_published_def report_row_of_def next_identity_def Let_def)
  ultimately show ?thesis using run by simp
qed

section \<open>Identifiers, saves and exports\<close>

text \<open>The identifiers of the API round trip. Exactly the printed form of an identifier is accepted and it
  is read back as that identifier, so two different path texts never name the same report.\<close>

theorem canonical_ids_roundtrip: "parse_canonical_uuid s = Some u \<longleftrightarrow> s = str_uuid u"
  by (auto simp: parse_canonical_uuid_def split: option.splits if_splits)

lemma fetch_appended: "fetch p t = None \<Longrightarrow> p r \<Longrightarrow> fetch p (t @ [r]) = Some r"
  by (simp add: fetch_append)

lemma delete_appended: "fetch p t = None \<Longrightarrow> p r \<Longrightarrow> delete_where p (t @ [r]) = t"
  by (auto simp: delete_where_def fetch_None_iff filter_id_conv)

text \<open>C36: Saving a report is idempotent and removable. After a save the same caller's save returns the same
  snapshot and changes nothing, whenever it is repeated, and removing a save that was new restores the saved
  reports; the report versions are never touched.\<close>

theorem save_unsave_roundtrip:
  assumes "save_owned_report now p i d = Inr (s, e)"
  shows "save_owned_report later p i e = Inr (s, e) \<and> report_versions e = report_versions d
    \<and> (fetch (saved_by_caller p i) (saved_reports d) = None \<longrightarrow>
         unsave_owned_report p i e = Inr d \<and> svw_saved_at s = now
         \<and> (\<exists>r \<in> set (report_versions d). rep_id r = i \<and> rep_owner r = pri_id p \<and> svw_report s = rep_payload r))"
proof -
  have lock: "lock_active_principal p d = Inr ()"
    using assms by (auto simp: save_owned_report_def rbind_Inr_iff)
  show ?thesis
  proof (cases "fetch (saved_by_caller p i) (saved_reports d)")
    case (Some r)
    then have "s = saved_report r" "e = d" using assms lock by (auto simp: save_owned_report_def)
    then show ?thesis using Some lock by (simp add: save_owned_report_def)
  next
    case None
    obtain v where v: "load_owned rep_owner rep_id i p (report_versions d) = Inr v"
      using assms None lock by (auto simp: save_owned_report_def rbind_Inr_iff Let_def)
    define row where "row = \<lparr>sav_owner = pri_id p, sav_report_id = rep_id v, sav_investigation = rep_investigation v,
      sav_version = rep_version v, sav_report = rep_payload v, sav_at = now\<rparr>"
    have s: "s = saved_report row" and e: "e = d\<lparr>saved_reports := saved_reports d @ [row]\<rparr>"
      using assms None lock v by (simp_all add: save_owned_report_def row_def Let_def)
    have "fetch (\<lambda>r. rep_id r = i) (owned_rows rep_owner p (report_versions d)) = Some v"
      using v by (simp add: load_owned_def split: option.splits)
    then have vi: "v \<in> set (report_versions d)" "rep_id v = i" "rep_owner v = pri_id p"
      by (auto simp: owned_rows_def dest!: fetch_SomeD)
    then have row: "saved_by_caller p i row" by (simp add: saved_by_caller_def row_def)
    have lock_e: "lock_active_principal p e = Inr ()" using lock by (simp add: e lock_active_principal_def principal_by_def)
    have "save_owned_report later p i e = Inr (s, e)"
      using fetch_appended[of "saved_by_caller p i" "saved_reports d" row, OF None row] lock_e
      by (simp add: save_owned_report_def e s)
    moreover have "unsave_owned_report p i e = Inr d"
      using delete_appended[of "saved_by_caller p i" "saved_reports d" row, OF None row] lock_e row
      by (simp add: unsave_owned_report_def e)
    moreover have "svw_saved_at s = now" "svw_report s = rep_payload v" by (simp_all add: s row_def saved_report_def)
    ultimately show ?thesis using vi by (auto simp: e)
  qed
qed

theorem save_unsave_roundtrip_witness:
  "\<exists>s e. save_owned_report 20 \<lparr>pri_id = 7, pri_kind = ''guest''\<rparr> 5 ex_published = Inr (s, e) \<and> svw_saved_at s = 20
     \<and> unsave_owned_report \<lparr>pri_id = 7, pri_kind = ''guest''\<rparr> 5 e = Inr ex_published"
proof -
  let ?p = "\<lparr>pri_id = 7, pri_kind = ''guest''\<rparr>"
  obtain s e where save: "save_owned_report 20 ?p 5 ex_published = Inr (s, e)"
    by (simp add: save_owned_report_def lock_active_principal_def principal_by_def load_owned_def owned_rows_def
        ex_published_def ex_reports_def empty_db_def report_row_of_def next_identity_def Let_def)
  have "fetch (saved_by_caller ?p 5) (saved_reports ex_published) = None"
    by (simp add: ex_published_def ex_reports_def empty_db_def Let_def)
  with save_unsave_roundtrip[OF save] save show ?thesis by blast
qed

text \<open>The parts of a report that decision 0003 keeps out of an export, blanked.\<close>

definition scrub_claim :: "claim \<Rightarrow> claim" where
  "scrub_claim c = c\<lparr>occurrence_id := [], claim_modality := BothMod, original_text := [],
     correction := map_option (\<lambda>x. \<lparr>corrected_by = ByUser, corrected_at = 0, superseded_proposition = []\<rparr>) (correction c),
     claim_interpretation := None, corrects_occurrence_id := None, superseded_by_occurrence_id := None\<rparr>"

definition scrub_assessment :: "assessment \<Rightarrow> assessment" where
  "scrub_assessment a = a\<lparr>assessment_id := [], assessment_version := 0,
     relations := map (\<lambda>x. x\<lparr>rel_note := None\<rparr>) (relations a)\<rparr>"

definition scrub_evidence :: "evidence \<Rightarrow> evidence" where
  "scrub_evidence e = e\<lparr>excerpt := None, evidence_relevance := LowRel,
     evidence_source := (evidence_source e)\<lparr>source_id := []\<rparr>\<rparr>"

definition scrub :: "report_version \<Rightarrow> report_version" where
  "scrub r = r\<lparr>claims := map scrub_claim (claims r), evidences := map scrub_evidence (evidences r),
     assessments := map scrub_assessment (assessments r), report_fixture := False, processing_attempts := None,
     reconciliation := None\<rparr>"

lemma map_of_map_value: "map_of (map (\<lambda>x. (f x, g x)) xs) k = map_option g (map_of (map (\<lambda>x. (f x, x)) xs) k)"
  by (induction xs) auto

lemma assessment_map_scrub: "assessment_map (scrub r) k = map_option scrub_assessment (assessment_map r k)"
  using map_of_map_value[of assessed_claim scrub_assessment "rev (assessments r)" k]
  by (simp add: assessment_map_def scrub_def rev_map comp_def scrub_assessment_def)

lemma relation_map_scrub: "relation_map (scrub r) = relation_map r"
proof -
  have "concat (map relations (map scrub_assessment as)) = map (\<lambda>x. x\<lparr>rel_note := None\<rparr>) (concat (map relations as))" for as
    by (induction as) (simp_all add: scrub_assessment_def)
  then show ?thesis by (simp add: relation_map_def scrub_def comp_def)
qed

lemma limitations_scrub: "limitations (scrub r) f = limitations r f"
proof -
  have m: "claim_id (scrub_claim c) = claim_id c" "assessed_claim (scrub_assessment a) = assessed_claim a"
    "evidence_level (scrub_evidence e) = evidence_level e" "evidence_retraction (scrub_evidence e) = evidence_retraction e"
    for c a e by (simp_all add: scrub_claim_def scrub_assessment_def scrub_evidence_def)
  have u: "unassessed (scrub r) = map scrub_claim (unassessed r)"
    by (simp add: unassessed_def scrub_def filter_map comp_def m image_image)
  show ?thesis by (simp only: limitations_def u) (simp add: scrub_def m list_ex_iff)
qed

text \<open>An export reveals only the allowed fields. Whatever a report holds as transcript wording, evidence
  excerpts, assessment notes, attempts, interpretations or superseded meanings, its export is the export of
  the report with those parts blanked.\<close>

theorem export_reveals_allowlist: "build_export (scrub r) fixture now = build_export r fixture now"
proof -
  have c: "export_claim_of (scrub r) (scrub_claim x) = export_claim_of r x" for x
    by (simp add: export_claim_of_def assessment_map_scrub scrub_claim_def option.map_comp comp_def scrub_assessment_def)
  have e: "export_source_of (scrub r) (scrub_evidence x) = export_source_of r x" for x
    by (simp add: export_source_of_def relation_map_scrub scrub_evidence_def)
  have f: "claims (scrub r) = map scrub_claim (claims r)" "evidences (scrub r) = map scrub_evidence (evidences r)"
    "report_investigation (scrub r) = report_investigation r" "report_id (scrub r) = report_id r"
    "report_version (scrub r) = report_version r" "supersedes (scrub r) = supersedes r"
    "report_provisional (scrub r) = report_provisional r" "report_created_at (scrub r) = report_created_at r"
    "change_summary (scrub r) = change_summary r" by (simp_all add: scrub_def)
  show ?thesis unfolding build_export_def f limitations_scrub by (simp add: c e comp_def)
qed

end
