(* ===== verification/Canonical.thy ===== *)
theory Canonical
  imports Pystd "HOL-Library.Multiset" "HOL-Library.List_Lexorder" "HOL-Library.Char_ord"
begin

text \<open>
  The canonical JSON text behind the request hashes of \<open>reanalysis.py\<close> and
  \<open>api/routes/investigations.py\<close>: Python's \<open>json.dumps(..., sort_keys=True, separators=(",", ":"))\<close>
  with its ASCII escapes. The text of a float is a parameter. A dictionary's keys are distinct.
\<close>

definition hex4 :: "nat \<Rightarrow> string" where
  "hex4 n = map hexchar (to_base16 4 n)"

definition escape_char :: "char \<Rightarrow> string" where
  "escape_char c =
     (if c = CHR 0x22 then [CHR 0x5C, CHR 0x22]
      else if c = CHR 0x5C then [CHR 0x5C, CHR 0x5C]
      else if cval c = 10 then [CHR 0x5C, CHR ''n'']
      else if cval c = 13 then [CHR 0x5C, CHR ''r'']
      else if cval c = 9 then [CHR 0x5C, CHR ''t'']
      else if cval c = 12 then [CHR 0x5C, CHR ''f'']
      else if cval c = 8 then [CHR 0x5C, CHR ''b'']
      else if 32 \<le> cval c \<and> cval c \<le> 126 then [c]
      else [CHR 0x5C, CHR ''u''] @ hex4 (cval c))"

definition dumps_text :: "string \<Rightarrow> string" where
  "dumps_text s = [CHR 0x22] @ concat (map escape_char s) @ [CHR 0x22]"

fun comma :: "string list \<Rightarrow> string" where
  "comma [] = []"
| "comma [x] = x"
| "comma (x # xs) = x @ CHR '','' # comma xs"

fun dumps :: "(rat \<Rightarrow> string) \<Rightarrow> json \<Rightarrow> string" where
  "dumps fl JNull = ''null''"
| "dumps fl (JBool b) = (if b then ''true'' else ''false'')"
| "dumps fl (JInt n) = show_int n"
| "dumps fl (JFloat q) = fl q"
| "dumps fl (JStr s) = dumps_text s"
| "dumps fl (JArr xs) = CHR ''['' # comma (map (dumps fl) xs) @ '']''"
| "dumps fl (JObj kvs) = CHR ''{'' # comma (map (\<lambda>(k, t). dumps_text k @ CHR '':'' # t)
     (sort_key fst (map (\<lambda>(k, v). (k, dumps fl v)) kvs))) @ ''}''"

text \<open>The order in which a dictionary was built does not show in its canonical text.\<close>

lemma dumps_order:
  assumes "distinct (map fst kvs)" "mset kvs = mset kws"
  shows "dumps fl (JObj kvs) = dumps fl (JObj kws)"
proof -
  let ?f = "map (\<lambda>(k, v). (k, dumps fl v))"
  have m: "mset (?f kvs) = mset (?f kws)" using assms(2) by (metis mset_map)
  have "map fst (?f kvs) = map fst kvs" by (induction kvs) auto
  then have "inj_on fst (set (?f kvs))" using assms(1) by (metis distinct_map)
  then have "sort_key fst (?f kvs) = sort_key fst (?f kws)"
    by (intro sort_key_inj_key_eq) (use m in simp_all)
  then show ?thesis by simp
qed

end
