(* ===== verification/Investigations.thy ===== *)
theory Investigations
  imports Reports Quotas Worker Analysis Captures Canonical
begin

text \<open>
  Investigations, \<open>backend/services/api/routes/investigations.py\<close>: the client view of a row and its
  pipeline jobs, the read model of the contract and the idempotent creation, which charges, stores,
  dispatches and records the response in one transaction. Validating stored coverage against its
  pydantic model (\<open>coverage_dump\<close>), SHA-256 (\<open>sha\<close>), the printed JSON of a read model (\<open>dump\<close>) and
  the analysis and progress parts of a read model (\<open>analyse\<close>) are parameters.
\<close>

section \<open>The client view\<close>

definition JOB_STATE_TO_INVESTIGATION :: "job_state \<Rightarrow> string" where
  "JOB_STATE_TO_INVESTIGATION st = (case st of
       QUEUED \<Rightarrow> ''queued'' | LEASED \<Rightarrow> ''queued'' | RUNNING \<Rightarrow> ''running'' | FAILED \<Rightarrow> ''failed''
     | CANCELLED \<Rightarrow> ''cancelled'' | DELETED \<Rightarrow> ''cancelled'' | PUBLISHED \<Rightarrow> ''completed'')"

definition PROCESSING_FAILED :: string where
  "PROCESSING_FAILED = ''PROCESSING_FAILED''"

definition MEDIA_STAGE :: string where
  "MEDIA_STAGE = ''media_validation''"

definition ASR_STAGE :: string where
  "ASR_STAGE = ''upload_asr''"

definition MEDIA_FAILURES :: "(string \<times> string) list" where
  "MEDIA_FAILURES =
     [(''InvalidMedia'', ''INVALID_MEDIA''), (''NonRetriableInput'', ''INVALID_MEDIA''),
      (''MediaTooLarge'', ''MEDIA_SIZE_LIMIT_EXCEEDED''), (''MediaTooLong'', ''DURATION_LIMIT_EXCEEDED''),
      (''MediaTimedOut'', ''MEDIA_PROCESSING_TIMEOUT''),
      (''MediaToolUnavailable'', ''MEDIA_PROCESSING_UNAVAILABLE'')]"

record pipeline_job =
  pj_state :: job_state
  pj_stage :: string
  pj_failure :: "string option"
  pj_result :: "json option"
  pj_media_result :: "json option"

definition source_of :: "investigation_row \<Rightarrow> json" where
  "source_of r = JObj ([(''kind'', JStr (inv_source_kind r))]
     @ (if inv_source_kind r = ''url'' then [(''url'', case inv_source_url r of None \<Rightarrow> JNull | Some u \<Rightarrow> JStr u)]
        else if inv_source_kind r = ''capture'' then [(''capture_id'', JStr (str_uuid (inv_id r)))]
        else [(''upload_id'', JStr (case inv_upload r of None \<Rightarrow> ''None'' | Some u \<Rightarrow> str_uuid u))])
     @ (case inv_declared_ms r of None \<Rightarrow> [] | Some n \<Rightarrow> [(''duration_ms'', JInt n)]))"

record investigation_view =
  view_id :: uuid
  view_state :: string
  view_stage :: string
  view_coverage :: json
  view_version :: int
  view_error :: "(string \<times> string \<times> bool) option"
  view_source :: json
  view_created :: time
  view_updated :: time
  view_speech :: "json option"

definition COVERAGE_PLACEHOLDER :: json where
  "COVERAGE_PLACEHOLDER = JObj [(''status'', JStr ''not_started'')]"

definition speech_status_json :: "string \<Rightarrow> json" where
  "speech_status_json status = JObj [(''status'', JStr status)]"

definition speech_unavailable_json :: "string \<Rightarrow> json" where
  "speech_unavailable_json reason = JObj [(''status'', JStr ''unavailable''), (''reason'', JStr reason)]"

text \<open>A null \<open>speech\<close> member is no speech.\<close>

definition not_null :: "json option \<Rightarrow> json option" where
  "not_null v = (if v = Some JNull then None else v)"

definition job_coverage :: "(json \<Rightarrow> exn + json) \<Rightarrow> pipeline_job option \<Rightarrow> exn + json" where
  "job_coverage coverage_dump job = (case Option.bind job pj_media_result of
       None \<Rightarrow> Inr COVERAGE_PLACEHOLDER
     | Some m \<Rightarrow> (case jget m ''coverage'' of None \<Rightarrow> Inl KeyError | Some c \<Rightarrow> coverage_dump c))"

definition job_speech :: "pipeline_job option \<Rightarrow> exn + json option" where
  "job_speech job = (case job of
       None \<Rightarrow> Inr None
     | Some j \<Rightarrow>
         if pj_stage j = ASR_STAGE
         then if pj_state j = FAILED then Inr (Some (speech_unavailable_json (failure_reason (pj_failure j))))
              else if pj_state j \<in> {CANCELLED, DELETED} then Inr (Some (speech_unavailable_json ''cancelled''))
              else (case (pj_state j = PUBLISHED, pj_result j) of
                  (True, Some result) \<Rightarrow> (case jget result ''speech'' of None \<Rightarrow> Inl KeyError | v \<Rightarrow> Inr (not_null v))
                | _ \<Rightarrow> Inr (Some (speech_status_json (if pj_state j = RUNNING then ''running'' else ''pending''))))
         else Inr (not_null (Option.bind (pj_media_result j) (\<lambda>m. jget m ''speech''))))"

definition job_error_code :: "pipeline_job \<Rightarrow> string" where
  "job_error_code j =
     (if pj_stage j = MEDIA_STAGE then lookup_or PROCESSING_FAILED MEDIA_FAILURES (pj_failure j)
      else if pj_stage j = ASR_STAGE
        then if pj_failure j = Some ''ASRQuotaExhausted'' then ''ASR_QUOTA_EXHAUSTED'' else ''ASR_UNAVAILABLE''
      else PROCESSING_FAILED)"

definition state_and_code :: "investigation_row \<Rightarrow> pipeline_job option \<Rightarrow> string \<times> string option" where
  "state_and_code r job = (case job of
       None \<Rightarrow> (inv_state r, inv_error_code r)
     | Some j \<Rightarrow>
         if pj_state j = PUBLISHED then (inv_state r, inv_error_code r)
         else let st = JOB_STATE_TO_INVESTIGATION (pj_state j)
              in (st, if st = ''failed'' \<and> inv_error_code r = None then Some (job_error_code j) else inv_error_code r))"

definition investigation_response ::
    "(json \<Rightarrow> exn + json) \<Rightarrow> investigation_row \<Rightarrow> pipeline_job option \<Rightarrow> exn + investigation_view"
where
  "investigation_response coverage_dump r job =
     rbind (job_coverage coverage_dump job) (\<lambda>coverage. rbind (job_speech job) (\<lambda>speech.
       let (st, code) = state_and_code r job;
           stage = (case job of None \<Rightarrow> inv_stage r | Some j \<Rightarrow> pj_stage j)
       in Inr \<lparr>view_id = inv_id r, view_state = st, view_stage = (if stage = ASR_STAGE then ''asr'' else stage),
            view_coverage = coverage, view_version = inv_version r, view_error = safe_error code,
            view_source = source_of r, view_created = inv_created r, view_updated = inv_updated r,
            view_speech = speech\<rparr>))"

section \<open>The jobs of an investigation\<close>

definition speech_stage_key :: "(string \<Rightarrow> string) \<Rightarrow> uuid \<Rightarrow> stage_key" where
  "speech_stage_key sha i = investigation_key sha ASR_STAGE i"

definition pipeline_keys :: "(string \<Rightarrow> string) \<Rightarrow> uuid \<Rightarrow> stage_key list" where
  "pipeline_keys sha i = [intake_stage_key sha i, media_stage_key sha i, speech_stage_key sha i]"

text \<open>A job with its published result, and the last of the three stages that has one.\<close>

definition add_stage :: "db \<Rightarrow> job_row \<Rightarrow> pipeline_job option \<Rightarrow> pipeline_job option" where
  "add_stage d r previous =
     (let result = map_option res_result (fetch (\<lambda>x. res_job x = job_id r) (job_results d))
      in Some \<lparr>pj_state = job_state r, pj_stage = key_stage (job_key r), pj_failure = job_failure r, pj_result = result,
           pj_media_result = (if key_stage (job_key r) = MEDIA_STAGE \<and> job_state r = PUBLISHED then result
              else Option.bind previous pj_media_result)\<rparr>)"

definition job_states :: "(string \<Rightarrow> string) \<Rightarrow> db \<Rightarrow> uuid \<Rightarrow> pipeline_job option" where
  "job_states sha d i =
     fold (add_stage d) (List.map_filter (\<lambda>k. fetch (\<lambda>r. job_key r = k) (jobs d)) (pipeline_keys sha i)) None"

definition same_capture :: "job_row \<Rightarrow> job_row \<Rightarrow> bool" where
  "same_capture validation r \<longleftrightarrow> key_version (job_key r) = key_version (job_key validation)
     \<and> key_input_hash (job_key r) = key_input_hash (job_key validation)
     \<and> job_owner r \<noteq> None \<and> job_owner r = job_owner validation \<and> key_stage (job_key r) \<in> set CAPTURE_STAGES"

definition reanalysis_candidate :: "db \<Rightarrow> uuid \<Rightarrow> job_row \<Rightarrow> bool" where
  "reanalysis_candidate d i r \<longleftrightarrow>
     list_ex (\<lambda>q. rea_investigation q = i \<and> rea_job q = Some (job_id r)) (reanalysis_requests d)"

definition capture_candidate :: "db \<Rightarrow> uuid \<Rightarrow> job_row \<Rightarrow> bool" where
  "capture_candidate d i r \<longleftrightarrow> list_ex (\<lambda>k. chk_session k = i
     \<and> list_ex (\<lambda>v. chk_job k = Some (job_id v) \<and> same_capture v r) (jobs d)) (capture_chunks d)"

definition extraction_candidate :: "db \<Rightarrow> uuid \<Rightarrow> job_row \<Rightarrow> bool" where
  "extraction_candidate d i r \<longleftrightarrow>
     key_stage (job_key r) \<in> {''claim_extraction'', ''reconciliation'', ''retrieval'', ''assessment''}
     \<and> jtext (job_payload r) ''investigation_id'' = Some (str_uuid i)
     \<and> list_ex (\<lambda>v. inv_id v = i \<and> job_owner r = Some (inv_owner v)) (investigations d)"

definition candidate_jobs :: "(string \<Rightarrow> string) \<Rightarrow> db \<Rightarrow> uuid \<Rightarrow> job_row list" where
  "candidate_jobs sha d i = filter (\<lambda>r. job_key r \<in> set (pipeline_keys sha i)) (jobs d)
     @ filter (reanalysis_candidate d i) (jobs d) @ filter (capture_candidate d i) (jobs d)
     @ filter (extraction_candidate d i) (jobs d)"

definition newer :: "job_row \<Rightarrow> job_row option \<Rightarrow> bool" where
  "newer r current = (case current of None \<Rightarrow> True | Some c \<Rightarrow>
     job_created r > job_created c \<or> (job_created r = job_created c \<and> str_uuid (job_id r) > str_uuid (job_id c)))"

definition newest_job :: "job_row list \<Rightarrow> job_row option" where
  "newest_job rows = fold (\<lambda>r current. if job_state r = DELETED then current
     else if newer r current then Some r else current) rows None"

definition latest_job :: "(string \<Rightarrow> string) \<Rightarrow> db \<Rightarrow> uuid \<Rightarrow> job_summary option" where
  "latest_job sha d i = map_option summarize_job (newest_job (candidate_jobs sha d i))"

section \<open>The read model\<close>

record read_view =
  rv_base :: investigation_view
  rv_status :: processing_status
  rv_job :: "job_summary option"
  rv_report :: "report_version option"

definition base_view ::
    "(json \<Rightarrow> exn + json) \<Rightarrow> investigation_row \<Rightarrow> pipeline_job option \<Rightarrow> job_summary option \<Rightarrow> exn + investigation_view"
where
  "base_view coverage_dump r states job =
     rbind (investigation_response coverage_dump r states) (\<lambda>view. case job of
         None \<Rightarrow> Inr view
       | Some s \<Rightarrow>
           if sum_stage s \<noteq> ''claim_extraction'' then Inr view
           else rbind (investigation_response coverage_dump r (Some \<lparr>pj_state = sum_state s, pj_stage = sum_stage s,
                    pj_failure = None, pj_result = None, pj_media_result = Option.bind states pj_media_result\<rparr>))
                  (\<lambda>extraction. Inr (extraction\<lparr>view_stage := sum_stage s, view_speech := view_speech view\<rparr>)))"

definition fold_state ::
    "string \<Rightarrow> report_version option \<Rightarrow> string \<times> processing_status \<times> report_version option"
where
  "fold_state st report =
     (if st = ''failed'' then (st, PsFailed, None)
      else if st = ''cancelled'' then (st, PsCancelled, report)
      else case report of
          Some v \<Rightarrow> if report_provisional v then (''running'', PsPartial, report) else (''completed'', PsComplete, report)
        | None \<Rightarrow> if st = ''queued'' then (st, PsWaiting, None) else (''running'', PsChecking, None))"

definition read_model ::
    "(json \<Rightarrow> exn + json) \<Rightarrow> investigation_row \<Rightarrow> pipeline_job option \<Rightarrow> job_summary option
      \<Rightarrow> report_version option \<Rightarrow> exn + read_view"
where
  "read_model coverage_dump r states job report =
     rbind (base_view coverage_dump r states job) (\<lambda>view.
       let (st, status, shown) = fold_state (view_state view) report;
           error = (if st \<noteq> ''failed'' then None
             else if view_error view = None then safe_error (Some PROCESSING_FAILED) else view_error view)
       in Inr \<lparr>rv_base = view\<lparr>view_state := st, view_error := error,
                view_version := (case shown of None \<Rightarrow> inv_version r | Some v \<Rightarrow> report_version v)\<rparr>,
              rv_status = status, rv_job = job, rv_report = shown\<rparr>)"

definition extraction_failed :: "db \<Rightarrow> read_view \<Rightarrow> read_view" where
  "extraction_failed d m = (case rv_job m of
       Some s \<Rightarrow>
         if sum_stage s = ''claim_extraction'' \<and> view_state (rv_base m) = ''failed''
         then (case fetch (\<lambda>r. job_id r = sum_id s) (jobs d) of
             Some r \<Rightarrow> m\<lparr>rv_base := (rv_base m)\<lparr>view_error := safe_error (Some (extraction_failure_code (job_failure r)))\<rparr>\<rparr>
           | None \<Rightarrow> m)
         else m
     | None \<Rightarrow> m)"

definition evidence_failed :: "db \<Rightarrow> investigation_row \<Rightarrow> read_view \<Rightarrow> read_view" where
  "evidence_failed d r m =
     (if inv_source_kind r = ''capture'' \<or> view_state (rv_base m) = ''cancelled'' then m
      else case evidence_failure (inv_id r) d of
          None \<Rightarrow> m
        | Some code \<Rightarrow> m\<lparr>rv_base := (rv_base m)\<lparr>view_state := ''failed'', view_error := safe_error (Some code)\<rparr>,
                        rv_status := PsFailed, rv_report := None\<rparr>)"

text \<open>\<open>read_models\<close> for one row.\<close>

definition read_one ::
    "(string \<Rightarrow> string) \<Rightarrow> (json \<Rightarrow> exn + json) \<Rightarrow> (db \<Rightarrow> investigation_row \<Rightarrow> read_view \<Rightarrow> exn + read_view)
      \<Rightarrow> db \<Rightarrow> investigation_row \<Rightarrow> exn + read_view"
where
  "read_one sha coverage_dump analyse d r =
     rbind (read_model coverage_dump r (job_states sha d (inv_id r)) (latest_job sha d (inv_id r))
              (map_option report_from_row (newest_row (inv_id r) (report_versions d))))
       (\<lambda>m. rbind (analyse d r m) (\<lambda>m. Inr (evidence_failed d r (extraction_failed d m))))"

section \<open>Creation\<close>

datatype create_source = UrlSource string "int option" | UploadSource uuid "int option"

fun source_duration :: "create_source \<Rightarrow> int option" where
  "source_duration (UrlSource url ms) = ms"
| "source_duration (UploadSource u ms) = ms"

definition opt_int :: "int option \<Rightarrow> json" where
  "opt_int n = (case n of None \<Rightarrow> JNull | Some k \<Rightarrow> JInt k)"

fun source_json :: "create_source \<Rightarrow> json" where
  "source_json (UrlSource url ms) = JObj [(''kind'', JStr ''url''), (''url'', JStr url), (''duration_ms'', opt_int ms)]"
| "source_json (UploadSource u ms) =
     JObj [(''kind'', JStr ''upload''), (''upload_id'', JStr (str_uuid u)), (''duration_ms'', opt_int ms)]"

definition create_hash :: "(string \<Rightarrow> string) \<Rightarrow> create_source \<Rightarrow> string" where
  "create_hash sha source = sha (dumps (\<lambda>_. []) (JObj [(''source'', source_json source)]))"

definition fix_request :: "int \<Rightarrow> string \<Rightarrow> string \<Rightarrow> api_failure" where
  "fix_request status code message = Api ((plain_error status code message)\<lparr>err_action := ''fix_request''\<rparr>)"

definition idempotency_key :: "string option \<Rightarrow> api_failure + string" where
  "idempotency_key value = (case value of
       None \<Rightarrow> Inl (fix_request 400 ''IDEMPOTENCY_KEY_REQUIRED'' ''The Idempotency-Key header is required'')
     | Some v \<Rightarrow>
         let key = py_strip v
         in if key = [] then Inl (fix_request 400 ''IDEMPOTENCY_KEY_REQUIRED'' ''The Idempotency-Key header is required'')
            else if length key > 200
              then Inl (fix_request 400 ''IDEMPOTENCY_KEY_INVALID'' ''The Idempotency-Key header must be at most 200 characters'')
            else Inr key)"

definition stored_reply :: "uuid \<Rightarrow> string \<Rightarrow> db \<Rightarrow> idempotency_row option" where
  "stored_reply owner key d = fetch (\<lambda>k. idm_owner k = owner \<and> idm_key k = key) (idempotency_keys d)"

definition replay_create :: "uuid \<Rightarrow> string \<Rightarrow> string \<Rightarrow> db \<Rightarrow> api_failure + int \<times> json" where
  "replay_create owner key digest d = (case stored_reply owner key d of
       None \<Rightarrow> Inl (Internal (OtherError ''NoResultFound''))
     | Some k \<Rightarrow>
         if idm_hash k \<noteq> digest
         then Inl (fix_request 409 ''IDEMPOTENCY_KEY_REUSED''
                ''The Idempotency-Key was already used with a different request body'')
         else Inr (idm_status k, idm_body k))"

definition upload_incomplete :: api_failure where
  "upload_incomplete = Api ((plain_error 409 ''UPLOAD_INCOMPLETE''
     ''The upload must be completed before it can be investigated'')\<lparr>err_action := ''upload_again''\<rparr>)"

text \<open>The upload and the URL a new investigation stores.\<close>

definition source_columns :: "principal \<Rightarrow> create_source \<Rightarrow> db \<Rightarrow> api_failure + string \<times> uuid option \<times> string option" where
  "source_columns p source d = (case source of
       UrlSource url ms \<Rightarrow> Inr (''url'', None, Some url)
     | UploadSource u ms \<Rightarrow> rbind (load_owned upl_owner upl_id u p (uploads d)) (\<lambda>r.
         if upl_state r \<noteq> ''completed'' then Inl upload_incomplete else Inr (''upload'', Some (upl_id r), None)))"

definition new_investigation ::
    "uuid \<Rightarrow> principal \<Rightarrow> time \<Rightarrow> int option \<Rightarrow> string \<times> uuid option \<times> string option \<Rightarrow> investigation_row"
where
  "new_investigation i p now ms columns = (case columns of (kind, upload, url) \<Rightarrow>
     \<lparr>inv_id = i, inv_owner = pri_id p, inv_source_kind = kind, inv_source_url = url, inv_upload = upload,
      inv_declared_ms = ms, inv_state = ''queued'', inv_stage = INTAKE_STAGE, inv_version = 1,
      inv_error_code = None, inv_created = now, inv_updated = now\<rparr>)"

text \<open>What one request of the API brings along: clocks, fresh identifiers and the printer.\<close>

record create_env =
  ce_quota_clocks :: "nat \<Rightarrow> clk"
  ce_render :: "json \<Rightarrow> string"
  ce_clk :: clk
  ce_investigation :: uuid
  ce_job :: uuid
  ce_coverage :: "json \<Rightarrow> exn + json"
  ce_analyse :: "db \<Rightarrow> investigation_row \<Rightarrow> read_view \<Rightarrow> exn + read_view"
  ce_dump :: "read_view \<Rightarrow> json"

definition internal :: "exn + 'a \<Rightarrow> api_failure + 'a" where
  "internal x = (case x of Inl e \<Rightarrow> Inl (Internal e) | Inr v \<Rightarrow> Inr v)"

definition insert_investigation :: "investigation_row \<Rightarrow> db \<Rightarrow> api_failure + db" where
  "insert_investigation r d =
     (if list_ex (\<lambda>v. inv_id v = inv_id r) (investigations d) then Inl (Internal IntegrityError)
      else Inr (d\<lparr>investigations := investigations d @ [r]\<rparr>))"

definition record_reply :: "idempotency_row \<Rightarrow> db \<Rightarrow> api_failure + db" where
  "record_reply k d =
     (if stored_reply (idm_owner k) (idm_key k) d \<noteq> None then Inl (Internal IntegrityError)
      else Inr (d\<lparr>idempotency_keys := idempotency_keys d @ [k]\<rparr>))"

definition create_new ::
    "(string \<Rightarrow> string) \<Rightarrow> create_env \<Rightarrow> settings \<Rightarrow> principal \<Rightarrow> create_source \<Rightarrow> string \<Rightarrow> string \<Rightarrow> db
      \<Rightarrow> api_failure + (int \<times> json) \<times> db"
where
  "create_new sha env config p source key digest d =
     rbind (source_columns p source d) (\<lambda>columns.
     rbind (charge (ce_quota_clocks env) (ce_render env) p config 1 0 None d) (\<lambda>d1.
     let now = wall (ce_clk env);
         row = new_investigation (ce_investigation env) p now (source_duration source) columns
     in rbind (insert_investigation row d1) (\<lambda>d2.
        rbind (internal (dispatch sha (ce_clk env) (ce_job env) (inv_id row) (pri_id p) d2)) (\<lambda>d3.
        rbind (internal (read_one sha (ce_coverage env) (ce_analyse env) d3 row)) (\<lambda>m.
        let response = ce_dump env m
        in rbind (record_reply \<lparr>idm_owner = pri_id p, idm_key = key, idm_hash = digest,
                    idm_investigation = inv_id row, idm_status = 202, idm_body = response, idm_created = now\<rparr> d3)
             (\<lambda>d4. Inr ((202, response), d4)))))))"

definition create_in ::
    "(string \<Rightarrow> string) \<Rightarrow> create_env \<Rightarrow> settings \<Rightarrow> principal \<Rightarrow> create_source \<Rightarrow> string \<Rightarrow> string \<Rightarrow> db
      \<Rightarrow> api_failure + (int \<times> json) \<times> db"
where
  "create_in sha env config p source key digest d = rbind (lock_owner p config d) (\<lambda>_.
     if stored_reply (pri_id p) key d \<noteq> None
     then rbind (replay_create (pri_id p) key digest d) (\<lambda>reply. Inr (reply, d))
     else create_new sha env config p source key digest d)"

text \<open>
  The route. A request that loses the race for its key reads the winner's reply from what the others
  committed meanwhile.
\<close>

definition create_investigation ::
    "(string \<Rightarrow> string) \<Rightarrow> create_env \<Rightarrow> settings \<Rightarrow> principal \<Rightarrow> create_source \<Rightarrow> string option \<Rightarrow> (db \<Rightarrow> db) \<Rightarrow> db
      \<Rightarrow> api_failure + (int \<times> json) \<times> db"
where
  "create_investigation sha env config p source header others d =
     rbind (idempotency_key header) (\<lambda>key.
       let limit_ms = max_shared_duration_seconds (media_conf config) * 1000
       in if (case source_duration source of None \<Rightarrow> False | Some ms \<Rightarrow> ms > limit_ms)
          then Inl (fix_request 422 ''DURATION_LIMIT_EXCEEDED''
                 (''Shared media is limited to '' @ show_int limit_ms @ '' milliseconds''))
          else let digest = create_hash sha source
               in case create_in sha env config p source key digest d of
                    Inl f \<Rightarrow>
                      if f = Internal IntegrityError
                      then rbind (replay_create (pri_id p) key digest (others d)) (\<lambda>reply. Inr (reply, others d))
                      else Inl f
                  | Inr r \<Rightarrow> Inr r)"

section \<open>Reading the caller's investigations\<close>

definition get_investigation ::
    "(string \<Rightarrow> string) \<Rightarrow> create_env \<Rightarrow> principal \<Rightarrow> uuid \<Rightarrow> db \<Rightarrow> api_failure + read_view"
where
  "get_investigation sha env p i d = rbind (load_owned inv_owner inv_id i p (investigations d)) (\<lambda>r.
     internal (read_one sha (ce_coverage env) (ce_analyse env) d r))"

fun read_all :: "('r \<Rightarrow> 'e + 'm) \<Rightarrow> 'r list \<Rightarrow> 'e + 'm list" where
  "read_all f [] = Inr []"
| "read_all f (r # rs) = rbind (f r) (\<lambda>m. rbind (read_all f rs) (\<lambda>ms. Inr (m # ms)))"

definition list_investigations ::
    "(string \<Rightarrow> string) \<Rightarrow> create_env \<Rightarrow> principal \<Rightarrow> db \<Rightarrow> api_failure + read_view list"
where
  "list_investigations sha env p d = internal (read_all (read_one sha (ce_coverage env) (ce_analyse env) d)
     (take 100 (sort_key (\<lambda>r. - inv_created r) (sort_key (\<lambda>r. uint (inv_id r))
        (owned_rows inv_owner p (investigations d))))))"

section \<open>The read model keeps failures and findings apart\<close>

lemma fold_state_cases:
  assumes "fold_state st report = (st', status, shown)"
  shows "st' = ''failed'' \<longleftrightarrow> st = ''failed''" "st' = ''failed'' \<Longrightarrow> status = PsFailed \<and> shown = None"
    "st' = ''cancelled'' \<longleftrightarrow> status = PsCancelled" "shown \<noteq> None \<Longrightarrow> shown = report"
    "status = PsComplete \<longleftrightarrow> st' = ''completed''" "status = PsFailed \<longleftrightarrow> st' = ''failed''"
    "status = PsComplete \<Longrightarrow> \<exists>v. shown = Some v \<and> \<not> report_provisional v"
  using assms by (auto simp: fold_state_def split: if_splits option.splits)

lemma response_id: "investigation_response coverage_dump r job = Inr v \<Longrightarrow> view_id v = inv_id r"
  by (cases "state_and_code r job") (auto simp: investigation_response_def rbind_Inr_iff Let_def)

lemma base_view_id:
  assumes "base_view coverage_dump r states job = Inr v"
  shows "view_id v = inv_id r"
proof -
  obtain w where w: "investigation_response coverage_dump r states = Inr w"
    using assms by (auto simp: base_view_def rbind_Inr_iff)
  show ?thesis
  proof (cases job)
    case None
    then show ?thesis using assms w response_id[OF w] by (simp add: base_view_def)
  next
    case (Some s)
    show ?thesis
    proof (cases "sum_stage s = ''claim_extraction''")
      case True
      obtain x where x: "v = x\<lparr>view_stage := sum_stage s, view_speech := view_speech w\<rparr>" "view_id x = inv_id r"
        using assms Some True w response_id by (auto simp: base_view_def rbind_Inr_iff)
      then show ?thesis by simp
    next
      case False
      then show ?thesis using assms w Some response_id[OF w] by (simp add: base_view_def)
    qed
  qed
qed

text \<open>The read model keeps failures and findings apart, as the contract's branches demand. A failed
  investigation shows an error and no report, any other shows no error, a shown report is the latest one and
  sets the version, complete means a final report is shown, and the status and the state always agree.\<close>

theorem read_model_branches:
  assumes "read_model coverage_dump r states job report = Inr m"
  shows "(view_state (rv_base m) = ''failed'' \<longleftrightarrow> view_error (rv_base m) \<noteq> None)
    \<and> (view_state (rv_base m) = ''failed'' \<longrightarrow> rv_report m = None)
    \<and> (rv_report m \<noteq> None \<longrightarrow> rv_report m = report)
    \<and> view_version (rv_base m) = (case rv_report m of None \<Rightarrow> inv_version r | Some v \<Rightarrow> report_version v)
    \<and> (rv_status m = PsFailed \<longleftrightarrow> view_state (rv_base m) = ''failed'')
    \<and> (rv_status m = PsCancelled \<longleftrightarrow> view_state (rv_base m) = ''cancelled'')
    \<and> (rv_status m = PsComplete \<longleftrightarrow> view_state (rv_base m) = ''completed'')
    \<and> (rv_status m = PsComplete \<longrightarrow> (\<exists>v. rv_report m = Some v \<and> \<not> report_provisional v))
    \<and> rv_job m = job \<and> view_id (rv_base m) = inv_id r"
proof -
  obtain view where view: "base_view coverage_dump r states job = Inr view"
    using assms by (auto simp: read_model_def)
  obtain st status shown where f: "fold_state (view_state view) report = (st, status, shown)" by (metis prod_cases3)
  note c = fold_state_cases[OF f]
  have id: "view_id view = inv_id r" by (rule base_view_id[OF view])
  let ?error = "if st \<noteq> ''failed'' then None
    else if view_error view = None then safe_error (Some PROCESSING_FAILED) else view_error view"
  have m: "m = \<lparr>rv_base = view\<lparr>view_state := st, view_error := ?error,
                view_version := (case shown of None \<Rightarrow> inv_version r | Some v \<Rightarrow> report_version v)\<rparr>,
              rv_status = status, rv_job = job, rv_report = shown\<rparr>"
    using assms by (simp add: read_model_def view f)
  have "safe_error (Some x) \<noteq> None" for x by (simp add: safe_error_def)
  then have "st = ''failed'' \<longleftrightarrow> ?error \<noteq> None" by simp
  then show ?thesis using c id by (simp add: m)
qed

section \<open>Creation is idempotent\<close>

lemma internal_Inr [simp]: "internal x = Inr v \<longleftrightarrow> x = Inr v"
  by (cases x) (simp_all add: internal_def)

lemma charge_keeps_investigations: "charge cs render p config checks bytes i d = Inr e \<Longrightarrow> investigations e = investigations d"
  by (auto simp: charge_def charge_day_def rbind_Inr_iff Let_def split: if_splits prod.splits)

lemma dispatch_keeps_investigations: "dispatch sha c j i owner d = Inr e \<Longrightarrow> investigations e = investigations d"
  by (auto simp: dispatch_def rbind_Inr_iff enqueue_def split: option.splits if_splits)

lemma stored_after_record:
  assumes "record_reply k d = Inr e"
  shows "stored_reply (idm_owner k) (idm_key k) e = Some k" "investigations e = investigations d"
  using assms by (auto simp: record_reply_def stored_reply_def fetch_append split: if_splits)

lemma create_new_Inr:
  assumes "create_new sha env config p source key digest d = Inr (reply, e)"
  shows "\<exists>k row. stored_reply (pri_id p) key e = Some k \<and> idm_hash k = digest \<and> reply = (idm_status k, idm_body k)
    \<and> investigations e = investigations d @ [row] \<and> inv_owner row = pri_id p \<and> inv_id row = idm_investigation k"
proof -
  obtain columns d1 d2 d3 d4 m where
      steps: "charge (ce_quota_clocks env) (ce_render env) p config 1 0 None d = Inr d1"
      "insert_investigation (new_investigation (ce_investigation env) p (wall (ce_clk env)) (source_duration source) columns) d1 = Inr d2"
      "dispatch sha (ce_clk env) (ce_job env)
         (inv_id (new_investigation (ce_investigation env) p (wall (ce_clk env)) (source_duration source) columns)) (pri_id p) d2 = Inr d3"
    and rec: "record_reply \<lparr>idm_owner = pri_id p, idm_key = key, idm_hash = digest,
        idm_investigation = inv_id (new_investigation (ce_investigation env) p (wall (ce_clk env)) (source_duration source) columns),
        idm_status = 202, idm_body = ce_dump env m, idm_created = wall (ce_clk env)\<rparr> d3 = Inr d4"
    and out: "reply = (202, ce_dump env m)" "e = d4"
    using assms unfolding create_new_def Let_def rbind_Inr_iff by (clarsimp simp: Let_def rbind_Inr_iff)
  let ?row = "new_investigation (ce_investigation env) p (wall (ce_clk env)) (source_duration source) columns"
  have "investigations d2 = investigations d @ [?row]"
    using steps(2) charge_keeps_investigations[OF steps(1)] by (auto simp: insert_investigation_def split: if_splits)
  then have "investigations e = investigations d @ [?row]"
    using dispatch_keeps_investigations[OF steps(3)] stored_after_record(2)[OF rec] out(2) by simp
  moreover have "inv_owner ?row = pri_id p" by (simp add: new_investigation_def split: prod.splits)
  ultimately show ?thesis using stored_after_record(1)[OF rec] out by fastforce
qed

lemma replay_create_Inr:
  "replay_create owner key digest d = Inr reply \<longleftrightarrow>
     (\<exists>k. stored_reply owner key d = Some k \<and> idm_hash k = digest \<and> reply = (idm_status k, idm_body k))"
  by (auto simp: replay_create_def split: option.splits)

text \<open>After an answer the key is bound to the request that got it.\<close>

lemma create_investigation_bound:
  assumes "create_investigation sha env config p source header others d = Inr (reply, e)"
  obtains key k where "idempotency_key header = Inr key" "stored_reply (pri_id p) key e = Some k"
    "idm_hash k = create_hash sha source" "reply = (idm_status k, idm_body k)"
    "\<not> (case source_duration source of None \<Rightarrow> False | Some ms \<Rightarrow> ms > max_shared_duration_seconds (media_conf config) * 1000)"
    "e = d \<or> e = others d \<or> (\<exists>row. investigations e = investigations d @ [row] \<and> inv_owner row = pri_id p)"
proof -
  obtain key where key: "idempotency_key header = Inr key" using assms by (auto simp: create_investigation_def)
  let ?long = "case source_duration source of None \<Rightarrow> False | Some ms \<Rightarrow> ms > max_shared_duration_seconds (media_conf config) * 1000"
  have short: "\<not> ?long" using assms key by (auto simp: create_investigation_def Let_def split: if_splits)
  show thesis
  proof (cases "create_in sha env config p source key (create_hash sha source) d")
    case (Inl f)
    then have "rbind (replay_create (pri_id p) key (create_hash sha source) (others d)) (\<lambda>reply. Inr (reply, others d)) = Inr (reply, e)"
      using assms key short by (simp add: create_investigation_def Let_def split: if_splits)
    then have "e = others d" "replay_create (pri_id p) key (create_hash sha source) e = Inr reply"
      by (auto simp: rbind_Inr_iff)
    then show thesis using that key short unfolding replay_create_Inr by blast
  next
    case (Inr r)
    then have r: "r = (reply, e)" using assms key short by (simp add: create_investigation_def Let_def)
    show thesis
    proof (cases "stored_reply (pri_id p) key d = None")
      case True
      then have "create_new sha env config p source key (create_hash sha source) d = Inr (reply, e)"
        using Inr r by (auto simp: create_in_def rbind_Inr_iff)
      from create_new_Inr[OF this] show thesis using that key short by blast
    next
      case False
      then have "e = d" "replay_create (pri_id p) key (create_hash sha source) e = Inr reply"
        using Inr r by (auto simp: create_in_def rbind_Inr_iff)
      then show thesis using that key short unfolding replay_create_Inr by blast
    qed
  qed
qed


lemma read_model_ok:
  assumes "\<And>j. states = Some j \<Longrightarrow> pj_media_result j = None \<and> pj_result j = None"
  shows "\<exists>m. read_model coverage_dump r states job report = Inr m"
proof -
  have response: "\<exists>v. investigation_response coverage_dump r x = Inr v"
    if x: "\<And>j. x = Some j \<Longrightarrow> pj_media_result j = None \<and> pj_result j = None" for x
  proof -
    have "Option.bind x pj_media_result = None" using x by (cases x) simp_all
    then have "job_coverage coverage_dump x = Inr COVERAGE_PLACEHOLDER" by (simp add: job_coverage_def)
    moreover have "\<exists>s. job_speech x = Inr s"
      using x by (cases x) (simp_all add: job_speech_def not_null_def split: bool.split)
    ultimately show ?thesis by (cases "state_and_code r x") (auto simp: investigation_response_def Let_def)
  qed
  obtain v where v: "investigation_response coverage_dump r states = Inr v" using response[of states] assms by blast
  have media: "Option.bind states pj_media_result = None" using assms by (cases states) simp_all
  have "\<exists>w. base_view coverage_dump r states job = Inr w"
  proof (cases job)
    case (Some s)
    obtain w where "investigation_response coverage_dump r (Some \<lparr>pj_state = sum_state s, pj_stage = sum_stage s,
        pj_failure = None, pj_result = None, pj_media_result = None\<rparr>) = Inr w" using response by force
    then show ?thesis using v Some by (cases "sum_stage s = ''claim_extraction''") (simp_all add: base_view_def media)
  qed (simp add: base_view_def v)
  then show ?thesis by (auto simp: read_model_def Let_def split: prod.splits)
qed

definition ex_create_env :: create_env where
  "ex_create_env = \<lparr>ce_quota_clocks = \<lambda>_. ex_at 100, ce_render = \<lambda>_. [], ce_clk = ex_at 100, ce_investigation = 21,
     ce_job = 22, ce_coverage = Inr, ce_analyse = \<lambda>d r m. Inr m, ce_dump = \<lambda>m. JStr ''receipt''\<rparr>"

lemma ex_create:
  "\<exists>e. create_investigation id ex_create_env (default_settings ''u'') ex_caller (UrlSource ''u'' None) (Some ''k'') id empty_db
     = Inr ((202, JStr ''receipt''), e)"
proof -
  let ?row = "new_investigation 21 ex_caller 100 None (''url'', None, Some ''u'')"
  let ?job = "new_job (ex_at 100) 22 (intake_stage_key id 21) (intake_payload 21 7) (Some 7)"
  let ?d = "empty_db\<lparr>investigations := [?row], jobs := [?job]\<rparr>"
  have facts: "pri_id ex_caller = 7" "wall (ex_at 100) = 100" by (simp_all add: ex_caller_def ex_at_def)
  have key: "idempotency_key (Some ''k'') = Inr ''k''"
    by (simp add: idempotency_key_def py_strip_def strip_by_def is_space_def cval_def)
  have quota: "charge (\<lambda>_. ex_at 100) (\<lambda>_. []) ex_caller (default_settings ''u'') 1 0 None empty_db = Inr empty_db"
    "lock_owner ex_caller (default_settings ''u'') empty_db = Inr ()"
    by (simp_all add: charge_def lock_owner_def default_settings_def default_quotas_def)
  have ins: "insert_investigation ?row empty_db = Inr (empty_db\<lparr>investigations := [?row]\<rparr>)"
    by (simp add: insert_investigation_def empty_db_def)
  have row: "inv_id ?row = 21" by (simp add: new_investigation_def)
  have dis: "dispatch id (ex_at 100) 22 21 7 (empty_db\<lparr>investigations := [?row]\<rparr>) = Inr ?d"
    by (simp add: dispatch_def enqueue_def empty_db_def)
  have "pj_media_result j = None \<and> pj_result j = None" if "job_states id ?d 21 = Some j" for j
    using that by (simp add: job_states_def pipeline_keys_def intake_stage_key_def media_stage_key_def speech_stage_key_def
        investigation_key_def INTAKE_STAGE_def ASR_STAGE_def MEDIA_STAGE_def List.map_filter_simps add_stage_def
        empty_db_def new_job_def) auto
  then obtain m where "read_one id Inr (\<lambda>d r m. Inr m) ?d ?row = Inr m"
    using read_model_ok[of "job_states id ?d 21" Inr ?row "latest_job id ?d 21"
        "map_option report_from_row (newest_row 21 (report_versions ?d))"] by (auto simp: read_one_def row)
  moreover have "stored_reply 7 ''k'' ?d = None" "stored_reply 7 ''k'' empty_db = None"
    by (simp_all add: stored_reply_def empty_db_def)
  ultimately have "\<exists>e. create_in id ex_create_env (default_settings ''u'') ex_caller (UrlSource ''u'' None) ''k'' digest empty_db
      = Inr ((202, JStr ''receipt''), e)" for digest
    using quota ins dis
    by (simp add: create_in_def create_new_def source_columns_def ex_create_env_def facts row record_reply_def
        internal_def Let_def)
  then show ?thesis by (simp add: create_investigation_def key Let_def) (metis (no_types, lifting) old.sum.simps(6))
qed

theorem read_model_branches_witness:
  "\<exists>m. read_model Inr (ex_investigation 1 7) None None (Some (ex_built (next_identity 5 10 1 None))) = Inr m
    \<and> view_id (rv_base m) = 1 \<and> (rv_status m = PsFailed \<longleftrightarrow> view_state (rv_base m) = ''failed'')"
proof -
  obtain m where m: "read_model Inr (ex_investigation 1 7) None None (Some (ex_built (next_identity 5 10 1 None))) = Inr m"
    using read_model_ok[of None] by blast
  have "inv_id (ex_investigation 1 7) = 1" by (simp add: ex_investigation_def)
  with read_model_branches[OF m] m show ?thesis by metis
qed


end
