(* ===== verification/Reanalysis.thy ===== *)
theory Reanalysis
  imports Investigations
begin

text \<open>
  Reanalysis requests, \<open>backend/services/reanalysis.py\<close> and its route in \<open>routes/reports.py\<close>: a
  correction publishes the next version at once, every reason enqueues one job that must supersede the
  version it names, and the receipt is replayed under its key. SHA-256 and the printed receipt
  (\<open>re_dump\<close>) are parameters.
\<close>

datatype reanalysis_body =
    CorrectionBody int string string
  | ExpansionBody int bool "uuid option"
  | DeeperBody int

fun base_version :: "reanalysis_body \<Rightarrow> int" where
  "base_version (CorrectionBody n c t) = n"
| "base_version (ExpansionBody n m s) = n"
| "base_version (DeeperBody n) = n"

fun reason_of :: "reanalysis_body \<Rightarrow> string" where
  "reason_of (CorrectionBody n c t) = ''correction''"
| "reason_of (ExpansionBody n m s) = ''expansion''"
| "reason_of (DeeperBody n) = ''deeper''"

text \<open>\<open>model_dump(mode="json", exclude_none=True)\<close>.\<close>

fun body_json :: "reanalysis_body \<Rightarrow> (string \<times> json) list" where
  "body_json (CorrectionBody n c t) = [(''reason'', JStr ''correction''), (''base_version'', JInt n),
     (''claim_id'', JStr c), (''proposition'', JStr t)]"
| "body_json (ExpansionBody n m s) = [(''reason'', JStr ''expansion''), (''base_version'', JInt n),
     (''match_confirmed'', JBool m)]
     @ (case s of None \<Rightarrow> [] | Some u \<Rightarrow> [(''source_investigation_id'', JStr (str_uuid u))])"
| "body_json (DeeperBody n) = [(''reason'', JStr ''deeper''), (''base_version'', JInt n)]"

definition reanalysis_stage_key :: "(string \<Rightarrow> string) \<Rightarrow> uuid \<Rightarrow> stage_key" where
  "reanalysis_stage_key sha i =
     \<lparr>key_version = 1, key_stage = REANALYSIS_STAGE, key_input_hash = sha (''reanalysis:'' @ str_uuid i)\<rparr>"

definition reanalysis_hash :: "(string \<Rightarrow> string) \<Rightarrow> uuid \<Rightarrow> reanalysis_body \<Rightarrow> string" where
  "reanalysis_hash sha i body =
     sha (dumps (\<lambda>_. []) (JObj ((''investigation_id'', JStr (str_uuid i)) # body_json body)))"

section \<open>The corrected version\<close>

definition latest_version :: "uuid \<Rightarrow> db \<Rightarrow> api_failure + report_row" where
  "latest_version i d = (case newest_row i (report_versions d) of
       None \<Rightarrow> Inl (Api ((plain_error 409 ''REPORT_NOT_AVAILABLE''
                 ''The check has no published report to reanalyse yet'')\<lparr>err_action := ''retry''\<rparr>))
     | Some r \<Rightarrow> Inr r)"

definition correct_claim :: "string \<Rightarrow> time \<Rightarrow> claim \<Rightarrow> claim" where
  "correct_claim text' now c = c\<lparr>claim_proposition := text',
     correction := Some \<lparr>corrected_by = ByUser, corrected_at = now, superseded_proposition = claim_proposition c\<rparr>\<rparr>"

definition correction_summary :: "string \<Rightarrow> int \<Rightarrow> string" where
  "correction_summary c n = ''Correction: the user corrected the normalized meaning of claim '' @ c
     @ ''; its evidence and assessment will be rerun. Version '' @ show_int n @ '' is kept.''"

definition corrected_report ::
    "report_version \<Rightarrow> string \<Rightarrow> string \<Rightarrow> next_version \<Rightarrow> api_failure + report_version"
where
  "corrected_report base c text' v = (case fetch (\<lambda>x. claim_id x = c) (claims base) of
       None \<Rightarrow> Inl (fix_request 422 ''CLAIM_NOT_IN_VERSION'' ''The claim is not part of this report version'')
     | Some old \<Rightarrow>
         if claim_proposition old = text'
         then Inl (fix_request 422 ''CORRECTION_UNCHANGED'' ''The corrected meaning equals the current one'')
         else Inr (base\<lparr>report_id := str_uuid (nv_id v), report_version := nv_version v,
                report_created_at := nv_created_at v, report_provisional := True,
                change_summary := correction_summary (claim_id old) (report_version base),
                supersedes := nv_supersedes v,
                claims := map (\<lambda>x. if claim_id x = claim_id old
                   then correct_claim text' (nv_created_at v) old else x) (claims base),
                evidences := filter (\<lambda>e. evidence_claim e \<noteq> claim_id old) (evidences base),
                assessments := map (\<lambda>a. a\<lparr>assessment_version := nv_version v\<rparr>)
                   (filter (\<lambda>a. assessed_claim a \<noteq> claim_id old) (assessments base))\<rparr>))"

section \<open>One request\<close>

record reanalysis_env =
  re_quota_clocks :: "nat \<Rightarrow> clk"
  re_render :: "json \<Rightarrow> string"
  re_clk :: clk
  re_report :: uuid
  re_request :: uuid
  re_job :: uuid
  re_coverage :: "json \<Rightarrow> exn + json"

record reanalysis_receipt =
  rr_id :: uuid
  rr_investigation :: uuid
  rr_reason :: string
  rr_base_version :: int
  rr_published_version :: "int option"
  rr_source :: "uuid option"
  rr_job :: job_summary
  rr_created_at :: time

definition confirmed_source ::
    "(string \<Rightarrow> string) \<Rightarrow> reanalysis_env \<Rightarrow> principal \<Rightarrow> uuid \<Rightarrow> uuid option \<Rightarrow> db \<Rightarrow> api_failure + uuid"
where
  "confirmed_source sha env p i source d = (case source of
       None \<Rightarrow> Inl (fix_request 422 ''EXPANSION_SOURCE_REQUIRED''
                 ''Expansion must name the investigation of the confirmed full video'')
     | Some s \<Rightarrow>
         if s = i then Inl (fix_request 422 ''EXPANSION_SOURCE_SELF''
                 ''The full video must be a different investigation from the one being expanded'')
         else rbind (load_owned inv_owner inv_id s p (investigations d)) (\<lambda>r.
           if inv_source_kind r \<notin> {''url'', ''upload''}
           then Inl (fix_request 422 ''EXPANSION_SOURCE_UNSUPPORTED''
                 ''The full video must be a shared video or upload, not a live capture'')
           else rbind (internal (investigation_response (re_coverage env) r (job_states sha d s))) (\<lambda>view.
             if view_state view \<in> {''failed'', ''cancelled''}
             then Inl (fix_request 409 ''EXPANSION_SOURCE_UNAVAILABLE''
                 ''The investigation of the full video failed or was cancelled'')
             else Inr s)))"

text \<open>The validated source of an expansion; the other reasons name none.\<close>

definition request_source ::
    "(string \<Rightarrow> string) \<Rightarrow> reanalysis_env \<Rightarrow> principal \<Rightarrow> uuid \<Rightarrow> reanalysis_body \<Rightarrow> db \<Rightarrow> api_failure + uuid option"
where
  "request_source sha env p i body d = (case body of
       ExpansionBody n confirmed source \<Rightarrow>
         if \<not> confirmed
         then Inl (fix_request 422 ''MATCH_CONFIRMATION_REQUIRED''
                ''Expansion to the full video requires the user to confirm the match'')
         else rbind (confirmed_source sha env p i source d) (\<lambda>s. Inr (Some s))
     | _ \<Rightarrow> Inr None)"

definition stored_request :: "principal \<Rightarrow> string \<Rightarrow> db \<Rightarrow> reanalysis_row option" where
  "stored_request p key d = fetch (\<lambda>r. rea_owner r = pri_id p \<and> rea_key r = key) (reanalysis_requests d)"

definition reused_key :: api_failure where
  "reused_key = fix_request 409 ''IDEMPOTENCY_KEY_REUSED''
     ''The Idempotency-Key was already used with a different request''"

definition replay_reanalysis :: "principal \<Rightarrow> string \<Rightarrow> string \<Rightarrow> db \<Rightarrow> api_failure + json option" where
  "replay_reanalysis p key digest d = (case stored_request p key d of
       None \<Rightarrow> Inr None
     | Some r \<Rightarrow> if rea_hash r \<noteq> digest then Inl reused_key else Inr (Some (rea_response r)))"

text \<open>The version a correction publishes at once; the other reasons publish none yet.\<close>

definition publish_correction ::
    "reanalysis_env \<Rightarrow> uuid \<Rightarrow> reanalysis_body \<Rightarrow> report_row \<Rightarrow> db \<Rightarrow> api_failure + int option \<times> string list \<times> db"
where
  "publish_correction env i body latest d = (case body of
       CorrectionBody n c text' \<Rightarrow>
         rbind (publish_report_version (re_report env) (wall (re_clk env)) i
                  (corrected_report (rep_payload latest) c text') (rep_fixture latest) d)
           (\<lambda>(published, e). Inr (Some (report_version published), [c], e))
     | _ \<Rightarrow> Inr (None, [], d))"

definition reanalysis_payload ::
    "uuid \<Rightarrow> uuid \<Rightarrow> uuid \<Rightarrow> string \<Rightarrow> int \<Rightarrow> string list \<Rightarrow> uuid option \<Rightarrow> json"
where
  "reanalysis_payload request i owner reason target pending source = JObj
     [(''request_id'', JStr (str_uuid request)), (''investigation_id'', JStr (str_uuid i)),
      (''owner_id'', JStr (str_uuid owner)), (''reason'', JStr reason), (''supersedes_version'', JInt target),
      (''claim_ids'', JArr (map JStr pending)),
      (''source_investigation_id'', case source of None \<Rightarrow> JNull | Some s \<Rightarrow> JStr (str_uuid s))]"

definition insert_request :: "reanalysis_row \<Rightarrow> db \<Rightarrow> api_failure + db" where
  "insert_request r d =
     (if list_ex (\<lambda>x. rea_id x = rea_id r \<or> (rea_owner x = rea_owner r \<and> rea_key x = rea_key r)) (reanalysis_requests d)
      then Inl (Internal IntegrityError)
      else Inr (d\<lparr>reanalysis_requests := reanalysis_requests d @ [r]\<rparr>))"

definition job_summary_of :: "uuid \<Rightarrow> db \<Rightarrow> api_failure + job_summary" where
  "job_summary_of j d = (case fetch (\<lambda>r. job_id r = j) (jobs d) of
     None \<Rightarrow> Inl (Internal (OtherError ''NoResultFound'')) | Some r \<Rightarrow> Inr (summarize_job r))"

text \<open>After validation: publish, enqueue, record.\<close>

definition accept_request ::
    "(string \<Rightarrow> string) \<Rightarrow> (reanalysis_receipt \<Rightarrow> json) \<Rightarrow> reanalysis_env \<Rightarrow> principal \<Rightarrow> uuid \<Rightarrow> reanalysis_body
      \<Rightarrow> string \<Rightarrow> string \<Rightarrow> uuid option \<Rightarrow> report_row \<Rightarrow> db \<Rightarrow> api_failure + json \<times> db"
where
  "accept_request sha dump env p i body key digest source latest d =
     rbind (publish_correction env i body latest d) (\<lambda>(published, pending, d1).
       let request = re_request env; now = wall (re_clk env);
           target = (case published of None \<Rightarrow> rep_version latest | Some n \<Rightarrow> n)
       in rbind (internal (enqueue (re_clk env) (re_job env) (reanalysis_stage_key sha request)
              (reanalysis_payload request i (pri_id p) (reason_of body) target pending source) (Some (pri_id p)) d1))
            (\<lambda>(enqueued, d2). rbind (job_summary_of (enq_job_id enqueued) d2) (\<lambda>summary.
              let response = dump \<lparr>rr_id = request, rr_investigation = i, rr_reason = reason_of body,
                    rr_base_version = base_version body, rr_published_version = published, rr_source = source,
                    rr_job = summary, rr_created_at = now\<rparr>
              in rbind (insert_request \<lparr>rea_id = request, rea_owner = pri_id p, rea_investigation = i, rea_key = key,
                    rea_hash = digest, rea_reason = reason_of body, rea_base_version = base_version body,
                    rea_published_version = published, rea_result_version = None,
                    rea_job = Some (enq_job_id enqueued), rea_response = response, rea_created = now,
                    rea_source = source\<rparr> d2) (\<lambda>d3. Inr (response, d3)))))"

definition request_reanalysis ::
    "(string \<Rightarrow> string) \<Rightarrow> (reanalysis_receipt \<Rightarrow> json) \<Rightarrow> reanalysis_env \<Rightarrow> settings \<Rightarrow> principal \<Rightarrow> uuid
      \<Rightarrow> reanalysis_body \<Rightarrow> string \<Rightarrow> db \<Rightarrow> api_failure + json \<times> db"
where
  "request_reanalysis sha dump env config p i body key d =
     (let digest = reanalysis_hash sha i body in
      rbind (lock_owner p config d) (\<lambda>_.
      rbind (load_owned inv_owner inv_id i p (investigations d)) (\<lambda>_.
      rbind (replay_reanalysis p key digest d) (\<lambda>stored. case stored of
          Some response \<Rightarrow> Inr (response, d)
        | None \<Rightarrow>
            rbind (request_source sha env p i body d) (\<lambda>source.
            rbind (latest_version i d) (\<lambda>latest.
              if base_version body \<noteq> rep_version latest
              then Inl (fix_request 409 ''REPORT_VERSION_STALE''
                     (''Reanalysis must start from the latest report version, '' @ show_int (rep_version latest)))
              else rbind (charge (re_quota_clocks env) (re_render env) p config 1 0 (Some i) d) (\<lambda>d1.
                accept_request sha dump env p i body key digest source latest d1)))))))"

text \<open>The route: a request that loses the race for its key answers with what the winner stored.\<close>

definition reanalyze ::
    "(string \<Rightarrow> string) \<Rightarrow> (reanalysis_receipt \<Rightarrow> json) \<Rightarrow> reanalysis_env \<Rightarrow> settings \<Rightarrow> principal \<Rightarrow> uuid
      \<Rightarrow> reanalysis_body \<Rightarrow> string option \<Rightarrow> (db \<Rightarrow> db) \<Rightarrow> db \<Rightarrow> api_failure + json \<times> db"
where
  "reanalyze sha dump env config p i body header others d = rbind (idempotency_key header) (\<lambda>key.
     case request_reanalysis sha dump env config p i body key d of
       Inr r \<Rightarrow> Inr r
     | Inl f \<Rightarrow>
         if f \<noteq> Internal IntegrityError then Inl f
         else rbind (replay_reanalysis p key (reanalysis_hash sha i body) (others d)) (\<lambda>stored.
                case stored of None \<Rightarrow> Inl f | Some response \<Rightarrow> Inr (response, others d)))"

section \<open>A correction changes one claim\<close>

lemma corrected_report_Inr:
  assumes "corrected_report base c text' v = Inr r"
  obtains old where "fetch (\<lambda>x. claim_id x = c) (claims base) = Some old" "claim_id old = c" "claim_proposition old \<noteq> text'"
    "r = base\<lparr>report_id := str_uuid (nv_id v), report_version := nv_version v,
       report_created_at := nv_created_at v, report_provisional := True,
       change_summary := correction_summary c (report_version base), supersedes := nv_supersedes v,
       claims := map (\<lambda>x. if claim_id x = c then correct_claim text' (nv_created_at v) old else x) (claims base),
       evidences := filter (\<lambda>e. evidence_claim e \<noteq> c) (evidences base),
       assessments := map (\<lambda>a. a\<lparr>assessment_version := nv_version v\<rparr>)
         (filter (\<lambda>a. assessed_claim a \<noteq> c) (assessments base))\<rparr>"
proof -
  obtain old where old: "fetch (\<lambda>x. claim_id x = c) (claims base) = Some old"
    using assms by (auto simp: corrected_report_def split: option.splits)
  moreover have "claim_id old = c" using old by (auto dest: fetch_SomeD)
  ultimately show thesis using that assms by (auto simp: corrected_report_def split: if_splits)
qed

lemma filter_map_unchanged:
  "(\<And>x. x \<in> set xs \<Longrightarrow> p (f x) = p x) \<Longrightarrow> (\<And>x. x \<in> set xs \<Longrightarrow> p x \<Longrightarrow> f x = x) \<Longrightarrow> filter p (map f xs) = filter p xs"
  by (induction xs) auto

lemma filter_key_one: "distinct (map f xs) \<Longrightarrow> x \<in> set xs \<Longrightarrow> filter (\<lambda>y. f y = f x) xs = [x]"
  by (induction xs) (auto simp: filter_empty_conv image_iff)

lemma filter_map_commute: "(\<And>x. p (f x) = p x) \<Longrightarrow> filter p (map f xs) = map f (filter p xs)"
  by (induction xs) auto

lemma if_same_id: "claim_id y = c \<Longrightarrow> (claim_id (if claim_id x = c then y else x) = c) = (claim_id x = c)"
  by simp

text \<open>C25: A correction changes one claim and nothing else. The version it publishes keeps every other claim with
  its evidence and assessments, keeps the corrected claim's original wording, records the superseded
  meaning as the user's, drops that claim's evidence and assessment, and is provisional.\<close>

theorem correction_changes_one_claim:
  assumes "corrected_report base c text' v = Inr r" "distinct (map claim_id (claims base))"
  shows "map claim_id (claims r) = map claim_id (claims base)
    \<and> filter (\<lambda>x. claim_id x \<noteq> c) (claims r) = filter (\<lambda>x. claim_id x \<noteq> c) (claims base)
    \<and> (\<exists>old \<in> set (claims base). claim_id old = c \<and> claim_proposition old \<noteq> text'
        \<and> filter (\<lambda>x. claim_id x = c) (claims r)
            = [old\<lparr>claim_proposition := text', correction := Some \<lparr>corrected_by = ByUser,
                 corrected_at = nv_created_at v, superseded_proposition = claim_proposition old\<rparr>\<rparr>])
    \<and> evidences r = filter (\<lambda>e. evidence_claim e \<noteq> c) (evidences base)
    \<and> map (\<lambda>a. a\<lparr>assessment_version := 0\<rparr>) (assessments r)
        = map (\<lambda>a. a\<lparr>assessment_version := 0\<rparr>) (filter (\<lambda>a. assessed_claim a \<noteq> c) (assessments base))
    \<and> report_provisional r"
proof -
  obtain old where old: "fetch (\<lambda>x. claim_id x = c) (claims base) = Some old" "claim_id old = c" "claim_proposition old \<noteq> text'"
    and r: "r = base\<lparr>report_id := str_uuid (nv_id v), report_version := nv_version v,
       report_created_at := nv_created_at v, report_provisional := True,
       change_summary := correction_summary c (report_version base), supersedes := nv_supersedes v,
       claims := map (\<lambda>x. if claim_id x = c then correct_claim text' (nv_created_at v) old else x) (claims base),
       evidences := filter (\<lambda>e. evidence_claim e \<noteq> c) (evidences base),
       assessments := map (\<lambda>a. a\<lparr>assessment_version := nv_version v\<rparr>)
         (filter (\<lambda>a. assessed_claim a \<noteq> c) (assessments base))\<rparr>"
    using assms(1) by (rule corrected_report_Inr)
  let ?new = "correct_claim text' (nv_created_at v) old"
  let ?f = "\<lambda>x. if claim_id x = c then ?new else x"
  have new: "claim_id ?new = c" "?new = old\<lparr>claim_proposition := text', correction := Some \<lparr>corrected_by = ByUser,
      corrected_at = nv_created_at v, superseded_proposition = claim_proposition old\<rparr>\<rparr>"
    using old(2) by (simp_all add: correct_claim_def)
  have fields: "claims r = map ?f (claims base)" "evidences r = filter (\<lambda>e. evidence_claim e \<noteq> c) (evidences base)"
    "assessments r = map (\<lambda>a. a\<lparr>assessment_version := nv_version v\<rparr>) (filter (\<lambda>a. assessed_claim a \<noteq> c) (assessments base))"
    "report_provisional r" by (simp_all add: r)
  have mem: "old \<in> set (claims base)" using old(1) by (auto dest: fetch_SomeD)
  have one: "filter (\<lambda>x. claim_id x = c) (claims base) = [old]"
    using filter_key_one[OF assms(2) mem] old(2) by simp
  have "map claim_id (claims r) = map claim_id (claims base)"
    unfolding fields(1) by (simp add: comp_def new(1) old(2))
  moreover have "filter (\<lambda>x. claim_id x \<noteq> c) (claims r) = filter (\<lambda>x. claim_id x \<noteq> c) (claims base)"
    unfolding fields(1) by (rule filter_map_unchanged) (simp_all add: new(1))
  moreover have "filter (\<lambda>x. claim_id x = c) (claims r) = [?new]"
    unfolding fields(1) filter_map_commute[of "\<lambda>x. claim_id x = c" ?f, OF if_same_id[OF new(1)]] one by (simp add: old(2))
  moreover have "map (\<lambda>a. a\<lparr>assessment_version := 0\<rparr>) (assessments r)
      = map (\<lambda>a. a\<lparr>assessment_version := 0\<rparr>) (filter (\<lambda>a. assessed_claim a \<noteq> c) (assessments base))"
    unfolding fields(3) by (simp add: comp_def)
  ultimately show ?thesis using mem old(2,3) fields(2,4) unfolding new(2) by blast
qed

section \<open>Accepted requests\<close>

lemma charge_keeps: "charge cs render p config checks bytes i d = Inr e \<Longrightarrow>
    e = d\<lparr>quota_usage := quota_usage e\<rparr>"
  by (auto simp: charge_def charge_day_def rbind_Inr_iff Let_def split: if_splits prod.splits)

text \<open>What a correction publishes; the other reasons leave the database alone.\<close>

lemma publish_correction_Inr:
  assumes "publish_correction env i body latest d = Inr (pubv, pending, e)"
  shows "(pubv = None \<and> e = d) \<or> (\<exists>c t r. body = CorrectionBody (base_version body) c t \<and> pubv = Some (report_version r) \<and>
      publish_report_version (re_report env) (wall (re_clk env)) i (corrected_report (rep_payload latest) c t)
        (rep_fixture latest) d = Inr (r, e))"
  using assms by (cases body) (auto simp: publish_correction_def rbind_Inr_iff)

text \<open>The steps of an accepted request.\<close>

lemma accept_request_Inr:
  assumes "accept_request sha dump env p i body key digest source latest d = Inr (response, e)"
  obtains pubv pending d1 enqueued d2 summary where
    "publish_correction env i body latest d = Inr (pubv, pending, d1)"
    "enqueue (re_clk env) (re_job env) (reanalysis_stage_key sha (re_request env))
       (reanalysis_payload (re_request env) i (pri_id p) (reason_of body)
          (case pubv of None \<Rightarrow> rep_version latest | Some n \<Rightarrow> n) pending source) (Some (pri_id p)) d1 = Inr (enqueued, d2)"
    "response = dump \<lparr>rr_id = re_request env, rr_investigation = i, rr_reason = reason_of body,
       rr_base_version = base_version body, rr_published_version = pubv, rr_source = source,
       rr_job = summary, rr_created_at = wall (re_clk env)\<rparr>"
    "insert_request \<lparr>rea_id = re_request env, rea_owner = pri_id p, rea_investigation = i, rea_key = key,
       rea_hash = digest, rea_reason = reason_of body, rea_base_version = base_version body,
       rea_published_version = pubv, rea_result_version = None, rea_job = Some (enq_job_id enqueued),
       rea_response = response, rea_created = wall (re_clk env), rea_source = source\<rparr> d2 = Inr e"
  using assms unfolding accept_request_def Let_def rbind_Inr_iff by (clarsimp simp: Let_def rbind_Inr_iff)

lemma insert_request_Inr:
  assumes "insert_request r d = Inr e"
  shows "e = d\<lparr>reanalysis_requests := reanalysis_requests d @ [r]\<rparr>"
    "rea_owner r = pri_id p \<Longrightarrow> rea_key r = key \<Longrightarrow> stored_request p key e = Some r"
proof -
  show e: "e = d\<lparr>reanalysis_requests := reanalysis_requests d @ [r]\<rparr>"
    using assms by (simp add: insert_request_def split: if_splits)
  assume k: "rea_owner r = pri_id p" "rea_key r = key"
  have "fetch (\<lambda>x. rea_owner x = pri_id p \<and> rea_key x = key) (reanalysis_requests d) = None"
    using assms k by (auto simp: insert_request_def list_ex_iff fetch_None_iff split: if_splits)
  then show "stored_request p key e = Some r" using k by (simp add: e stored_request_def fetch_append)
qed

lemma enqueue_keeps: "enqueue c j k payload owner d = Inr (q, e) \<Longrightarrow> e = d\<lparr>jobs := jobs e\<rparr>"
  by (auto simp: enqueue_def split: option.splits if_splits)

lemma accept_request_stored:
  assumes "accept_request sha dump env p i body key digest source latest d = Inr (response, e)"
  shows "\<exists>r. stored_request p key e = Some r \<and> rea_hash r = digest \<and> rea_response r = response"
  using assms by (rule accept_request_Inr) (use insert_request_Inr(2) in fastforce)

lemma request_reanalysis_Inr:
  assumes "request_reanalysis sha dump env config p i body key d = Inr (response, e)"
  shows "\<exists>r. stored_request p key e = Some r \<and> rea_hash r = reanalysis_hash sha i body \<and> rea_response r = response"
    "stored_request p key d = None \<Longrightarrow> \<exists>source latest d1. latest_version i d = Inr latest \<and> base_version body = rep_version latest
       \<and> charge (re_quota_clocks env) (re_render env) p config 1 0 (Some i) d = Inr d1
       \<and> request_source sha env p i body d = Inr source
       \<and> accept_request sha dump env p i body key (reanalysis_hash sha i body) source latest d1 = Inr (response, e)"
    "stored_request p key d \<noteq> None \<Longrightarrow> e = d"
proof -
  let ?digest = "reanalysis_hash sha i body"
  have new: "\<exists>source latest d1. latest_version i d = Inr latest \<and> base_version body = rep_version latest
       \<and> charge (re_quota_clocks env) (re_render env) p config 1 0 (Some i) d = Inr d1
       \<and> request_source sha env p i body d = Inr source
       \<and> accept_request sha dump env p i body key ?digest source latest d1 = Inr (response, e)"
    if "stored_request p key d = None"
    using assms that by (auto simp: request_reanalysis_def Let_def rbind_Inr_iff replay_reanalysis_def split: if_splits)
  have old: "e = d \<and> (\<exists>r. stored_request p key e = Some r \<and> rea_hash r = ?digest \<and> rea_response r = response)"
    if "stored_request p key d \<noteq> None"
    using assms that by (auto simp: request_reanalysis_def Let_def rbind_Inr_iff replay_reanalysis_def split: if_splits)
  show "\<exists>r. stored_request p key e = Some r \<and> rea_hash r = ?digest \<and> rea_response r = response"
    using new old accept_request_stored by blast
  show "stored_request p key d = None \<Longrightarrow> \<exists>source latest d1. latest_version i d = Inr latest \<and> base_version body = rep_version latest
       \<and> charge (re_quota_clocks env) (re_render env) p config 1 0 (Some i) d = Inr d1
       \<and> request_source sha env p i body d = Inr source
       \<and> accept_request sha dump env p i body key ?digest source latest d1 = Inr (response, e)" by (rule new)
  show "stored_request p key d \<noteq> None \<Longrightarrow> e = d" using old by blast
qed

lemma reanalyze_bound:
  assumes "reanalyze sha dump env config p i body header others d = Inr (response, e)"
  obtains key r where "idempotency_key header = Inr key" "stored_request p key e = Some r"
    "rea_hash r = reanalysis_hash sha i body" "rea_response r = response"
proof -
  obtain key where key: "idempotency_key header = Inr key" using assms by (auto simp: reanalyze_def)
  show thesis
  proof (cases "request_reanalysis sha dump env config p i body key d")
    case (Inl f)
    then have "replay_reanalysis p key (reanalysis_hash sha i body) (others d) = Inr (Some response)" "e = others d"
      using assms key by (auto simp: reanalyze_def rbind_Inr_iff split: if_splits option.splits)
    then show thesis using that key by (auto simp: replay_reanalysis_def split: option.splits if_splits)
  next
    case (Inr x)
    then have "request_reanalysis sha dump env config p i body key d = Inr (response, e)"
      using assms key by (simp add: reanalyze_def)
    from request_reanalysis_Inr(1)[OF this] show thesis using that key by blast
  qed
qed

text \<open>A reanalysis request is answered once. After an answer the same request under the same key gets the
  same receipt and changes nothing, and any other request under that key is refused, as long as the
  caller is active and still owns the investigation.\<close>

theorem reanalysis_answered_once:
  assumes "reanalyze sha dump env config p i body header others d = Inr (response, e)" "lock_owner p config e = Inr ()"
    and "load_owned inv_owner inv_id i p (investigations e) = Inr v"
  shows "reanalyze sha dump env' config p i body header others' e = Inr (response, e)
    \<and> (reanalysis_hash sha i body' \<noteq> reanalysis_hash sha i body \<longrightarrow>
         reanalyze sha dump env' config p i body' header others' e = Inl reused_key)"
  using assms(1)
proof (rule reanalyze_bound)
  fix key r
  assume k: "idempotency_key header = Inr key" "stored_request p key e = Some r"
    "rea_hash r = reanalysis_hash sha i body" "rea_response r = response"
  have again: "request_reanalysis sha dump env' config p i b key e = rbind (replay_reanalysis p key (reanalysis_hash sha i b) e)
      (\<lambda>stored. Inr (the stored, e))" for b
    using assms(2,3) k(2) by (simp add: request_reanalysis_def Let_def replay_reanalysis_def)
  show ?thesis
    using k by (simp add: reanalyze_def again replay_reanalysis_def reused_key_def fix_request_def)
qed

text \<open>An accepted request charges, publishes at most the next version and then only adds rows elsewhere.\<close>

lemma accepted_report_steps:
  assumes "charge cs render p config 1 0 (Some i) d = Inr d1"
    "accept_request sha dump env p i body key digest source latest d1 = Inr (response, e)"
  shows "(report_step {})\<^sup>*\<^sup>* d e"
  using assms(2)
proof (rule accept_request_Inr)
  fix pubv pending d2 enqueued d3 summary
  assume pub: "publish_correction env i body latest d1 = Inr (pubv, pending, d2)"
    and enq: "enqueue (re_clk env) (re_job env) (reanalysis_stage_key sha (re_request env))
       (reanalysis_payload (re_request env) i (pri_id p) (reason_of body)
          (case pubv of None \<Rightarrow> rep_version latest | Some n \<Rightarrow> n) pending source) (Some (pri_id p)) d2 = Inr (enqueued, d3)"
    and ins: "insert_request \<lparr>rea_id = re_request env, rea_owner = pri_id p, rea_investigation = i, rea_key = key,
       rea_hash = digest, rea_reason = reason_of body, rea_base_version = base_version body,
       rea_published_version = pubv, rea_result_version = None, rea_job = Some (enq_job_id enqueued),
       rea_response = response, rea_created = wall (re_clk env), rea_source = source\<rparr> d3 = Inr e"
  have "report_versions d1 = report_versions d" using charge_keeps[OF assms(1)] by (metis db.ext_inject db.surjective db.update_convs(5))
  then have "report_step {} d d1" by (rule rs_other)
  moreover have "(report_step {})\<^sup>*\<^sup>* d1 d2" using publish_correction_Inr[OF pub] rs_publish by blast
  moreover have "report_versions e = report_versions d2"
    using enqueue_keeps[OF enq] insert_request_Inr(1)[OF ins] by (metis db.select_convs(11) db.surjective db.update_convs(1,13))
  then have "report_step {} d2 e" by (rule rs_other)
  ultimately show ?thesis by (meson converse_rtranclp_into_rtranclp rtranclp.rtrancl_into_rtrancl)
qed

text \<open>The newest version after publishing the answer to a request based on the latest one.\<close>

lemma correction_newest:
  assumes "publish_correction env i body latest d = Inr (pubv, pending, e)" "histories_ok d"
    "newest_row i (report_versions d) = Some latest"
  obtains newest where "newest_row i (report_versions e) = Some newest"
    "rep_version newest = rep_version latest + (case body of CorrectionBody n c t \<Rightarrow> 1 | _ \<Rightarrow> 0)"
    "(case pubv of None \<Rightarrow> rep_version latest | Some n \<Rightarrow> n) = rep_version newest" "jobs e = jobs d"
proof (cases "\<exists>n c t. body = CorrectionBody n c t")
  case False
  then have "e = d" "pubv = None" using assms(1) by (cases body; simp add: publish_correction_def)+
  moreover have "(case body of CorrectionBody n c t \<Rightarrow> 1 | _ \<Rightarrow> 0) = (0 :: int)" using False by (cases body) auto
  ultimately show thesis using that assms(3) by simp
next
  case True
  then obtain n c t where body: "body = CorrectionBody n c t" by blast
  then obtain r where r: "publish_report_version (re_report env) (wall (re_clk env)) i
      (corrected_report (rep_payload latest) c t) (rep_fixture latest) d = Inr (r, e)" "pubv = Some (report_version r)"
    using assms(1) by (auto simp: publish_correction_def rbind_Inr_iff)
  let ?v = "next_identity (re_report env) (wall (re_clk env)) i (newest_row i (report_versions d))"
  obtain row where row: "report_versions e = report_versions d @ [row]" "rep_investigation row = i"
      "rep_version row = nv_version ?v" "carries ?v r" "e = d\<lparr>report_versions := report_versions e\<rparr>"
    using publish_report_Inr[OF r(1)] by blast
  have chain: "chain 1 None (history i (report_versions e))"
    using publish_report_chain[OF r(1)] assms(2) by (simp add: histories_ok_def)
  have h: "history i (report_versions e) = history i (report_versions d) @ [row]" using row(1,2) by (simp add: history_def)
  have newest: "newest_row i (report_versions e) = Some row" using newest_of_chain(1)[OF chain] by (simp add: h)
  have n: "nv_version ?v = rep_version latest + 1" by (simp add: next_identity_def assms(3))
  have "jobs e = jobs d" by (subst row(5)) simp
  then show thesis using that[OF newest] row(3,4) r(2) n by (simp add: body carries_def)
qed

lemma enqueue_fresh:
  assumes "enqueue c j k payload owner d = Inr (q, e)" "fetch (\<lambda>r. job_key r = k) (jobs d) = None"
  shows "jobs e = jobs d @ [new_job c j k payload owner]"
  using assms by (auto simp: enqueue_def split: if_splits)

text \<open>C24: An accepted reanalysis works on the latest version. It was based on the newest version, a correction
  has published exactly one more, the one job it queued for the caller names the version that is newest
  afterwards as the one to supersede, and every history stays a gapless, grown chain.\<close>

theorem request_targets_latest:
  assumes "request_reanalysis sha dump env config p i body key d = Inr (response, e)" "stored_request p key d = None"
    and "histories_ok d" "fetch (\<lambda>r. job_key r = reanalysis_stage_key sha (re_request env)) (jobs d) = None"
  shows "\<exists>latest newest job. newest_row i (report_versions d) = Some latest \<and> base_version body = rep_version latest
    \<and> newest_row i (report_versions e) = Some newest
    \<and> rep_version newest = rep_version latest + (case body of CorrectionBody n c t \<Rightarrow> 1 | _ \<Rightarrow> 0)
    \<and> jobs e = jobs d @ [job] \<and> job_owner job = Some (pri_id p) \<and> job_state job = QUEUED
    \<and> jget (job_payload job) ''supersedes_version'' = Some (JInt (rep_version newest))
    \<and> histories_ok e \<and> (\<forall>k. prefix (history k (report_versions d)) (history k (report_versions e)))"
proof -
  obtain source latest d1 where l: "latest_version i d = Inr latest" "base_version body = rep_version latest"
    and ch: "charge (re_quota_clocks env) (re_render env) p config 1 0 (Some i) d = Inr d1"
    and acc: "accept_request sha dump env p i body key (reanalysis_hash sha i body) source latest d1 = Inr (response, e)"
    using request_reanalysis_Inr(2)[OF assms(1,2)] by blast
  have latest: "newest_row i (report_versions d) = Some latest"
    using l(1) by (simp add: latest_version_def split: option.splits)
  have d1: "report_versions d1 = report_versions d" "jobs d1 = jobs d" by (subst charge_keeps[OF ch], simp)+
  obtain pubv pending d2 enqueued d3 summary where
      pub: "publish_correction env i body latest d1 = Inr (pubv, pending, d2)"
    and enq: "enqueue (re_clk env) (re_job env) (reanalysis_stage_key sha (re_request env))
       (reanalysis_payload (re_request env) i (pri_id p) (reason_of body)
          (case pubv of None \<Rightarrow> rep_version latest | Some n \<Rightarrow> n) pending source) (Some (pri_id p)) d2 = Inr (enqueued, d3)"
    and ins: "insert_request \<lparr>rea_id = re_request env, rea_owner = pri_id p, rea_investigation = i, rea_key = key,
       rea_hash = reanalysis_hash sha i body, rea_reason = reason_of body, rea_base_version = base_version body,
       rea_published_version = pubv, rea_result_version = None, rea_job = Some (enq_job_id enqueued),
       rea_response = response, rea_created = wall (re_clk env), rea_source = source\<rparr> d3 = Inr e"
    using acc by (rule accept_request_Inr)
  have ok1: "histories_ok d1" using assms(3) by (simp add: histories_ok_def d1(1))
  have latest1: "newest_row i (report_versions d1) = Some latest" using latest by (simp add: d1(1))
  obtain newest where n: "newest_row i (report_versions d2) = Some newest"
      "rep_version newest = rep_version latest + (case body of CorrectionBody n c t \<Rightarrow> 1 | _ \<Rightarrow> 0)"
      "(case pubv of None \<Rightarrow> rep_version latest | Some n \<Rightarrow> n) = rep_version newest" "jobs d2 = jobs d1"
    using pub ok1 latest1 by (rule correction_newest)
  let ?job = "new_job (re_clk env) (re_job env) (reanalysis_stage_key sha (re_request env))
     (reanalysis_payload (re_request env) i (pri_id p) (reason_of body) (rep_version newest) pending source) (Some (pri_id p))"
  have "jobs d3 = jobs d @ [?job]"
    using enqueue_fresh[OF enq] assms(4) n(3,4) d1(2) by simp
  moreover have "jobs e = jobs d3" "report_versions e = report_versions d3" by (simp_all add: insert_request_Inr(1)[OF ins])
  moreover have "report_versions d3 = report_versions d2" by (subst enqueue_keeps[OF enq]) simp
  moreover have "jget (job_payload ?job) ''supersedes_version'' = Some (JInt (rep_version newest))"
    "job_owner ?job = Some (pri_id p)" "job_state ?job = QUEUED"
    by (simp_all add: new_job_def reanalysis_payload_def queued_status_def)
  moreover have run: "(report_step {})\<^sup>*\<^sup>* d e" by (rule accepted_report_steps[OF ch acc])
  moreover have "histories_ok e" by (rule report_history.good_run[OF run assms(3)])
  moreover have "prefix (history k (report_versions d)) (history k (report_versions e))" for k
    by (rule report_history.relation_run[OF run assms(3), where R = "\<lambda>x y. prefix (history k (report_versions x)) (history k (report_versions y))"])
      (use report_step_history(2) in \<open>auto intro: prefix_order.trans\<close>)
  ultimately show ?thesis using latest l(2) n(1,2) by metis
qed

definition ex_claim :: "string \<Rightarrow> string \<Rightarrow> claim" where
  "ex_claim i t = \<lparr>claim_id = i, occurrence_id = i, claim_interval = \<lparr>start_ms = 0, end_ms = 1000, timebase = MediaTime\<rparr>,
     claim_modality = Speech, original_text = ''as spoken'', claim_proposition = t, correction = None,
     claim_interpretation = None, corrects_occurrence_id = None, superseded_by_occurrence_id = None\<rparr>"

theorem correction_changes_one_claim_witness:
  "\<exists>r. corrected_report ((ex_built (next_identity 5 10 1 None))\<lparr>claims := [ex_claim ''a'' ''x'', ex_claim ''b'' ''y'']\<rparr>)
         ''b'' ''z'' (next_identity 6 20 1 None) = Inr r
       \<and> filter (\<lambda>x. claim_id x \<noteq> ''b'') (claims r) = [ex_claim ''a'' ''x''] \<and> report_provisional r"
proof -
  let ?base = "(ex_built (next_identity 5 10 1 None))\<lparr>claims := [ex_claim ''a'' ''x'', ex_claim ''b'' ''y'']\<rparr>"
  obtain r where r: "corrected_report ?base ''b'' ''z'' (next_identity 6 20 1 None) = Inr r"
    by (simp add: corrected_report_def ex_claim_def)
  have d: "distinct (map claim_id (claims ?base))" by (simp add: ex_claim_def)
  have f: "filter (\<lambda>x. claim_id x \<noteq> ''b'') (claims ?base) = [ex_claim ''a'' ''x'']" by (simp add: ex_claim_def)
  from correction_changes_one_claim[OF r d] r show ?thesis unfolding f by blast
qed

definition ex_re_env :: reanalysis_env where
  "ex_re_env = \<lparr>re_quota_clocks = \<lambda>_. ex_at 100, re_render = \<lambda>_. [], re_clk = ex_at 100, re_report = 41,
     re_request = 42, re_job = 43, re_coverage = Inr\<rparr>"

lemma ex_request:
  "\<exists>e. request_reanalysis id (\<lambda>_. JStr ''receipt'') ex_re_env (default_settings ''u'') ex_caller 1 (DeeperBody 1) ''k'' ex_published
     = Inr (JStr ''receipt'', e) \<and> investigations e = investigations ex_published"
proof -
  let ?c = "default_settings ''u''"
  have off: "lock_owner ex_caller ?c d = Inr ()" "charge cs render ex_caller ?c 1 0 (Some 1) d = Inr d" for d cs render
    by (simp_all add: lock_owner_def charge_def default_settings_def default_quotas_def)
  have own: "load_owned inv_owner inv_id 1 ex_caller (investigations ex_published) = Inr (ex_investigation 1 7)"
    by (simp add: load_owned_def owned_rows_def ex_published_def ex_reports_def ex_investigation_def ex_caller_def Let_def)
  obtain latest where latest: "latest_version 1 ex_published = Inr latest" "rep_version latest = 1"
    by (simp add: latest_version_def newest_row_def history_def ex_published_def report_row_of_def next_identity_def Let_def)
  have empty: "jobs ex_published = []" "reanalysis_requests ex_published = []"
    by (simp_all add: ex_published_def ex_reports_def empty_db_def Let_def)
  show ?thesis
    using off own latest
    by (simp add: request_reanalysis_def accept_request_def publish_correction_def request_source_def replay_reanalysis_def
        stored_request_def enqueue_def internal_def job_summary_of_def new_job_def insert_request_def empty Let_def)
qed

theorem reanalysis_answered_once_witness:
  "\<exists>e. reanalyze id (\<lambda>_. JStr ''receipt'') ex_re_env (default_settings ''u'') ex_caller 1 (DeeperBody 1) (Some ''k'') id ex_published
      = Inr (JStr ''receipt'', e)
    \<and> reanalyze id (\<lambda>_. JStr ''receipt'') (ex_re_env\<lparr>re_request := 52\<rparr>) (default_settings ''u'') ex_caller 1 (DeeperBody 1)
        (Some ''k'') id e = Inr (JStr ''receipt'', e)"
proof -
  have key: "idempotency_key (Some ''k'') = Inr ''k''"
    by (simp add: idempotency_key_def py_strip_def strip_by_def is_space_def cval_def)
  obtain e where "request_reanalysis id (\<lambda>_. JStr ''receipt'') ex_re_env (default_settings ''u'') ex_caller 1 (DeeperBody 1) ''k''
      ex_published = Inr (JStr ''receipt'', e)" and inv: "investigations e = investigations ex_published"
    using ex_request by blast
  then have e: "reanalyze id (\<lambda>_. JStr ''receipt'') ex_re_env (default_settings ''u'') ex_caller 1 (DeeperBody 1) (Some ''k'') id
      ex_published = Inr (JStr ''receipt'', e)" by (simp add: reanalyze_def key)
  have lock: "lock_owner ex_caller (default_settings ''u'') e = Inr ()"
    by (simp add: lock_owner_def default_settings_def default_quotas_def)
  have "load_owned inv_owner inv_id 1 ex_caller (investigations e) = Inr (ex_investigation 1 7)"
    by (simp add: inv load_owned_def owned_rows_def ex_published_def ex_reports_def ex_investigation_def ex_caller_def Let_def)
  from reanalysis_answered_once[OF e lock this] e show ?thesis by blast
qed

theorem request_targets_latest_witness:
  "\<exists>e job. request_reanalysis id (\<lambda>_. JStr ''receipt'') ex_re_env (default_settings ''u'') ex_caller 1 (DeeperBody 1) ''k''
      ex_published = Inr (JStr ''receipt'', e)
    \<and> jobs e = jobs ex_published @ [job] \<and> jget (job_payload job) ''supersedes_version'' = Some (JInt 1)"
proof -
  obtain e where e: "request_reanalysis id (\<lambda>_. JStr ''receipt'') ex_re_env (default_settings ''u'') ex_caller 1 (DeeperBody 1) ''k''
      ex_published = Inr (JStr ''receipt'', e)" using ex_request by blast
  have empty: "stored_request ex_caller ''k'' ex_published = None"
    "fetch (\<lambda>r. job_key r = reanalysis_stage_key id (re_request ex_re_env)) (jobs ex_published) = None"
    by (simp_all add: stored_request_def ex_published_def ex_reports_def empty_db_def Let_def)
  have "histories_ok ex_reports" by (simp add: histories_ok_def ex_reports_def empty_db_def history_def)
  then have ok: "histories_ok ex_published"
    using report_history.good_step[OF _ rs_publish[OF ex_publish_report]] by blast
  show ?thesis using request_targets_latest[OF e empty(1) ok empty(2)] e by auto
qed

end
