(* ===== verification/Providers.thy ===== *)
theory Providers
  imports Contract "HOL-Library.Sublist" "HOL-Library.List_Lexorder" "HOL-Library.Char_ord"
begin

text \<open>
  The clients of the evidence providers: \<open>backend/services/providers/http.py\<close>, \<open>router.py\<close>,
  \<open>papers.py\<close> and \<open>crossref.py\<close>. What the network does is a stream of outcomes, one per request sent
  (\<open>net n\<close>); a client threads the number of requests it has sent. A response carries the body as
  \<open>json.loads\<close> reads it, or no value. Holding the shared bucket for a Retry-After is listed among the
  effects. Validating a reply against a pydantic model is a parameter.
\<close>

section \<open>Requests\<close>

record response =
  rsp_status :: int
  rsp_retry_after :: "rat option"
  rsp_empty :: bool
  rsp_json :: "json option"

text \<open>A response, a transport error or oversized body, or a refusal of the shared bucket.\<close>

datatype sent = Response response | Send_Failed | Bucket_Refused "rat option"

type_synonym network = "nat \<Rightarrow> sent"

datatype 'a call = Done 'a | Provider_Error | Provider_Rejected | Throttled "rat option"

definition RATE_LIMIT_ATTEMPTS :: nat where
  "RATE_LIMIT_ATTEMPTS = 3"

text \<open>
  The loop both clients share: a 429 holds the bucket for its Retry-After and is tried again, the last
  one raises. The result is the response, the holds and the number of requests sent.
\<close>

fun send_limited :: "nat \<Rightarrow> network \<Rightarrow> nat \<Rightarrow> response call \<times> rat option list \<times> nat" where
  "send_limited 0 net n = (Provider_Error, [], n)"
| "send_limited (Suc k) net n = (case net n of
       Bucket_Refused w \<Rightarrow> (Throttled w, [], n)
     | Send_Failed \<Rightarrow> (Provider_Error, [], Suc n)
     | Response r \<Rightarrow>
         if rsp_status r \<noteq> 429 then (Done r, [], Suc n)
         else if k = 0 then (Throttled (rsp_retry_after r), [rsp_retry_after r], Suc n)
         else let (res, holds, m) = send_limited k net (Suc n) in (res, rsp_retry_after r # holds, m))"

section \<open>The router\<close>

text \<open>The text after the first occurrence of a pattern, ignoring case.\<close>

fun after_first :: "string \<Rightarrow> string \<Rightarrow> string option" where
  "after_first pat [] = (if pat = [] then Some [] else None)"
| "after_first pat (c # s) =
     (if prefix pat (py_lower (c # s)) then Some (drop (length pat) (c # s)) else after_first pat s)"

definition strip_think :: "string \<Rightarrow> string" where
  "strip_think s = (let t = dropWhile is_space s in
     if prefix ''<think>'' (py_lower t)
     then (case after_first ''</think>'' (drop 7 t) of None \<Rightarrow> s | Some rest \<Rightarrow> rest) else s)"

fun strip_fences :: "string \<Rightarrow> string" where
  "strip_fences [] = []"
| "strip_fences (c # s) =
     (if prefix [CHR 0x60, CHR 0x60, CHR 0x60] (c # s)
      then strip_fences (if prefix ''json'' (py_lower (drop 2 s)) then drop 6 s else drop 2 s)
      else c # strip_fences s)"

definition between_braces :: "string \<Rightarrow> string" where
  "between_braces s = rev (dropWhile (\<lambda>c. c \<noteq> CHR ''}'') (rev (dropWhile (\<lambda>c. c \<noteq> CHR ''{'') s)))"

record hygiene =
  thinking_leaked :: bool
  fenced :: bool

definition clean_reply :: "string \<Rightarrow> string \<times> hygiene" where
  "clean_reply content =
     (let text1 = strip_think content; has_fence = sublist [CHR 0x60, CHR 0x60, CHR 0x60] text1
      in (between_braces (if has_fence then strip_fences text1 else text1),
          \<lparr>thinking_leaked = (text1 \<noteq> content), fenced = has_fence\<rparr>))"

record completion =
  cmp_content :: string
  cmp_decision :: "json option"

text \<open>\<open>payload["choices"][0]["message"]["content"]\<close>\<close>

definition completion_of :: "json \<Rightarrow> completion option" where
  "completion_of payload = (case jget payload ''choices'' of
       Some (JArr (choice # _)) \<Rightarrow>
         (case jget choice ''message'' of
            Some m \<Rightarrow> (case jget m ''content'' of
                Some (JStr s) \<Rightarrow> Some \<lparr>cmp_content = s, cmp_decision = jget payload ''decision_id''\<rparr>
              | _ \<Rightarrow> None)
          | None \<Rightarrow> None)
     | _ \<Rightarrow> None)"

definition complete :: "network \<Rightarrow> nat \<Rightarrow> completion call \<times> rat option list \<times> nat" where
  "complete net n =
     (let (res, holds, m) = send_limited RATE_LIMIT_ATTEMPTS net n
      in (case res of
            Done r \<Rightarrow>
              if rsp_status r \<in> {401, 403} then Provider_Rejected
              else if rsp_status r \<noteq> 200 then Provider_Error
              else (case Option.bind (rsp_json r) completion_of of None \<Rightarrow> Provider_Error | Some c \<Rightarrow> Done c)
          | Provider_Error \<Rightarrow> Provider_Error
          | Provider_Rejected \<Rightarrow> Provider_Rejected
          | Throttled w \<Rightarrow> Throttled w, holds, m))"

text \<open>Best-effort feedback: at most one more request, whose outcome does not matter.\<close>

definition feedback :: "network \<Rightarrow> json option \<Rightarrow> nat \<Rightarrow> nat" where
  "feedback net decision n = (case decision of
       Some (JStr s) \<Rightarrow> if s = [] then n else (case net n of Bucket_Refused w \<Rightarrow> n | _ \<Rightarrow> Suc n)
     | _ \<Rightarrow> n)"

datatype 'm routed = Parsed 'm | Invalid_Reply | Budget_Exhausted | Router_Failed | Router_Rejected | Router_Throttled "rat option"

text \<open>
  One structured reply with one repair. \<open>left\<close> is the claim's remaining call budget. The result also
  gives what is left of it, the holds and the requests sent.
\<close>

fun structured_from ::
    "nat \<Rightarrow> network \<Rightarrow> (string \<Rightarrow> 'm option) \<Rightarrow> ('m \<Rightarrow> bool) \<Rightarrow> nat \<Rightarrow> nat \<Rightarrow> 'm routed \<times> nat \<times> rat option list \<times> nat"
where
  "structured_from 0 net parse ok left n = (Invalid_Reply, left, [], n)"
| "structured_from (Suc k) net parse ok left n =
     (if left = 0 then (Budget_Exhausted, 0, [], n)
      else let (res, holds, m) = complete net n; left1 = left - 1
           in case res of
                Provider_Error \<Rightarrow> (Router_Failed, left1, holds, m)
              | Provider_Rejected \<Rightarrow> (Router_Rejected, left1, holds, m)
              | Throttled w \<Rightarrow> (Router_Throttled w, left1, holds, m)
              | Done c \<Rightarrow>
                  (case Option.bind (parse (fst (clean_reply (cmp_content c)))) (\<lambda>v. if ok v then Some v else None) of
                     Some v \<Rightarrow> (Parsed v, left1, holds, m)
                   | None \<Rightarrow>
                       let (r, rest, holds2, q) =
                         structured_from k net parse ok left1 (feedback net (cmp_decision c) m)
                       in (r, rest, holds @ holds2, q)))"

definition structured ::
    "network \<Rightarrow> (string \<Rightarrow> 'm option) \<Rightarrow> ('m \<Rightarrow> bool) \<Rightarrow> nat \<Rightarrow> nat \<Rightarrow> 'm routed \<times> nat \<times> rat option list \<times> nat"
where
  "structured net parse ok left n = structured_from 2 net parse ok left n"

section \<open>Papers\<close>

record paper =
  ppr_title :: string
  ppr_summary :: string
  ppr_authors :: "string list"
  ppr_published :: "string option"
  ppr_doi :: "string option"
  ppr_arxiv_id :: "string option"
  ppr_url :: "string option"
  ppr_journal_ref :: "string option"
  ppr_comment :: "string option"
  ppr_sources :: "string list"

definition arxiv_doi :: "string \<Rightarrow> string option" where
  "arxiv_doi doi =
     (if prefix ''10.48550/arxiv.'' (py_lower doi) \<and> drop 15 doi \<noteq> [] then Some (drop 15 doi) else None)"

definition is_digit :: "char \<Rightarrow> bool" where
  "is_digit c \<longleftrightarrow> 48 \<le> cval c \<and> cval c \<le> 57"

text \<open>The id without a trailing version such as \<open>v2\<close>.\<close>

definition strip_version :: "string \<Rightarrow> string" where
  "strip_version s = (let r = rev s; rest = dropWhile is_digit r in
     if rest \<noteq> r \<and> rest \<noteq> [] \<and> hd rest = CHR ''v'' then rev (tl rest) else s)"

definition spaced :: "string \<Rightarrow> string" where
  "spaced s = join_with '' '' (py_split s)"

text \<open>An empty string counts as absent.\<close>

definition filled :: "string option \<Rightarrow> string option" where
  "filled s = (if s = Some [] then None else s)"

definition origin :: "paper \<Rightarrow> string" where
  "origin p = (case filled (ppr_doi p) of
       Some d \<Rightarrow>
         (case arxiv_doi d of
            None \<Rightarrow> ''doi:'' @ py_lower d
          | Some i \<Rightarrow> ''arxiv:'' @ py_lower (strip_version (case filled (ppr_arxiv_id p) of Some a \<Rightarrow> a | None \<Rightarrow> i)))
     | None \<Rightarrow>
         (case filled (ppr_arxiv_id p) of
            Some a \<Rightarrow> ''arxiv:'' @ py_lower (strip_version a)
          | None \<Rightarrow> ''title:'' @ spaced (py_lower (ppr_title p))))"

definition text_of :: "json option \<Rightarrow> string option" where
  "text_of v = (case v of Some (JStr s) \<Rightarrow> if py_strip s \<noteq> [] then Some (spaced s) else None | _ \<Rightarrow> None)"

definition strings_of :: "json list \<Rightarrow> string list" where
  "strings_of vs = List.map_filter (\<lambda>v. case v of JStr s \<Rightarrow> Some s | _ \<Rightarrow> None) vs"

text \<open>\<open>f"{year:04d}"\<close>\<close>

definition pad4 :: "int \<Rightarrow> string" where
  "pad4 n = (let s = show_int n; zeros = replicate (4 - length s) CHR ''0'' in
     if n < 0 then CHR ''-'' # zeros @ tl s else zeros @ s)"

text \<open>What follows the last occurrence of \<open>/abs/\<close>.\<close>

fun after_abs :: "string \<Rightarrow> string option" where
  "after_abs [] = None"
| "after_abs (c # s) = (case after_abs s of
       Some r \<Rightarrow> Some r
     | None \<Rightarrow> if prefix ''/abs/'' (c # s) then Some (drop 4 s) else None)"

definition first_of :: "'a option \<Rightarrow> 'a option \<Rightarrow> 'a option" where
  "first_of x y = (case x of None \<Rightarrow> y | Some v \<Rightarrow> Some v)"

definition arxiv_of :: "json \<Rightarrow> string option" where
  "arxiv_of item = first_of (text_of (jget item ''extractedID''))
     (case jget item ''id'' of
        Some (JStr s) \<Rightarrow> if sublist ''arxiv.org/abs/'' s then after_abs s else None
      | _ \<Rightarrow> None)"

definition published_of :: "json \<Rightarrow> string option" where
  "published_of item = first_of (text_of (jget item ''published''))
     (case jget item ''year'' of
        Some (JInt n) \<Rightarrow> Some (pad4 n @ ''-01-01T00:00:00Z'')
      | Some (JBool b) \<Rightarrow> Some (pad4 (if b then 1 else 0) @ ''-01-01T00:00:00Z'')
      | _ \<Rightarrow> None)"

definition parse_paper :: "json \<Rightarrow> string \<Rightarrow> paper option" where
  "parse_paper item fallback = (case item of
       JObj kvs \<Rightarrow> map_option (\<lambda>title.
         \<lparr>ppr_title = title,
          ppr_summary = (case text_of (jget item ''summary'') of None \<Rightarrow> [] | Some s \<Rightarrow> s),
          ppr_authors = (case jget item ''authors'' of Some (JArr vs) \<Rightarrow> strings_of vs | _ \<Rightarrow> []),
          ppr_published = published_of item, ppr_doi = text_of (jget item ''doi''), ppr_arxiv_id = arxiv_of item,
          ppr_url = first_of (text_of (jget item ''url''))
            (first_of (text_of (jget item ''id'')) (text_of (jget item ''pdfLink''))),
          ppr_journal_ref = text_of (jget item ''journalRef''), ppr_comment = text_of (jget item ''comment''),
          ppr_sources = (case jget item ''sources'' of
             Some (JArr vs) \<Rightarrow> strings_of vs
           | _ \<Rightarrow> [case text_of (jget item ''source'') of None \<Rightarrow> fallback | Some s \<Rightarrow> s])\<rparr>)
         (text_of (jget item ''title''))
     | _ \<Rightarrow> None)"

record search_result =
  sch_papers :: "paper list"
  sch_unknown_sources :: "string list"
  sch_federated_unavailable :: bool

definition papers_of :: "json \<Rightarrow> string \<Rightarrow> paper list call" where
  "papers_of payload source = (case jget payload ''data'' of
       Some (JArr items) \<Rightarrow> Done (List.map_filter (\<lambda>i. parse_paper i source) items)
     | _ \<Rightarrow> Provider_Error)"

text \<open>\<open>_post\<close>: the status and the decoded body, \<open>None\<close> for an empty one.\<close>

definition post :: "network \<Rightarrow> nat \<Rightarrow> (int \<times> json option) call \<times> rat option list \<times> nat" where
  "post net n =
     (let (res, holds, m) = send_limited RATE_LIMIT_ATTEMPTS net n
      in (case res of
            Done r \<Rightarrow>
              if rsp_status r = 401 then Provider_Rejected
              else if rsp_status r \<ge> 500 then Provider_Error
              else if rsp_empty r then Done (rsp_status r, None)
              else (case rsp_json r of None \<Rightarrow> Provider_Error | Some j \<Rightarrow> Done (rsp_status r, Some j))
          | Provider_Error \<Rightarrow> Provider_Error
          | Provider_Rejected \<Rightarrow> Provider_Rejected
          | Throttled w \<Rightarrow> Throttled w, holds, m))"

definition is_object :: "json option \<Rightarrow> bool" where
  "is_object v = (case v of Some (JObj kvs) \<Rightarrow> True | _ \<Rightarrow> False)"

text \<open>A federated source that reports zero hits and no more may have failed: unknown, not empty.\<close>

definition silent_sources :: "json \<Rightarrow> string list" where
  "silent_sources payload = (case jget payload ''bySource'' of
       Some (JObj kvs) \<Rightarrow> List.map_filter (\<lambda>(name, stats).
          if jget stats ''count'' \<in> {Some (JInt 0), Some (JFloat 0), Some (JBool False)}
             \<and> jget stats ''hasMore'' = Some (JBool False) then Some name else None) kvs
     | _ \<Rightarrow> [])"

definition search_plain :: "bool \<Rightarrow> network \<Rightarrow> nat \<Rightarrow> search_result call \<times> rat option list \<times> nat" where
  "search_plain unavailable net n =
     (let (res, holds, m) = post net n
      in (case res of
            Done (status, payload) \<Rightarrow>
              if status = 403 then Provider_Rejected
              else if status \<noteq> 200 \<or> \<not> is_object payload then Provider_Error
              else (case papers_of (the payload) ''arxiv'' of
                  Done ps \<Rightarrow> Done \<lparr>sch_papers = ps, sch_unknown_sources = [], sch_federated_unavailable = unavailable\<rparr>
                | _ \<Rightarrow> Provider_Error)
          | Provider_Error \<Rightarrow> Provider_Error
          | Provider_Rejected \<Rightarrow> Provider_Rejected
          | Throttled w \<Rightarrow> Throttled w, holds, m))"

definition search :: "bool \<Rightarrow> network \<Rightarrow> nat \<Rightarrow> search_result call \<times> rat option list \<times> nat" where
  "search federated net n =
     (if \<not> federated then search_plain False net n
      else let (res, holds, m) = post net n
           in case res of
                Done (status, payload) \<Rightarrow>
                  if status = 200 \<and> is_object payload
                  then (case papers_of (the payload) ''federated'' of
                      Done ps \<Rightarrow> (Done \<lparr>sch_papers = ps,
                          sch_unknown_sources = sort (silent_sources (the payload)),
                          sch_federated_unavailable = False\<rparr>, holds, m)
                    | _ \<Rightarrow> (Provider_Error, holds, m))
                  else if status \<noteq> 403 then (Provider_Error, holds, m)
                  else let (r2, holds2, q) = search_plain True net m in (r2, holds @ holds2, q)
              | Provider_Error \<Rightarrow> (Provider_Error, holds, m)
              | Provider_Rejected \<Rightarrow> (Provider_Rejected, holds, m)
              | Throttled w \<Rightarrow> (Throttled w, holds, m))"

section \<open>Crossref\<close>

definition lookupable :: "string option \<Rightarrow> bool" where
  "lookupable doi = (case filled doi of
       None \<Rightarrow> False
     | Some d \<Rightarrow>
         let rest = drop 3 d; digits = takeWhile is_digit rest; tail = dropWhile is_digit rest
         in prefix ''10.'' d \<and> 4 \<le> length digits \<and> length digits \<le> 9 \<and> tail \<noteq> [] \<and> hd tail = CHR ''/''
            \<and> tl tail \<noteq> [] \<and> list_all (\<lambda>c. \<not> is_space c) (tl tail) \<and> \<not> prefix ''10.48550/'' d)"

text \<open>What iterating a JSON value visits; other values raise \<open>TypeError\<close>.\<close>

definition iterated :: "json option \<Rightarrow> json list option" where
  "iterated v = (case v of
       None \<Rightarrow> Some []
     | Some (JArr vs) \<Rightarrow> Some vs
     | Some (JObj kvs) \<Rightarrow> Some (map (JStr \<circ> fst) kvs)
     | Some (JStr s) \<Rightarrow> Some (map (\<lambda>c. JStr [c]) s)
     | _ \<Rightarrow> None)"

definition update_kind :: "string \<Rightarrow> json \<Rightarrow> string option" where
  "update_kind doi u = (case (jget u ''DOI'', jget u ''type'') of
       (Some (JStr d), Some (JStr t)) \<Rightarrow> if py_lower d = py_lower doi then Some (py_lower t) else None
     | _ \<Rightarrow> None)"

fun update_kinds :: "string \<Rightarrow> json list \<Rightarrow> string list option" where
  "update_kinds doi [] = Some []"
| "update_kinds doi (item # items) =
     (case (case item of JObj kvs \<Rightarrow> iterated (jget item ''update-to'') | _ \<Rightarrow> Some []) of
        None \<Rightarrow> None
      | Some us \<Rightarrow> map_option (\<lambda>ks. List.map_filter (update_kind doi) us @ ks) (update_kinds doi items))"

definition retraction_of :: "string list \<Rightarrow> retraction_status" where
  "retraction_of kinds =
     (if list_ex (\<lambda>k. k \<in> {''retraction'', ''partial_retraction''}) kinds then Retracted
      else if list_ex (\<lambda>k. k \<in> {''withdrawal'', ''removal''}) kinds then Withdrawn
      else if list_ex (\<lambda>k. k \<in> {''correction'', ''erratum'', ''corrigendum'', ''addendum''}) kinds then Corrected
      else if kinds = [] then NotRetracted else UnknownRetraction)"

text \<open>\<open>None\<close> is a raised \<open>TypeError\<close>.\<close>

definition crossref_items :: "sent \<Rightarrow> json list option" where
  "crossref_items s = (case s of
       Response r \<Rightarrow>
         if rsp_status r \<noteq> 200 then None
         else (case Option.bind (Option.bind (rsp_json r) (\<lambda>j. jget j ''message'')) (\<lambda>j. jget j ''items'') of
             None \<Rightarrow> None
           | Some (JArr items) \<Rightarrow> Some items
           | Some _ \<Rightarrow> Some [])
     | _ \<Rightarrow> None)"

definition crossref_status :: "network \<Rightarrow> string option \<Rightarrow> nat \<Rightarrow> retraction_status option \<times> nat" where
  "crossref_status net doi n =
     (if \<not> lookupable doi then (Some UnknownRetraction, n)
      else (case crossref_items (net n) of
              None \<Rightarrow> Some UnknownRetraction
            | Some items \<Rightarrow> map_option retraction_of (update_kinds (the doi) items), Suc n))"

section \<open>Bounds\<close>

lemma send_limited_bound:
  assumes "send_limited k net n = (res, holds, m)"
  shows "n \<le> m \<and> m \<le> n + k \<and> length holds \<le> m - n"
  using assms
proof (induction k arbitrary: n res holds m)
  case 0
  then show ?case by simp
next
  case (Suc k)
  show ?case
  proof (cases "net n")
    case (Response r)
    obtain res2 holds2 q where q: "send_limited k net (Suc n) = (res2, holds2, q)" by (metis prod_cases3)
    show ?thesis using Suc.prems Suc.IH[OF q] by (auto simp: Response q split: if_splits)
  qed (use Suc.prems in auto)
qed

lemma complete_bound: "complete net n = (res, holds, m) \<Longrightarrow> n \<le> m \<and> m \<le> n + 3 \<and> length holds \<le> m - n"
  using send_limited_bound[of RATE_LIMIT_ATTEMPTS net n]
  by (auto simp: complete_def RATE_LIMIT_ATTEMPTS_def Let_def split: prod.splits)

lemma feedback_bound: "n \<le> feedback net d n \<and> feedback net d n \<le> Suc n"
  by (auto simp: feedback_def split: option.splits json.splits sent.splits)

lemma structured_from_bound:
  assumes "structured_from k net parse ok left n = (r, rest, holds, m)"
  shows "rest \<le> left \<and> left - rest \<le> k \<and> n \<le> m \<and> m \<le> n + 4 * (left - rest)
    \<and> (case r of Parsed v \<Rightarrow> ok v \<and> (\<exists>s. parse s = Some v) | _ \<Rightarrow> True)"
  using assms
proof (induction k arbitrary: left n r rest holds m)
  case 0
  then show ?case by auto
next
  case (Suc k)
  show ?case
  proof (cases "left = 0")
    case True
    then show ?thesis using Suc.prems by auto
  next
    case False
    obtain res holds1 m1 where c: "complete net n = (res, holds1, m1)" by (metis prod_cases3)
    note b = complete_bound[OF c]
    show ?thesis
    proof (cases res)
      case (Done d)
      let ?v = "Option.bind (parse (fst (clean_reply (cmp_content d)))) (\<lambda>v. if ok v then Some v else None)"
      show ?thesis
      proof (cases ?v)
        case None
        let ?f = "feedback net (cmp_decision d) m1"
        obtain r2 rest2 holds2 q where s: "structured_from k net parse ok (left - 1) ?f = (r2, rest2, holds2, q)"
          by (metis prod_cases4)
        note ih = Suc.IH[OF s]
        have e: "r = r2" "rest = rest2" "m = q" using Suc.prems False c Done None s by (simp_all add: Let_def)
        show ?thesis using ih b feedback_bound[of m1 net "cmp_decision d"] False by (auto simp: e)
      next
        case (Some v)
        then have "ok v" "parse (fst (clean_reply (cmp_content d))) = Some v"
          by (auto simp: bind_eq_Some_conv split: if_splits)
        then show ?thesis using Suc.prems False c Done Some b by auto
      qed
    qed (use Suc.prems False c b in auto)
  qed
qed

text \<open>A structured router call stays within the claim's budget. It uses at most two of the remaining
  calls and never more than are left, sends at most four requests per call used, and a reply it returns
  is one the model parsed and the check accepted.\<close>

theorem router_within_budget:
  assumes "structured net parse ok left n = (r, rest, holds, m)"
  shows "rest \<le> left \<and> left - rest \<le> 2 \<and> m \<le> n + 4 * (left - rest)
    \<and> (\<forall>v. r = Parsed v \<longrightarrow> ok v \<and> (\<exists>s. parse s = Some v))"
  using structured_from_bound[OF assms[unfolded structured_def]] by auto

text \<open>A call whose first request is limited and whose first reply needs its repair.\<close>

definition ex_reply :: "string \<Rightarrow> string \<Rightarrow> sent" where
  "ex_reply text' decision = Response \<lparr>rsp_status = 200, rsp_retry_after = None, rsp_empty = False,
     rsp_json = Some (JObj [(''choices'', JArr [JObj [(''message'', JObj [(''content'', JStr text')])]]),
       (''decision_id'', JStr decision)])\<rparr>"

definition ex_net :: network where
  "ex_net n =
     (if n = 0 then Response \<lparr>rsp_status = 429, rsp_retry_after = Some 2, rsp_empty = True, rsp_json = None\<rparr>
      else if n = 1 then ex_reply ''Sorry'' ''d1''
      else if n = 2 then Send_Failed
      else ex_reply ''<think>why</think> Here: {1}.'' ''d2'')"

definition ex_parse :: "string \<Rightarrow> nat option" where
  "ex_parse s = (if s = ''{1}'' then Some 1 else None)"

lemma ex_structured: "structured ex_net ex_parse (\<lambda>v. v = 1) 5 0 = (Parsed 1, 3, [Some 2], 4)"
  by code_simp

theorem router_within_budget_witness:
  "(3::nat) \<le> 5 \<and> (5::nat) - 3 \<le> 2 \<and> (4::nat) \<le> 0 + 4 * (5 - 3) \<and> (\<exists>s. ex_parse s = Some 1)"
  using router_within_budget[OF ex_structured] by auto

end
