(* ===== verification/Retrieval.thy ===== *)
theory Retrieval
  imports Providers
begin

text \<open>
  Retrieval for one claim, \<open>backend/services/evidence/retrieval.py\<close>, with the ranking of
  \<open>evidence/bm25.py\<close>: queries, search, dedupe, ranking and passages. SHA-256 (\<open>rt_sha\<close>),
  \<open>math.log\<close> (\<open>rt_log\<close>), the validation of a query plan, reading an ISO timestamp and the full-text
  client are parameters; scores are exact rationals. The heartbeats between the calls are left out. The
  lemmas bound what a claim may spend and show that its passages are distinct works.
\<close>

section \<open>Ranking\<close>

fun runs_aux :: "(char \<Rightarrow> bool) \<Rightarrow> string \<Rightarrow> string \<Rightarrow> string list" where
  "runs_aux p acc [] = (if acc = [] then [] else [rev acc])"
| "runs_aux p acc (c # s) =
     (if p c then runs_aux p (c # acc) s else if acc = [] then runs_aux p [] s else rev acc # runs_aux p [] s)"

definition STOPWORDS :: "string list" where
  "STOPWORDS = py_split (''a an and are as at be by for from has have in is it its of on or that the this to ''
     @ ''was were will with which who what when where how than then there these those not no ''
     @ ''but if into about over more most less per'')"

definition token_char :: "char \<Rightarrow> bool" where
  "token_char c \<longleftrightarrow> is_digit c \<or> (97 \<le> cval c \<and> cval c \<le> 122)"

definition tokens :: "string \<Rightarrow> string list" where
  "tokens s = filter (\<lambda>t. t \<notin> set STOPWORDS) (runs_aux token_char [] (py_lower s))"

definition average_length :: "string list list \<Rightarrow> rat" where
  "average_length bags = (let a = of_nat (sum_list (map length bags)) / of_nat (length bags) in if a = 0 then 1 else a)"

definition inverse_frequency :: "(rat \<Rightarrow> rat) \<Rightarrow> string list list \<Rightarrow> string \<Rightarrow> rat" where
  "inverse_frequency logf bags t = (let df = of_nat (length (filter (\<lambda>b. t \<in> set b) bags)) in
     logf ((of_nat (length bags) - df + 1/2) / (df + 1/2) + 1))"

definition term_score :: "(rat \<Rightarrow> rat) \<Rightarrow> string list list \<Rightarrow> string list \<Rightarrow> string \<Rightarrow> rat" where
  "term_score logf bags bag t = (let f = of_nat (count_list bag t) in
     if f = 0 then 0
     else inverse_frequency logf bags t * f * (3/2 + 1)
       / (f + 3/2 * (1 - 3/4 + 3/4 * of_nat (length bag) / average_length bags)))"

definition scores :: "(rat \<Rightarrow> rat) \<Rightarrow> string \<Rightarrow> string list \<Rightarrow> rat list" where
  "scores logf query documents =
     (let terms = remdups (tokens query); bags = map tokens documents
      in if documents = [] \<or> terms = [] then replicate (length documents) 0
         else map (\<lambda>bag. sum_list (map (term_score logf bags bag) terms)) bags)"

text \<open>The sort is stable, so ties keep the input order.\<close>

definition rank :: "(rat \<Rightarrow> rat) \<Rightarrow> string \<Rightarrow> string list \<Rightarrow> (nat \<times> rat) list" where
  "rank logf query documents = sort_key (\<lambda>x. - snd x) (List.enumerate 0 (scores logf query documents))"

section \<open>Queries\<close>

record search_budget =
  max_queries :: nat
  results_per_query :: nat
  max_candidates :: nat
  max_passages :: nat
  max_full_text :: nat
  max_llm_calls :: nat

definition deeper :: "search_budget \<Rightarrow> search_budget" where
  "deeper b = \<lparr>max_queries = min (max_queries b * 2) 6, results_per_query = min (results_per_query b * 2) 50,
     max_candidates = min (max_candidates b * 2) 100, max_passages = min (max_passages b * 2) 10,
     max_full_text = min (max_full_text b * 2) 5, max_llm_calls = min (max_llm_calls b + 2) 10\<rparr>"

datatype query_kind = Neutral | Disconfirming

record query_item =
  qry_kind :: query_kind
  qry_text :: string

text \<open>What ends the retrieval of a claim by an exception.\<close>

datatype retrieval_stop = Keys_Rejected | Rate_Limited "rat option" | Invalid_Model | Type_Error | Key_Error

definition EXCERPT_LIMIT :: nat where
  "EXCERPT_LIMIT = 1000"

definition MAX_QUERY_WORDS :: nat where
  "MAX_QUERY_WORDS = 16"

text \<open>The constraints of \<open>QueryItem\<close>.\<close>

definition query_item_of :: "query_kind \<Rightarrow> string \<Rightarrow> retrieval_stop + query_item" where
  "query_item_of k s = (if 3 \<le> length s \<and> length s \<le> 300 then Inr \<lparr>qry_kind = k, qry_text = s\<rparr> else Inl Invalid_Model)"

definition fallback_query :: "string \<Rightarrow> string" where
  "fallback_query proposition = join_with '' '' (take MAX_QUERY_WORDS (py_split proposition))"

fun unique_queries :: "string list \<Rightarrow> query_item list \<Rightarrow> retrieval_stop + query_item list" where
  "unique_queries seen [] = Inr []"
| "unique_queries seen (q # qs) =
     (let s = fallback_query (qry_text q)
      in if py_lower s \<in> set seen then unique_queries seen qs
         else rbind (query_item_of (qry_kind q) s) (\<lambda>item.
                rbind (unique_queries (py_lower s # seen) qs) (\<lambda>rest. Inr (item # rest))))"

text \<open>At least one disconfirming query stays inside the cap when the router wrote one.\<close>

definition ordered_queries :: "query_item list \<Rightarrow> query_item list" where
  "ordered_queries qs =
     (let neutral = filter (\<lambda>q. qry_kind q = Neutral) qs; disconfirming = filter (\<lambda>q. qry_kind q = Disconfirming) qs
      in take 1 neutral @ take 1 disconfirming @ drop 1 neutral @ drop 1 disconfirming)"

definition plan_check :: "query_item list \<Rightarrow> bool" where
  "plan_check qs = list_ex (\<lambda>q. qry_kind q = Neutral) qs"

text \<open>The queries, whether the router wrote them, what is left of the call budget and the requests sent.\<close>

definition plan_queries ::
    "network \<Rightarrow> (string \<Rightarrow> query_item list option) \<Rightarrow> string \<Rightarrow> search_budget \<Rightarrow> nat \<Rightarrow> nat
      \<Rightarrow> (retrieval_stop + query_item list \<times> bool) \<times> nat \<times> nat"
where
  "plan_queries net parse proposition b left n =
     (let (r, left1, holds, m) = structured net parse plan_check left n;
          fallback = rbind (query_item_of Neutral (fallback_query proposition)) (\<lambda>q. Inr ([q], False))
      in (case r of
            Parsed items \<Rightarrow> rbind (unique_queries [] items) (\<lambda>qs. Inr (take (max_queries b) (ordered_queries qs), True))
          | Router_Rejected \<Rightarrow> Inl Keys_Rejected
          | Router_Throttled w \<Rightarrow> Inl (Rate_Limited w)
          | _ \<Rightarrow> fallback, left1, m))"

section \<open>Works\<close>

text \<open>The version after a trailing \<open>v\<close> of the arXiv id.\<close>

definition version_of :: "paper \<Rightarrow> nat" where
  "version_of p = (case ppr_arxiv_id p of
       None \<Rightarrow> 0
     | Some s \<Rightarrow>
         let r = rev s; digits = takeWhile is_digit r; rest = dropWhile is_digit r
         in if digits \<noteq> [] \<and> rest \<noteq> [] \<and> hd rest = CHR ''v''
            then (case py_int 10 (rev digits) of None \<Rightarrow> 0 | Some k \<Rightarrow> nat k) else 0)"

record hit =
  hit_origin :: string
  hit_paper :: paper
  hit_kinds :: "query_kind list"

definition better :: "paper \<Rightarrow> paper \<Rightarrow> bool" where
  "better new old \<longleftrightarrow> version_of new > version_of old \<or> (ppr_summary old = [] \<and> ppr_summary new \<noteq> [])"

definition add_kind :: "query_kind \<Rightarrow> query_kind list \<Rightarrow> query_kind list" where
  "add_kind k ks = (if k \<in> set ks then ks else ks @ [k])"

text \<open>A known work: the better hit is kept, the query kind is added.\<close>

definition refresh :: "query_kind \<Rightarrow> paper \<Rightarrow> hit \<Rightarrow> hit" where
  "refresh k p h = (if hit_origin h = origin p
     then h\<lparr>hit_paper := (if better p (hit_paper h) then p else hit_paper h), hit_kinds := add_kind k (hit_kinds h)\<rparr>
     else h)"

definition add_hit :: "query_kind \<times> paper \<Rightarrow> hit list \<Rightarrow> hit list" where
  "add_hit x hits = (case x of (k, p) \<Rightarrow>
     if \<not> list_ex (\<lambda>h. hit_origin h = origin p) hits
     then hits @ [\<lparr>hit_origin = origin p, hit_paper = p, hit_kinds = [k]\<rparr>]
     else map (refresh k p) hits)"

definition dedupe :: "(query_kind \<times> paper) list \<Rightarrow> (paper \<times> query_kind list) list" where
  "dedupe found = map (\<lambda>h. (hit_paper h, hit_kinds h)) (fold add_hit found [])"

definition work_url :: "paper \<Rightarrow> string option" where
  "work_url p = (case filled (ppr_doi p) of
       Some d \<Rightarrow>
         (case (lookupable (Some d), filled (ppr_arxiv_id p)) of
            (False, Some a) \<Rightarrow> Some (''https://arxiv.org/abs/'' @ a)
          | _ \<Rightarrow> Some (''https://doi.org/'' @ d))
     | None \<Rightarrow>
         (case (filled (ppr_arxiv_id p), filled (ppr_url p)) of
            (Some a, _) \<Rightarrow> Some (''https://arxiv.org/abs/'' @ a)
          | (None, Some u) \<Rightarrow>
              if (prefix ''https://'' u \<or> prefix ''http://'' u) \<and> length u \<le> 2048 then Some u else None
          | _ \<Rightarrow> None))"

definition work_type :: "paper \<Rightarrow> source_type" where
  "work_type p =
     (if filled (ppr_journal_ref p) \<noteq> None then PeerReviewed
      else if filled (ppr_arxiv_id p) \<noteq> None \<and> \<not> lookupable (ppr_doi p) then Preprint
      else OtherSource)"

definition work_publisher :: "paper \<Rightarrow> string" where
  "work_publisher p = (case filled (ppr_journal_ref p) of
       Some j \<Rightarrow> take 200 j
     | None \<Rightarrow>
         if filled (ppr_arxiv_id p) \<noteq> None then ''arXiv''
         else (case take 200 (case ppr_sources p of [] \<Rightarrow> ''Unknown publisher'' | s # _ \<Rightarrow> s) of
             [] \<Rightarrow> ''Unknown'' | s \<Rightarrow> s))"

definition relevance_of :: "rat \<Rightarrow> rat \<Rightarrow> relevance" where
  "relevance_of score best = (let ratio = (if best > 0 then score / best else 0) in
     if ratio \<ge> 66/100 then HighRel else if ratio \<ge> 33/100 then MediumRel else LowRel)"

text \<open>\<open>text if len(text) <= limit else text[: limit - 3].rstrip() + "..."\<close>\<close>

definition shortened :: "nat \<Rightarrow> string \<Rightarrow> string" where
  "shortened limit s = (if length s \<le> limit then s else rstrip_by is_space (take (limit - 3) s) @ ''...'')"

definition excerpt_of :: "string \<Rightarrow> string" where
  "excerpt_of s = shortened EXCERPT_LIMIT (spaced s)"

definition is_word :: "char \<Rightarrow> bool" where
  "is_word c = (let n = cval c in (48 \<le> n \<and> n \<le> 57) \<or> (65 \<le> n \<and> n \<le> 90) \<or> (97 \<le> n \<and> n \<le> 122) \<or> n = 95
     \<or> n \<in> {170, 178, 179, 181, 185, 186, 188, 189, 190} \<or> (192 \<le> n \<and> n \<noteq> 215 \<and> n \<noteq> 247))"

text \<open>A word between word boundaries, ignoring case; the flag says whether a word character precedes.\<close>

fun has_word :: "string \<Rightarrow> bool \<Rightarrow> string \<Rightarrow> bool" where
  "has_word w inside [] = False"
| "has_word w inside (c # s) =
     ((\<not> inside \<and> prefix w (py_lower (c # s))
         \<and> (drop (length w) (c # s) = [] \<or> \<not> is_word (hd (drop (length w) (c # s))))) \<or> has_word w (is_word c) s)"

definition retraction_status_of :: "network \<Rightarrow> paper \<Rightarrow> nat \<Rightarrow> (retrieval_stop + retraction_status) \<times> nat" where
  "retraction_status_of net p n =
     (if (case filled (ppr_comment p) of None \<Rightarrow> False | Some c \<Rightarrow> has_word ''withdrawn'' False c) then (Inr Withdrawn, n)
      else if lookupable (ppr_doi p)
      then (case crossref_status net (ppr_doi p) n of
          (None, m) \<Rightarrow> (Inl Type_Error, m) | (Some s, m) \<Rightarrow> (Inr s, m))
      else (Inr UnknownRetraction, n))"

section \<open>Passages\<close>

record passage =
  pas_passage :: string
  pas_evidence :: string
  pas_origin :: string
  pas_source :: evidence_source
  pas_type :: source_type
  pas_level :: inspection_level
  pas_relevance :: relevance
  pas_retraction :: retraction_status
  pas_excerpt :: "string option"
  pas_retrieved_at :: time
  pas_found_by :: "query_kind list"

record claim_retrieval =
  clr_claim :: string
  clr_retrieved :: bool
  clr_reason :: "string option"
  clr_query_source :: string
  clr_llm_calls :: nat
  clr_queries :: nat
  clr_failed :: nat
  clr_unknown :: "string list"
  clr_federated_unavailable :: bool
  clr_passages :: "passage list"

record retriever =
  rt_net :: network
  rt_parse :: "string \<Rightarrow> query_item list option"
  rt_full_text :: "paper \<Rightarrow> nat \<Rightarrow> string list option \<times> nat"
  rt_federated :: bool
  rt_sha :: "string \<Rightarrow> string"
  rt_log :: "rat \<Rightarrow> rat"
  rt_iso :: "string \<Rightarrow> time option"
  rt_now :: time

definition unit_separator :: string where
  "unit_separator = [char_of (31 :: nat)]"

definition short_hash :: "(string \<Rightarrow> string) \<Rightarrow> string list \<Rightarrow> string" where
  "short_hash sha parts = take 24 (sha (join_with unit_separator parts))"

definition evidence_id_of :: "(string \<Rightarrow> string) \<Rightarrow> string \<Rightarrow> string \<Rightarrow> string" where
  "evidence_id_of sha c o' = ''evd_'' @ short_hash sha [c, o']"

definition source_id_of :: "(string \<Rightarrow> string) \<Rightarrow> string \<Rightarrow> string" where
  "source_id_of sha o' = ''src_'' @ short_hash sha [o']"

text \<open>The searches of one claim: what was found, and the requests sent.\<close>

record searched =
  sea_found :: "(query_kind \<times> paper) list"
  sea_failed :: nat
  sea_unknown :: "string list"
  sea_unavailable :: bool

definition merge_search :: "query_kind \<Rightarrow> search_result \<Rightarrow> searched \<Rightarrow> searched" where
  "merge_search k r s = s\<lparr>sea_found := sea_found s @ map (Pair k) (sch_papers r),
     sea_unknown := sort (remdups (sea_unknown s @ sch_unknown_sources r)),
     sea_unavailable := (sea_unavailable s \<or> sch_federated_unavailable r)\<rparr>"

fun run_queries :: "retriever \<Rightarrow> query_item list \<Rightarrow> searched \<Rightarrow> nat \<Rightarrow> (retrieval_stop + searched) \<times> nat" where
  "run_queries rt [] s n = (Inr s, n)"
| "run_queries rt (q # qs) s n =
     (let (res, holds, m) = search (rt_federated rt) (rt_net rt) n
      in case res of
           Done r \<Rightarrow> run_queries rt qs (merge_search (qry_kind q) r s) m
         | Provider_Error \<Rightarrow> run_queries rt qs (s\<lparr>sea_failed := sea_failed s + 1\<rparr>) m
         | Provider_Rejected \<Rightarrow> (Inl Keys_Rejected, m)
         | Throttled w \<Rightarrow> (Inl (Rate_Limited w), m))"

text \<open>The level and excerpt of one paper, with at most one full-text fetch.\<close>

definition abstract_reading :: "paper \<Rightarrow> inspection_level \<times> string option" where
  "abstract_reading p = (if ppr_summary p \<noteq> [] then (AbstractOnly, Some (excerpt_of (ppr_summary p))) else (MetadataOnly, None))"

definition reading :: "retriever \<Rightarrow> string \<Rightarrow> paper \<Rightarrow> nat \<Rightarrow> nat \<Rightarrow> (inspection_level \<times> string option) \<times> nat" where
  "reading rt proposition p left n =
     (if left = 0 then (abstract_reading p, n)
      else (case rt_full_text rt p n of
          (None, m) \<Rightarrow> (abstract_reading p, m)
        | (Some paragraphs, m) \<Rightarrow>
            (case rank (rt_log rt) proposition paragraphs of
               (i, score) # _ \<Rightarrow>
                 if score > 0 then ((FullText, Some (excerpt_of (paragraphs ! i))), m) else (abstract_reading p, m)
             | [] \<Rightarrow> (abstract_reading p, m))))"

definition passage_of ::
    "retriever \<Rightarrow> string \<Rightarrow> nat \<Rightarrow> paper \<Rightarrow> query_kind list \<Rightarrow> inspection_level \<times> string option \<Rightarrow> relevance
      \<Rightarrow> retraction_status \<Rightarrow> passage"
where
  "passage_of rt c number p kinds seen rel status =
     \<lparr>pas_passage = CHR ''p'' # show_nat number, pas_evidence = evidence_id_of (rt_sha rt) c (origin p),
      pas_origin = origin p,
      pas_source = \<lparr>source_id = source_id_of (rt_sha rt) (origin p), source_title = take 500 (ppr_title p),
        source_publisher = work_publisher p, source_url = work_url p,
        source_published_at = Option.bind (filled (ppr_published p)) (rt_iso rt)\<rparr>,
      pas_type = work_type p, pas_level = fst seen, pas_relevance = rel, pas_retraction = status,
      pas_excerpt = snd seen, pas_retrieved_at = rt_now rt, pas_found_by = kinds\<rparr>"

text \<open>The chosen candidates in order; \<open>left\<close> is what remains of the full-text budget.\<close>

fun read_passages ::
    "retriever \<Rightarrow> string \<Rightarrow> string \<Rightarrow> rat \<Rightarrow> nat \<Rightarrow> nat \<Rightarrow> ((paper \<times> query_kind list) \<times> rat) list \<Rightarrow> nat
      \<Rightarrow> (retrieval_stop + passage list) \<times> nat"
where
  "read_passages rt c proposition best number left [] n = (Inr [], n)"
| "read_passages rt c proposition best number left (((p, kinds), score) # rest) n =
     (let (seen, m) = reading rt proposition p left n; (status, q) = retraction_status_of (rt_net rt) p m
      in case status of
           Inl e \<Rightarrow> (Inl e, q)
         | Inr st \<Rightarrow>
             let (ps, u) = read_passages rt c proposition best (number + 1) (left - 1) rest q
             in (rbind ps (\<lambda>ps. Inr (passage_of rt c number p kinds seen (relevance_of score best) st # ps)), u))"

definition candidate_text :: "paper \<times> query_kind list \<Rightarrow> string" where
  "candidate_text x = ppr_title (fst x) @ '' '' @ ppr_summary (fst x)"

definition pick_hits ::
    "(rat \<Rightarrow> rat) \<Rightarrow> string \<Rightarrow> search_budget \<Rightarrow> (query_kind \<times> paper) list \<Rightarrow> ((paper \<times> query_kind list) \<times> rat) list"
where
  "pick_hits logf proposition b found =
     (let candidates = take (max_candidates b) (dedupe found)
      in map (\<lambda>(i, score). (candidates ! i, score))
           (take (max_passages b) (filter (\<lambda>x. snd x > 0) (rank logf proposition (map candidate_text candidates)))))"

definition retrieved ::
    "retriever \<Rightarrow> string \<Rightarrow> string \<Rightarrow> search_budget \<Rightarrow> bool \<Rightarrow> nat \<Rightarrow> nat \<Rightarrow> searched \<Rightarrow> nat
      \<Rightarrow> (retrieval_stop + claim_retrieval) \<times> nat"
where
  "retrieved rt c proposition b by_router calls queries s n =
     (let base = \<lparr>clr_claim = c, clr_retrieved = True, clr_reason = None,
            clr_query_source = (if by_router then ''router'' else ''fallback''), clr_llm_calls = calls,
            clr_queries = queries, clr_failed = sea_failed s, clr_unknown = sea_unknown s,
            clr_federated_unavailable = sea_unavailable s, clr_passages = []\<rparr>
      in if queries \<noteq> 0 \<and> sea_failed s = queries
         then (Inr (base\<lparr>clr_retrieved := False, clr_reason := Some ''retrieval_unavailable'', clr_unknown := [],
                 clr_federated_unavailable := False\<rparr>), n)
         else let chosen = pick_hits (rt_log rt) proposition b (sea_found s);
                  best = (case chosen of [] \<Rightarrow> 0 | (x, score) # _ \<Rightarrow> score);
                  (ps, m) = read_passages rt c proposition best 1 (max_full_text b) chosen n
              in (rbind ps (\<lambda>ps. Inr (base\<lparr>clr_passages := ps\<rparr>)), m))"

definition retrieve :: "retriever \<Rightarrow> string \<Rightarrow> string \<Rightarrow> search_budget \<Rightarrow> nat \<Rightarrow> (retrieval_stop + claim_retrieval) \<times> nat" where
  "retrieve rt c proposition b n =
     (let (plan, left, m) = plan_queries (rt_net rt) (rt_parse rt) proposition b (max_llm_calls b) n
      in case plan of
           Inl e \<Rightarrow> (Inl e, m)
         | Inr (queries, by_router) \<Rightarrow>
             let (s, q) = run_queries rt queries \<lparr>sea_found = [], sea_failed = 0, sea_unknown = [], sea_unavailable = False\<rparr> m
             in case s of
                  Inl e \<Rightarrow> (Inl e, q)
                | Inr s \<Rightarrow> retrieved rt c proposition b by_router (max_llm_calls b - left) (length queries) s q)"

section \<open>Passages are distinct works within the budget\<close>

definition hits_ok :: "hit list \<Rightarrow> bool" where
  "hits_ok hs \<longleftrightarrow> distinct (map hit_origin hs) \<and> (\<forall>h \<in> set hs. origin (hit_paper h) = hit_origin h)"

lemma refresh_origin [simp]: "hit_origin (refresh k p h) = hit_origin h"
  by (simp add: refresh_def)

lemma refresh_paper: "origin (hit_paper h) = hit_origin h \<Longrightarrow> origin (hit_paper (refresh k p h)) = hit_origin h"
  by (simp add: refresh_def)

lemma add_hit_ok:
  assumes "hits_ok hs"
  shows "hits_ok (add_hit x hs)"
proof (cases x)
  case (Pair k p)
  show ?thesis
  proof (cases "list_ex (\<lambda>h. hit_origin h = origin p) hs")
    case False
    then show ?thesis using assms by (auto simp: hits_ok_def add_hit_def Pair list_ex_iff)
  next
    case True
    then show ?thesis using assms by (simp add: hits_ok_def add_hit_def Pair comp_def refresh_paper)
  qed
qed

lemma fold_add_hit_ok: "hits_ok hs \<Longrightarrow> hits_ok (fold add_hit xs hs)"
  by (induction xs arbitrary: hs) (simp_all add: add_hit_ok)

lemma dedupe_distinct: "distinct (map (origin \<circ> fst) (dedupe found))"
proof -
  have "hits_ok (fold add_hit found [])" by (rule fold_add_hit_ok) (simp add: hits_ok_def)
  then have "map (origin \<circ> fst) (dedupe found) = map hit_origin (fold add_hit found [])"
      "distinct (map hit_origin (fold add_hit found []))"
    by (auto simp: dedupe_def hits_ok_def)
  then show ?thesis by simp
qed

lemma length_scores [simp]: "length (scores logf q docs) = length docs"
  by (simp add: scores_def Let_def)

lemma rank_indices:
  "distinct (map fst (rank logf q docs))" "(i, s) \<in> set (rank logf q docs) \<Longrightarrow> i < length docs"
proof -
  have "distinct (map fst (List.enumerate 0 (scores logf q docs)))" by simp
  then show "distinct (map fst (rank logf q docs))" unfolding rank_def distinct_map set_sort distinct_sort .
  show "(i, s) \<in> set (rank logf q docs) \<Longrightarrow> i < length docs"
    by (auto simp: rank_def in_set_enumerate_eq)
qed

lemma distinct_map_take: "distinct (map f xs) \<Longrightarrow> distinct (map f (take k xs))"
  by (metis distinct_take take_map)

lemma distinct_nth_map:
  "distinct xs \<Longrightarrow> distinct is \<Longrightarrow> (\<And>i. i \<in> set is \<Longrightarrow> i < length xs) \<Longrightarrow> distinct (map (\<lambda>i. xs ! i) is)"
  by (auto simp: distinct_map inj_on_def nth_eq_iff_index_eq)

lemma pick_hits_distinct: "distinct (map (\<lambda>x. origin (fst (fst x))) (pick_hits logf q b found))"
proof -
  let ?c = "take (max_candidates b) (dedupe found)"
  let ?r = "rank logf q (map candidate_text ?c)"
  let ?t = "take (max_passages b) (filter (\<lambda>x. snd x > 0) ?r)"
  have c: "distinct (map (origin \<circ> fst) ?c)" by (rule distinct_map_take[OF dedupe_distinct])
  have "distinct (map fst ?t)" by (rule distinct_map_take) (simp add: distinct_map_filter rank_indices)
  moreover have "i < length ?c" if "i \<in> set (map fst ?t)" for i
    using that rank_indices(2)[of _ _ logf q "map candidate_text ?c"]
    by (auto dest!: in_set_takeD simp del: length_take)
  ultimately have "distinct (map (\<lambda>i. map (origin \<circ> fst) ?c ! i) (map fst ?t))"
    using c by (intro distinct_nth_map) simp_all
  moreover have "map (\<lambda>i. map (origin \<circ> fst) ?c ! i) (map fst ?t) = map (\<lambda>x. origin (fst (fst x))) (pick_hits logf q b found)"
    using \<open>\<And>i. i \<in> set (map fst ?t) \<Longrightarrow> i < length ?c\<close>
    by (auto simp: pick_hits_def Let_def split_beta simp del: length_take)
  ultimately show ?thesis by simp
qed

lemma length_pick_hits: "length (pick_hits logf q b found) \<le> max_passages b"
  by (simp add: pick_hits_def Let_def)

lemma read_passages_Inr:
  assumes "read_passages rt c q best k left xs n = (Inr ps, m)"
  shows "map pas_origin ps = map (\<lambda>x. origin (fst (fst x))) xs
    \<and> map pas_passage ps = map (\<lambda>i. CHR ''p'' # show_nat i) [k..<k + length xs]
    \<and> map pas_evidence ps = map (\<lambda>x. evidence_id_of (rt_sha rt) c (origin (fst (fst x)))) xs
    \<and> length (filter (\<lambda>p. pas_level p = FullText) ps) \<le> left"
  using assms
proof (induction xs arbitrary: k left n ps m)
  case Nil
  then show ?case by simp
next
  case (Cons x xs)
  obtain p kinds score where x: "x = ((p, kinds), score)" by (metis prod_cases3 prod.collapse)
  obtain seen m1 where seen: "reading rt q p left n = (seen, m1)" by fastforce
  obtain status m2 where st: "retraction_status_of (rt_net rt) p m1 = (status, m2)" by fastforce
  obtain rs m3 where rs: "read_passages rt c q best (Suc k) (left - Suc 0) xs m2 = (rs, m3)" by fastforce
  from Cons.prems obtain stt tl where s: "status = Inr stt" "rs = Inr tl"
      "ps = passage_of rt c k p kinds seen (relevance_of score best) stt # tl"
    by (cases status; cases rs) (auto simp: x seen st rs rbind_Inr_iff)
  have lv: "fst seen = FullText \<Longrightarrow> left \<noteq> 0"
    using seen by (auto simp: reading_def abstract_reading_def split: if_splits)
  have "[k..<k + length (x # xs)] = k # [Suc k..<Suc k + length xs]"
    by (subst upt_conv_Cons) simp_all
  with Cons.IH[OF rs[unfolded s(2)]] lv show ?case by (auto simp: s(3) x passage_of_def)
qed

lemma plan_queries_bound:
  assumes "plan_queries net parse q b left n = (r, rest, m)"
  shows "rest \<le> left \<and> left - rest \<le> 2 \<and> n \<le> m \<and> m \<le> n + 8
    \<and> (\<forall>qs by. r = Inr (qs, by) \<longrightarrow> length qs \<le> max 1 (max_queries b))"
proof -
  obtain res left1 holds m1 where st: "structured net parse plan_check left n = (res, left1, holds, m1)"
    by (metis prod_cases4)
  note b = structured_from_bound[OF st[unfolded structured_def]]
  have "left1 = rest" "m1 = m" using assms st by (simp_all add: plan_queries_def Let_def)
  with assms st b show ?thesis by (auto simp: plan_queries_def Let_def rbind_Inr_iff split: routed.splits)
qed

lemma post_bound: "post net n = (r, h, m) \<Longrightarrow> n \<le> m \<and> m \<le> n + 3"
  using send_limited_bound[of RATE_LIMIT_ATTEMPTS net n]
  by (auto simp: post_def RATE_LIMIT_ATTEMPTS_def Let_def split: prod.splits)

lemma search_plain_bound: "search_plain u net n = (r, h, m) \<Longrightarrow> n \<le> m \<and> m \<le> n + 3"
  using post_bound[of net n] by (auto simp: search_plain_def Let_def split: prod.splits)

lemma search_bound: "search f net n = (r, h, m) \<Longrightarrow> n \<le> m \<and> m \<le> n + 6"
  using post_bound[of net n] search_plain_bound[of True net]  search_plain_bound[of False net n]
  by (fastforce simp: search_def Let_def split: prod.splits call.splits if_splits)

lemma run_queries_bound: "run_queries rt qs s n = (r, m) \<Longrightarrow> n \<le> m \<and> m \<le> n + 6 * length qs"
proof (induction qs arbitrary: s n)
  case (Cons q qs)
  obtain res holds m1 where se: "search (rt_federated rt) (rt_net rt) n = (res, holds, m1)" by (metis prod_cases3)
  note b = search_bound[OF se]
  show ?case
  proof (cases res)
    case (Done x)
    with Cons.prems se have "run_queries rt qs (merge_search (qry_kind q) x s) m1 = (r, m)" by simp
    from Cons.IH[OF this] b show ?thesis by simp
  next
    case Provider_Error
    with Cons.prems se have "run_queries rt qs (s\<lparr>sea_failed := sea_failed s + 1\<rparr>) m1 = (r, m)" by simp
    from Cons.IH[OF this] b show ?thesis by simp
  qed (use Cons.prems se b in auto)
qed simp

text \<open>The passages of a claim are distinct works, numbered in order, identified by claim and work, and
  within the budget; so are the model calls and the queries.\<close>

lemma retrieved_Inr:
  assumes "retrieved rt c q b by_router calls k s n = (Inr r, m)"
  shows "clr_claim r = c \<and> clr_llm_calls r = calls \<and> clr_queries r = k
    \<and> (clr_retrieved r \<longleftrightarrow> \<not> (k \<noteq> 0 \<and> sea_failed s = k)) \<and> (\<not> clr_retrieved r \<longrightarrow> clr_passages r = [])
    \<and> length (clr_passages r) \<le> max_passages b
    \<and> length (filter (\<lambda>p. pas_level p = FullText) (clr_passages r)) \<le> max_full_text b
    \<and> distinct (map pas_origin (clr_passages r))
    \<and> map pas_passage (clr_passages r) = map (\<lambda>i. CHR ''p'' # show_nat i) [1..<1 + length (clr_passages r)]
    \<and> map pas_evidence (clr_passages r) = map (\<lambda>p. evidence_id_of (rt_sha rt) c (pas_origin p)) (clr_passages r)"
proof (cases "k \<noteq> 0 \<and> sea_failed s = k")
  case True
  then show ?thesis using assms by (auto simp: retrieved_def Let_def)
next
  case False
  let ?ch = "pick_hits (rt_log rt) q b (sea_found s)"
  obtain best where best: "(case ?ch of [] \<Rightarrow> 0 | (x, score) # _ \<Rightarrow> score) = best" by blast
  obtain ps u where ps: "read_passages rt c q best 1 (max_full_text b) ?ch n = (ps, u)" by fastforce
  from assms False best ps obtain pl where pl: "ps = Inr pl" and r: "clr_passages r = pl" "clr_claim r = c"
      "clr_llm_calls r = calls" "clr_queries r = k" "clr_retrieved r"
    by (auto simp: retrieved_def Let_def rbind_Inr_iff)
  note rp = read_passages_Inr[OF ps[unfolded pl]]
  have len: "length pl = length ?ch" using arg_cong[OF conjunct1[OF rp], of length] by simp
  have ev: "map pas_evidence pl = map (evidence_id_of (rt_sha rt) c) (map (\<lambda>x. origin (fst (fst x))) ?ch)"
    using rp by (simp add: comp_def)
  also have "\<dots> = map (\<lambda>p. evidence_id_of (rt_sha rt) c (pas_origin p)) pl"
    unfolding conjunct1[OF rp, symmetric] by (simp add: comp_def)
  finally show ?thesis using rp r len False length_pick_hits[of "rt_log rt" q b] pick_hits_distinct[of "rt_log rt" q b] by simp
qed

text \<open>C28: Whatever the providers answer, the retrieval of a claim stays within its budget: at most two model
  calls and no more than the budget has, at most the budgeted queries, passages and full texts. The
  passages are numbered from one, no two are the same work, and a claim that was not searched has none.\<close>

theorem retrieval_within_budget:
  assumes "retrieve rt c proposition b n = (Inr r, m)"
  shows "clr_claim r = c \<and> clr_llm_calls r \<le> 2 \<and> clr_llm_calls r \<le> max_llm_calls b
    \<and> clr_queries r \<le> max 1 (max_queries b) \<and> length (clr_passages r) \<le> max_passages b
    \<and> length (filter (\<lambda>p. pas_level p = FullText) (clr_passages r)) \<le> max_full_text b
    \<and> map pas_passage (clr_passages r) = map (\<lambda>i. CHR ''p'' # show_nat i) [1..<1 + length (clr_passages r)]
    \<and> distinct (map pas_origin (clr_passages r))
    \<and> map pas_evidence (clr_passages r) = map (\<lambda>p. evidence_id_of (rt_sha rt) c (pas_origin p)) (clr_passages r)
    \<and> (\<not> clr_retrieved r \<longrightarrow> clr_passages r = [])"
proof -
  obtain plan left m1 where plan: "plan_queries (rt_net rt) (rt_parse rt) proposition b (max_llm_calls b) n = (plan, left, m1)"
    by (metis prod_cases3)
  note pb = plan_queries_bound[OF plan]
  obtain queries by_router where q: "plan = Inr (queries, by_router)"
    using assms plan by (cases plan) (auto simp: retrieve_def)
  obtain s m2 where s: "run_queries rt queries \<lparr>sea_found = [], sea_failed = 0, sea_unknown = [], sea_unavailable = False\<rparr> m1 = (s, m2)"
    by fastforce
  obtain s' where s': "s = Inr s'" using assms plan q s by (cases s) (auto simp: retrieve_def)
  have "retrieved rt c proposition b by_router (max_llm_calls b - left) (length queries) s' m2 = (Inr r, m)"
    using assms plan q s s' by (simp add: retrieve_def)
  from retrieved_Inr[OF this] pb q show ?thesis by simp
qed

text \<open>The router is down; the search finds two versions of one work and another work.\<close>

definition ex_paper :: "string \<Rightarrow> string \<Rightarrow> json" where
  "ex_paper title i = JObj [(''title'', JStr title), (''summary'', JStr title), (''extractedID'', JStr i)]"

definition ex_search_net :: network where
  "ex_search_net n =
     (if n = 0 then Send_Failed
      else Response \<lparr>rsp_status = 200, rsp_retry_after = None, rsp_empty = False,
        rsp_json = Some (JObj [(''data'', JArr [ex_paper ''Tea and sleep'' ''1.2v1'', ex_paper ''Tea and sleep'' ''1.2v2'',
          ex_paper ''Tea leaves'' ''3.4''])])\<rparr>)"

definition ex_retriever :: retriever where
  "ex_retriever = \<lparr>rt_net = ex_search_net, rt_parse = (\<lambda>_. None), rt_full_text = (\<lambda>p n. (None, Suc n)),
     rt_federated = False, rt_sha = (\<lambda>s. s), rt_log = (\<lambda>x. x), rt_iso = (\<lambda>_. None), rt_now = 0\<rparr>"

definition ex_budget :: search_budget where
  "ex_budget = \<lparr>max_queries = 3, results_per_query = 10, max_candidates = 20, max_passages = 2, max_full_text = 1, max_llm_calls = 2\<rparr>"

lemma ex_retrieve: "(case retrieve ex_retriever ''c'' ''Tea aids sleep'' ex_budget 0 of (Inr r, m) \<Rightarrow>
    m = 3 \<and> clr_retrieved r \<and> clr_llm_calls r = 1 \<and> map pas_origin (clr_passages r) = [''arxiv:1.2'', ''arxiv:3.4'']
    | _ \<Rightarrow> False)"
  by code_simp

theorem retrieval_within_budget_witness:
  "\<exists>r. retrieve ex_retriever ''c'' ''Tea aids sleep'' ex_budget 0 = (Inr r, 3) \<and> length (clr_passages r) = 2
    \<and> map pas_passage (clr_passages r) = [''p1'', ''p2''] \<and> clr_llm_calls r \<le> 2"
proof -
  obtain r where r: "retrieve ex_retriever ''c'' ''Tea aids sleep'' ex_budget 0 = (Inr r, 3)"
      "map pas_origin (clr_passages r) = [''arxiv:1.2'', ''arxiv:3.4'']"
    using ex_retrieve by (auto split: prod.splits sum.splits)
  from r(2) have len: "length (clr_passages r) = 2" by (metis length_map length_Cons list.size(3) Suc_1 One_nat_def)
  have "map (\<lambda>i. CHR ''p'' # show_nat i) [1..<1 + 2] = [''p1'', ''p2'']" by code_simp
  with retrieval_within_budget[OF r(1)] r(1) len show ?thesis by simp
qed

section \<open>Exceptions that a reply can cause\<close>

text \<open>
  The plan's queries are validated before they are trimmed: three blanks pass, the empty query they
  become is refused outside the handler of the reply's errors, and the exception ends the stage.
\<close>

lemma blank_query_raises:
  "3 \<le> length ''   '' \<and> plan_check [\<lparr>qry_kind = Neutral, qry_text = ''   ''\<rparr>]
    \<and> unique_queries [] [\<lparr>qry_kind = Neutral, qry_text = ''   ''\<rparr>] = Inl Invalid_Model"
  by code_simp

text \<open>So does a claim of fewer than three characters when the router is down.\<close>

lemma short_claim_raises: "query_item_of Neutral (fallback_query ''US'') = Inl Invalid_Model"
  by code_simp

text \<open>A null \<open>update-to\<close> is not an absent one: iterating it raises.\<close>

lemma null_update_raises: "update_kinds ''10.1000/x'' [JObj [(''update-to'', JNull)]] = None"
  by code_simp

end
