(* ===== verification/Assessment.thy ===== *)
theory Assessment
  imports Retrieval
begin

text \<open>
  Assessment, \<open>backend/services/evidence/assessment.py\<close>: the router labels each passage, the overall
  label is computed from the labels, and a version is citation-checked before it may be published. The
  prompt is left out: the network's replies do not depend on it. The lemmas show that a reply labels
  every passage once, that a retracted source never counts and that an outcome cites only its own
  evidence.
\<close>

section \<open>Labels\<close>

datatype router_label = Supports | Challenges | Qualifies | Context | Cannot_Assess

fun LABELS :: "router_label \<Rightarrow> relation" where
  "LABELS Supports = RelSupport"
| "LABELS Challenges = RelChallenge"
| "LABELS Qualifies = RelQualify"
| "LABELS Context = RelInsufficient"
| "LABELS Cannot_Assess = RelInsufficient"

definition NOTE_LIMIT :: nat where
  "NOTE_LIMIT = 600"

definition SUMMARY_LIMIT :: nat where
  "SUMMARY_LIMIT = 600"

record relation_item =
  rit_passage :: string
  rit_label :: router_label
  rit_rationale :: string

definition check_reply :: "passage list \<Rightarrow> relation_item list \<Rightarrow> bool" where
  "check_reply ps reply =
     (let ids = map rit_passage reply; expected = map pas_passage ps
      in list_all (\<lambda>i. i \<in> set expected) ids \<and> distinct ids \<and> list_all (\<lambda>i. i \<in> set ids) expected)"

section \<open>Notes\<close>

definition key_char :: "char \<Rightarrow> bool" where
  "key_char c \<longleftrightarrow> is_digit c \<or> (65 \<le> cval c \<and> cval c \<le> 90) \<or> (97 \<le> cval c \<and> cval c \<le> 122)
     \<or> c = CHR ''_'' \<or> c = CHR ''-''"

definition run_length :: "(char \<Rightarrow> bool) \<Rightarrow> nat \<Rightarrow> string \<Rightarrow> nat" where
  "run_length p n s = length (takeWhile p (drop n s))"

text \<open>The length of the credential-shaped text at the start, if there is one.\<close>

definition credential_here :: "string \<Rightarrow> nat option" where
  "credential_here s = (let t = py_lower s in
     case filter (\<lambda>p. prefix p t \<and> 6 \<le> run_length key_char (length p) s) [''sxv_'', ''ovk_'', ''gsk_'', ''sk_''] of
       p # _ \<Rightarrow> Some (length p + run_length key_char (length p) s)
     | [] \<Rightarrow>
         let gap = run_length is_space 6 s; word = run_length (\<lambda>c. \<not> is_space c) (6 + gap) s;
             rest = run_length key_char 4 s
         in if prefix ''bearer'' t \<and> gap \<noteq> 0 \<and> 8 \<le> word then Some (6 + gap + word)
            else if prefix ''aiza'' t \<and> 20 \<le> rest then Some (4 + rest)
            else None)"

text \<open>\<open>_CREDENTIAL.sub\<close>; the flag says whether a word character precedes.\<close>

fun redact :: "bool \<Rightarrow> string \<Rightarrow> string" where
  "redact inside [] = []"
| "redact inside (c # s) =
     (case (if inside then None else credential_here (c # s)) of
        None \<Rightarrow> c # redact (is_word c) s
      | Some n \<Rightarrow> ''[redacted]'' @ redact (is_word (last (c # take (n - 1) s))) (drop (n - 1) s))"

definition note_of :: "string \<Rightarrow> string" where
  "note_of rationale = shortened NOTE_LIMIT (redact False (spaced rationale))"

section \<open>The overall label\<close>

definition overall_of :: "(relation \<times> string) list \<Rightarrow> overall_assessment" where
  "overall_of pairs =
     (let found = (\<lambda>r. list_ex (\<lambda>x. fst x = r) pairs);
          support = found RelSupport; challenge = found RelChallenge; qualify = found RelQualify
      in if found RelMixed \<or> (challenge \<and> (support \<or> qualify)) then Mixed
         else if challenge then Challenged
         else if qualify then Qualified
         else if support then Supported
         else InsufficientEvidence)"

definition source_phrase :: "(relation \<Rightarrow> nat) \<Rightarrow> relation \<times> string \<Rightarrow> string option" where
  "source_phrase counted x = (case x of (r, word) \<Rightarrow>
     if counted r = 0 then None
     else Some (show_nat (counted r) @ (if counted r = 1 then '' source '' else '' sources '') @ word))"

definition summary_of ::
    "overall_assessment \<Rightarrow> (relation \<Rightarrow> nat) \<Rightarrow> passage list \<Rightarrow> claim_retrieval \<Rightarrow> string"
where
  "summary_of label counted ps ret =
     (let found = List.map_filter (source_phrase counted) [(RelSupport, ''support''), (RelChallenge, ''challenge''),
            (RelQualify, ''qualify''), (RelMixed, ''give mixed evidence on'')];
          sources = (if ps = [] then [''No relevant source was found in the searched index.'']
            else [if found \<noteq> [] then join_with '', '' found @ '' this claim.''
                  else ''The sources found do not settle this claim either way.'']
              @ (if list_ex (\<lambda>p. pas_level p = FullText) ps then []
                 else [''Only abstracts or metadata were read, not full texts.''])
              @ (if list_ex (\<lambda>p. pas_retraction p \<in> {Retracted, Withdrawn}) ps
                 then [''A retracted or withdrawn source was not counted.''] else []));
          search = (if clr_failed ret \<noteq> 0 \<or> clr_unknown ret \<noteq> [] \<or> clr_federated_unavailable ret
            then [''The search was incomplete, so missing evidence is not evidence of absence.''] else []);
          verdict = (if label = InsufficientEvidence
            then [''This is a statement about the evidence, not about whether the claim is true.''] else [])
      in shortened SUMMARY_LIMIT (join_with '' '' (sources @ search @ verdict)))"

section \<open>One claim\<close>

record claim_outcome =
  out_claim :: string
  out_assessment :: "assessment option"
  out_evidence :: "evidence list"
  out_reason :: "string option"

definition assessment_id_of :: "(string \<Rightarrow> string) \<Rightarrow> string \<Rightarrow> int \<Rightarrow> string" where
  "assessment_id_of sha c version = ''asm_'' @ take 24 (sha (c @ unit_separator @ show_int version))"

definition to_evidence :: "string \<Rightarrow> passage \<Rightarrow> evidence" where
  "to_evidence c p = \<lparr>evidence_id = pas_evidence p, evidence_claim = c, evidence_source = pas_source p,
     evidence_source_type = pas_type p, evidence_level = pas_level p, evidence_relevance = pas_relevance p,
     evidence_retraction = pas_retraction p, excerpt = pas_excerpt p, retrieved_at = pas_retrieved_at p\<rparr>"

definition not_counted :: "passage \<Rightarrow> bool" where
  "not_counted p \<longleftrightarrow> pas_retraction p \<in> {Retracted, Withdrawn}"

definition not_counted_note :: "passage \<Rightarrow> string \<Rightarrow> string" where
  "not_counted_note p note = note_of (''Not counted: the source is ''
     @ (if pas_retraction p = Retracted then ''retracted'' else ''withdrawn'') @ ''. '' @ note)"

text \<open>\<open>labels[passage.passage_id]\<close> and the retraction rule.\<close>

definition judge :: "relation_item list \<Rightarrow> passage \<Rightarrow> evidence_relation option" where
  "judge reply p = map_option
     (\<lambda>i. if not_counted p
          then \<lparr>related_evidence = pas_evidence p, relation = RelInsufficient,
                rel_note = Some (not_counted_note p (note_of (rit_rationale i)))\<rparr>
          else \<lparr>related_evidence = pas_evidence p, relation = LABELS (rit_label i),
                rel_note = Some (note_of (rit_rationale i))\<rparr>)
     (fetch (\<lambda>i. rit_passage i = pas_passage p) reply)"

fun judge_all :: "relation_item list \<Rightarrow> passage list \<Rightarrow> retrieval_stop + evidence_relation list" where
  "judge_all reply [] = Inr []"
| "judge_all reply (p # ps) = (case judge reply p of
       None \<Rightarrow> Inl Key_Error
     | Some r \<Rightarrow> rbind (judge_all reply ps) (\<lambda>rs. Inr (r # rs)))"

definition counted_pairs :: "passage list \<Rightarrow> evidence_relation list \<Rightarrow> (relation \<times> string) list" where
  "counted_pairs ps rs = map (\<lambda>(p, r). (relation r, pas_origin p)) (zip ps rs)"

definition outcome_of ::
    "(string \<Rightarrow> string) \<Rightarrow> claim_retrieval \<Rightarrow> int \<Rightarrow> bool \<Rightarrow> evidence_relation list \<Rightarrow> claim_outcome"
where
  "outcome_of sha ret version provisional rs =
     (let c = clr_claim ret; ps = clr_passages ret; pairs = counted_pairs ps rs; label = overall_of pairs;
          counted = (\<lambda>r. length (filter (\<lambda>x. fst x = r) (remdups pairs)))
      in \<lparr>out_claim = c,
          out_assessment = Some \<lparr>assessment_id = assessment_id_of sha c version, assessed_claim = c,
            assessment_version = version, relations = rs, overall = label, assessment_provisional = provisional,
            assessment_summary = summary_of label counted ps ret\<rparr>,
          out_evidence = map (to_evidence c) ps, out_reason = None\<rparr>)"

definition no_outcome :: "string \<Rightarrow> string option \<Rightarrow> claim_outcome" where
  "no_outcome c reason = \<lparr>out_claim = c, out_assessment = None, out_evidence = [], out_reason = reason\<rparr>"

definition assess ::
    "network \<Rightarrow> (string \<Rightarrow> relation_item list option) \<Rightarrow> (string \<Rightarrow> string) \<Rightarrow> nat \<Rightarrow> claim_retrieval \<Rightarrow> int
      \<Rightarrow> bool \<Rightarrow> nat \<Rightarrow> (retrieval_stop + claim_outcome) \<times> nat"
where
  "assess net parse sha max_calls ret version provisional n =
     (let c = clr_claim ret; ps = clr_passages ret in
      if \<not> clr_retrieved ret then (Inr (no_outcome c (clr_reason ret)), n)
      else if ps = [] then (Inr (outcome_of sha ret version provisional []), n)
      else let (r, left, holds, m) = structured net parse (check_reply ps) (max_calls - clr_llm_calls ret) n
           in (case r of
                 Parsed reply \<Rightarrow> rbind (judge_all reply ps) (\<lambda>rs. Inr (outcome_of sha ret version provisional rs))
               | Budget_Exhausted \<Rightarrow> Inr (no_outcome c (Some ''llm_budget_exhausted''))
               | Invalid_Reply \<Rightarrow> Inr (no_outcome c (Some ''assessment_unavailable''))
               | Router_Failed \<Rightarrow> Inr (no_outcome c (Some ''assessment_unavailable''))
               | Router_Rejected \<Rightarrow> Inl Keys_Rejected
               | Router_Throttled w \<Rightarrow> Inl (Rate_Limited w), m))"

section \<open>Citations\<close>

text \<open>The tests of one assessment, and of the assessments in order with the claims already assessed.\<close>

definition cites :: "report_version \<Rightarrow> assessment \<Rightarrow> evidence_relation \<Rightarrow> bool" where
  "cites r a x = (case fetch (\<lambda>e. evidence_id e = related_evidence x) (evidences r) of
       None \<Rightarrow> False | Some e \<Rightarrow> evidence_claim e = assessed_claim a)"

fun assessments_ok :: "report_version \<Rightarrow> string list \<Rightarrow> assessment list \<Rightarrow> bool" where
  "assessments_ok r assessed [] = True"
| "assessments_ok r assessed (a # rest) =
     (assessed_claim a \<in> claim_id ` set (claims r) \<and> assessed_claim a \<notin> set assessed
      \<and> assessment_version a = report_version r \<and> list_all (cites r a) (relations a)
      \<and> (relations a = [] \<longrightarrow> overall a = InsufficientEvidence) \<and> assessments_ok r (assessed_claim a # assessed) rest)"

definition validate_citations :: "report_version \<Rightarrow> bool" where
  "validate_citations r \<longleftrightarrow> distinct (map evidence_id (evidences r))
     \<and> list_all (\<lambda>e. evidence_claim e \<in> claim_id ` set (claims r)) (evidences r)
     \<and> assessments_ok r [] (assessments r)"

section \<open>What an outcome says\<close>

lemma judge_SomeD:
  assumes "judge reply p = Some r"
  shows "related_evidence r = pas_evidence p" "not_counted p \<Longrightarrow> relation r = RelInsufficient"
    "\<not> not_counted p \<Longrightarrow> \<exists>i \<in> set reply. rit_passage i = pas_passage p \<and> relation r = LABELS (rit_label i)"
  using assms by (auto simp: judge_def split: if_splits dest: fetch_SomeD)

lemma judge_all_Inr: "judge_all reply ps = Inr rs \<Longrightarrow> list_all2 (\<lambda>p r. judge reply p = Some r) ps rs"
  by (induction ps arbitrary: rs) (auto simp: rbind_Inr_iff split: option.splits)

lemma judge_all_total: "check_reply ps reply \<Longrightarrow> set qs \<subseteq> set ps \<Longrightarrow> \<exists>rs. judge_all reply qs = Inr rs"
proof (induction qs)
  case (Cons p qs)
  then obtain rs where rs: "judge_all reply qs = Inr rs" by auto
  have "pas_passage p \<in> rit_passage ` set reply"
    using Cons.prems by (auto simp: check_reply_def list_all_iff)
  then have "fetch (\<lambda>i. rit_passage i = pas_passage p) reply \<noteq> None" by (auto simp: fetch_None_iff)
  with rs show ?case by (auto simp: judge_def)
qed simp

lemma overall_of_cong:
  assumes "\<And>r. r \<noteq> RelInsufficient \<Longrightarrow> list_ex (\<lambda>x. fst x = r) ps = list_ex (\<lambda>x. fst x = r) qs"
  shows "overall_of ps = overall_of qs"
  unfolding overall_of_def Let_def by (simp add: assms)

definition counted_readings :: "passage list \<Rightarrow> evidence_relation list \<Rightarrow> (passage \<times> evidence_relation) list" where
  "counted_readings ps rs = filter (\<lambda>x. \<not> not_counted (fst x)) (zip ps rs)"

lemma overall_ignores:
  assumes "\<forall>x \<in> set (zip ps rs). not_counted (fst x) \<longrightarrow> relation (snd x) = RelInsufficient"
  shows "overall_of (counted_pairs ps rs) = overall_of (map (\<lambda>x. (relation (snd x), pas_origin (fst x))) (counted_readings ps rs))"
proof (rule overall_of_cong)
  fix r assume "r \<noteq> RelInsufficient"
  with assms show "list_ex (\<lambda>x. fst x = r) (counted_pairs ps rs)
      = list_ex (\<lambda>x. fst x = r) (map (\<lambda>x. (relation (snd x), pas_origin (fst x))) (counted_readings ps rs))"
    by (fastforce simp: list_ex_iff counted_pairs_def counted_readings_def split: prod.splits)
qed

lemma overall_of_settled: "overall_of ps \<noteq> InsufficientEvidence \<Longrightarrow> \<exists>x \<in> set ps. fst x \<noteq> RelInsufficient"
  by (force simp: overall_of_def Let_def list_ex_iff split: if_splits)

text \<open>An assessed claim has one relation per passage, in order, and cites the passages' own evidence.\<close>

definition outcome_ok :: "claim_outcome \<Rightarrow> bool" where
  "outcome_ok x \<longleftrightarrow> (\<forall>e \<in> set (out_evidence x). evidence_claim e = out_claim x)
     \<and> (case out_assessment x of
          None \<Rightarrow> out_evidence x = []
        | Some a \<Rightarrow> assessed_claim a = out_claim x \<and> map related_evidence (relations a) = map evidence_id (out_evidence x)
            \<and> (relations a = [] \<longrightarrow> overall a = InsufficientEvidence))"

lemma outcome_of_fields [simp]:
  "out_claim (outcome_of sha ret v pr rs) = clr_claim ret"
  "out_evidence (outcome_of sha ret v pr rs) = map (to_evidence (clr_claim ret)) (clr_passages ret)"
  "out_assessment (outcome_of sha ret v pr rs) = Some a \<Longrightarrow>
     assessed_claim a = clr_claim ret \<and> relations a = rs \<and> assessment_version a = v
     \<and> overall a = overall_of (counted_pairs (clr_passages ret) rs)"
  by (auto simp: outcome_of_def Let_def)

lemma assess_Inr:
  assumes "assess net parse sha k ret v pr n = (Inr x, m)"
  obtains "out_claim x = clr_claim ret" "out_assessment x = None" "out_evidence x = []"
  | reply rs where "x = outcome_of sha ret v pr rs" "clr_retrieved ret"
      "list_all2 (\<lambda>p r. judge reply p = Some r) (clr_passages ret) rs"
proof (cases "clr_retrieved ret \<and> clr_passages ret \<noteq> []")
  case True
  obtain r left holds m1 where st: "structured net parse (check_reply (clr_passages ret)) (k - clr_llm_calls ret) n = (r, left, holds, m1)"
    by (metis prod_cases4)
  show thesis
  proof (cases r)
    case (Parsed reply)
    with True st assms obtain rs where "judge_all reply (clr_passages ret) = Inr rs" "x = outcome_of sha ret v pr rs"
      by (auto simp: assess_def Let_def rbind_Inr_iff)
    with True show thesis by (intro that(2)) (auto intro: judge_all_Inr)
  qed (use True st assms that(1) in \<open>auto simp: assess_def Let_def no_outcome_def\<close>)
next
  case False
  show thesis
  proof (cases "clr_retrieved ret")
    case True
    with False assms show thesis by (intro that(2)[of "[]" "[]"]) (auto simp: assess_def Let_def)
  next
    case False
    with assms show thesis by (intro that(1)) (auto simp: assess_def Let_def no_outcome_def)
  qed
qed

lemma judged_evidence:
  assumes "list_all2 (\<lambda>p r. judge reply p = Some r) ps rs"
  shows "map related_evidence rs = map pas_evidence ps"
  using assms by (induction rule: list_all2_induct) (auto dest: judge_SomeD)

lemma assess_ok:
  assumes "assess net parse sha k ret v pr n = (Inr x, m)"
  shows "outcome_ok x \<and> out_claim x = clr_claim ret"
  using assms
proof (cases rule: assess_Inr)
  case (2 reply rs)
  have "map evidence_id (map (to_evidence c) ps) = map pas_evidence ps" for c ps by (simp add: to_evidence_def)
  with judged_evidence[OF 2(3)] show ?thesis
    by (auto simp: 2(1) outcome_ok_def to_evidence_def outcome_of_def Let_def counted_pairs_def overall_of_def)
qed (simp add: outcome_ok_def)

text \<open>C17: A retracted or withdrawn source never counts, whatever the router says of it. An assessment has one
  relation per passage, citing that passage; the relation of a retracted source is that it settles
  nothing, and the overall label is the one of the remaining sources alone. A label other than
  insufficient evidence rests on a source that counts and that the router said settles something.\<close>

theorem retracted_sources_never_count:
  assumes "assess net parse sha k ret v pr n = (Inr x, m)" "out_assessment x = Some a"
  shows "map related_evidence (relations a) = map pas_evidence (clr_passages ret)
    \<and> (\<forall>(p, r) \<in> set (zip (clr_passages ret) (relations a)). not_counted p \<longrightarrow> relation r = RelInsufficient)
    \<and> overall a = overall_of (map (\<lambda>x. (relation (snd x), pas_origin (fst x))) (counted_readings (clr_passages ret) (relations a)))
    \<and> (overall a \<noteq> InsufficientEvidence \<longrightarrow>
         (\<exists>(p, r) \<in> set (zip (clr_passages ret) (relations a)). \<not> not_counted p \<and> relation r \<noteq> RelInsufficient))"
  using assms(1)
proof (cases rule: assess_Inr)
  case (2 reply rs)
  have a: "relations a = rs" "overall a = overall_of (counted_pairs (clr_passages ret) rs)"
    using assms(2) outcome_of_fields(3) by (simp_all add: 2(1))
  have ins: "not_counted p \<Longrightarrow> relation r = RelInsufficient" if "(p, r) \<in> set (zip (clr_passages ret) rs)" for p r
    using that 2(3) judge_SomeD(2)[of reply p r] by (auto simp: list_all2_iff)
  have ov: "overall a = overall_of (map (\<lambda>x. (relation (snd x), pas_origin (fst x))) (counted_readings (clr_passages ret) rs))"
    unfolding a(2) by (rule overall_ignores) (use ins in auto)
  show ?thesis unfolding a(1)
  proof (intro conjI impI)
    show "\<forall>(p, r) \<in> set (zip (clr_passages ret) rs). not_counted p \<longrightarrow> relation r = RelInsufficient"
      using ins by auto
    assume "overall a \<noteq> InsufficientEvidence"
    from overall_of_settled[OF this[unfolded ov]]
    show "\<exists>(p, r) \<in> set (zip (clr_passages ret) rs). \<not> not_counted p \<and> relation r \<noteq> RelInsufficient"
      by (force simp: counted_readings_def)
  qed (rule judged_evidence[OF 2(3)], rule ov)
qed (use assms(2) in simp)

text \<open>Two passages: a retracted one the router says supports the claim, and one that challenges it.\<close>

definition ex_passage :: "string \<Rightarrow> retraction_status \<Rightarrow> passage" where
  "ex_passage i status = \<lparr>pas_passage = i, pas_evidence = ''evd_'' @ i, pas_origin = i,
     pas_source = \<lparr>source_id = i, source_title = i, source_publisher = ''arXiv'', source_url = None, source_published_at = None\<rparr>,
     pas_type = Preprint, pas_level = AbstractOnly, pas_relevance = HighRel, pas_retraction = status,
     pas_excerpt = None, pas_retrieved_at = 0, pas_found_by = [Neutral]\<rparr>"

definition ex_retrieval :: claim_retrieval where
  "ex_retrieval = \<lparr>clr_claim = ''c1'', clr_retrieved = True, clr_reason = None, clr_query_source = ''router'',
     clr_llm_calls = 1, clr_queries = 1, clr_failed = 0, clr_unknown = [], clr_federated_unavailable = False,
     clr_passages = [ex_passage ''p1'' Retracted, ex_passage ''p2'' NotRetracted]\<rparr>"

definition ex_relations :: "string \<Rightarrow> relation_item list option" where
  "ex_relations s = Some [\<lparr>rit_passage = ''p1'', rit_label = Supports, rit_rationale = ''yes''\<rparr>,
     \<lparr>rit_passage = ''p2'', rit_label = Challenges, rit_rationale = ''no''\<rparr>]"

definition ex_verdict :: "retrieval_stop + claim_outcome \<Rightarrow> overall_assessment option" where
  "ex_verdict r = (case r of Inl _ \<Rightarrow> None | Inr x \<Rightarrow> map_option overall (out_assessment x))"

lemma ex_assess: "ex_verdict (fst (assess (\<lambda>_. ex_reply ''{}'' ''d'') ex_relations (\<lambda>s. s) 4 ex_retrieval 2 False 0)) = Some Challenged"
  by code_simp

theorem retracted_sources_never_count_witness:
  "\<exists>x a. fst (assess (\<lambda>_. ex_reply ''{}'' ''d'') ex_relations (\<lambda>s. s) 4 ex_retrieval 2 False 0) = Inr x
    \<and> out_assessment x = Some a \<and> overall a = Challenged \<and> map related_evidence (relations a) = [''evd_p1'', ''evd_p2'']"
proof -
  obtain x a where x: "fst (assess (\<lambda>_. ex_reply ''{}'' ''d'') ex_relations (\<lambda>s. s) 4 ex_retrieval 2 False 0) = Inr x"
      "out_assessment x = Some a" "overall a = Challenged"
    using ex_assess by (auto simp: ex_verdict_def split: sum.splits)
  then obtain m where "assess (\<lambda>_. ex_reply ''{}'' ''d'') ex_relations (\<lambda>s. s) 4 ex_retrieval 2 False 0 = (Inr x, m)"
    by (metis prod.collapse)
  from retracted_sources_never_count[OF this x(2)] have "map related_evidence (relations a) = [''evd_p1'', ''evd_p2'']"
    by (simp add: ex_retrieval_def ex_passage_def)
  with x show ?thesis by (intro exI[of _ x] exI[of _ a]) simp
qed

end
