(* ===== verification/Evidence.thy ===== *)
theory Evidence
  imports Assessment Worker Reports Settings QueueClaims
begin

text \<open>
  The evidence stages, \<open>backend/services/evidence/stages.py\<close>: retrieval, assessment, the production
  reanalysis handler, the versions they build and their publication. A stage is a sequence of
  transactions; \<open>ee_others\<close> is whatever commits between its first reads and its last transaction. The
  pydantic models are read by \<open>ee_payload\<close> and \<open>ee_artifact\<close> and an artifact is printed by
  \<open>ee_artifact_json\<close>; \<open>ee_render\<close> is \<open>str\<close> of a float or a container. Heartbeats are left out. The
  lemmas show that a stale run publishes nothing, that a published version is citation-valid, and that
  a successor is queued exactly with its published predecessor.
\<close>

section \<open>Payloads and keys\<close>

definition RETRIEVAL_STAGE :: string where
  "RETRIEVAL_STAGE = ''retrieval''"

definition ASSESSMENT_STAGE :: string where
  "ASSESSMENT_STAGE = ''assessment''"

definition MAX_EXPANSION_POLLS :: int where
  "MAX_EXPANSION_POLLS = 12"

record stage_payload =
  spl_investigation :: uuid
  spl_owner :: uuid
  spl_base_version :: int
  spl_claims :: "string list option"
  spl_deeper :: bool
  spl_request :: "uuid option"
  spl_retrieval_job :: "uuid option"

record retrieval_artifact =
  art_investigation :: uuid
  art_base_version :: int
  art_claims :: "claim_retrieval list"
  art_superseded :: bool

definition json_uuid_option :: "uuid option \<Rightarrow> json" where
  "json_uuid_option u = (case u of None \<Rightarrow> JNull | Some i \<Rightarrow> JStr (str_uuid i))"

definition payload_json :: "stage_payload \<Rightarrow> json" where
  "payload_json p = JObj [(''investigation_id'', JStr (str_uuid (spl_investigation p))),
     (''owner_id'', JStr (str_uuid (spl_owner p))), (''base_version'', JInt (spl_base_version p)),
     (''claim_ids'', case spl_claims p of None \<Rightarrow> JNull | Some cs \<Rightarrow> JArr (map JStr cs)),
     (''depth'', JStr (if spl_deeper p then ''deeper'' else ''standard'')),
     (''reanalysis_request_id'', json_uuid_option (spl_request p)),
     (''retrieval_job_id'', json_uuid_option (spl_retrieval_job p))]"

definition digest_of :: "(string \<Rightarrow> string) \<Rightarrow> string list \<Rightarrow> string" where
  "digest_of sha parts = sha (join_with unit_separator parts)"

definition retrieval_key :: "(string \<Rightarrow> string) \<Rightarrow> stage_payload \<Rightarrow> stage_key" where
  "retrieval_key sha p = \<lparr>key_version = 1, key_stage = RETRIEVAL_STAGE, key_input_hash = digest_of sha
     [''retrieval'', str_uuid (spl_investigation p), show_int (spl_base_version p),
      (case spl_claims p of None \<Rightarrow> ''*'' | Some cs \<Rightarrow> join_with '','' (sort cs)),
      (if spl_deeper p then ''deeper'' else ''standard''),
      (case spl_request p of None \<Rightarrow> [] | Some u \<Rightarrow> str_uuid u)]\<rparr>"

definition assessment_key :: "(string \<Rightarrow> string) \<Rightarrow> uuid \<Rightarrow> stage_key" where
  "assessment_key sha j = \<lparr>key_version = 1, key_stage = ASSESSMENT_STAGE,
     key_input_hash = digest_of sha [''assessment'', str_uuid j]\<rparr>"

definition enqueue_retrieval ::
    "(string \<Rightarrow> string) \<Rightarrow> clk \<Rightarrow> uuid \<Rightarrow> uuid \<Rightarrow> uuid \<Rightarrow> int \<Rightarrow> string list option \<Rightarrow> bool \<Rightarrow> uuid option \<Rightarrow> db
      \<Rightarrow> exn + enqueued \<times> db"
where
  "enqueue_retrieval sha c new_id i owner base_version claim_ids deep request d =
     (let p = \<lparr>spl_investigation = i, spl_owner = owner, spl_base_version = base_version, spl_claims = claim_ids,
            spl_deeper = deep, spl_request = request, spl_retrieval_job = None\<rparr>
      in enqueue c new_id (retrieval_key sha p) (payload_json p) (Some owner) d)"

definition two_to :: "int \<Rightarrow> rat" where
  "two_to n = (if 0 \<le> n then 2 ^ nat n else 1 / 2 ^ nat (- n))"

definition expansion_delay :: "int \<Rightarrow> rat" where
  "expansion_delay poll = min (30 * two_to poll) 600"

section \<open>Publication\<close>

record evidence_env =
  ee_sha :: "string \<Rightarrow> string"
  ee_render :: "json \<Rightarrow> string"
  ee_payload :: "json \<Rightarrow> stage_payload option"
  ee_artifact :: "json \<Rightarrow> retrieval_artifact option"
  ee_artifact_json :: "retrieval_artifact \<Rightarrow> json"
  ee_config :: settings
  ee_retriever :: retriever
  ee_relations :: "string \<Rightarrow> relation_item list option"
  ee_clk :: clk
  ee_gen :: "nat \<Rightarrow> uuid"
  ee_others :: "db \<Rightarrow> db"

text \<open>\<open>str\<close> and \<open>int\<close> of a JSON value; \<open>None\<close> is a raised \<open>TypeError\<close> or \<open>ValueError\<close>.\<close>

definition py_str :: "(json \<Rightarrow> string) \<Rightarrow> json \<Rightarrow> string" where
  "py_str render v = (case v of
       JStr s \<Rightarrow> s | JInt n \<Rightarrow> show_int n | JBool b \<Rightarrow> (if b then ''True'' else ''False'') | JNull \<Rightarrow> ''None''
     | _ \<Rightarrow> render v)"

definition py_int_of :: "json \<Rightarrow> int option" where
  "py_int_of v = (case v of
       JInt n \<Rightarrow> Some n | JBool b \<Rightarrow> Some (if b then 1 else 0)
     | JFloat q \<Rightarrow> Some (if 0 \<le> q then \<lfloor>q\<rfloor> else \<lceil>q\<rceil>) | JStr s \<Rightarrow> py_int 10 s | _ \<Rightarrow> None)"

text \<open>\<open>{**payload, key: value}\<close>\<close>

definition dict_set :: "string \<Rightarrow> json \<Rightarrow> json \<Rightarrow> json" where
  "dict_set k v j = (case j of
       JObj kvs \<Rightarrow> JObj (if k \<in> fst ` set kvs then map (\<lambda>(a, b). (a, if a = k then v else b)) kvs else kvs @ [(k, v)])
     | _ \<Rightarrow> j)"

text \<open>The retrieval a finished reanalysis step planned: queued before the result is published.\<close>

definition planned_retrieval ::
    "evidence_env \<Rightarrow> clk \<Rightarrow> claimed_job \<Rightarrow> json \<Rightarrow> db \<Rightarrow> exn + json \<times> uuid option \<times> db"
where
  "planned_retrieval env c job result d =
     (case (key_stage (cj_key job) = REANALYSIS_STAGE, jget result ''retrieval'') of
        (True, Some v) \<Rightarrow>
          (case ee_payload env v of
             None \<Rightarrow> Inl ValueError
           | Some planned \<Rightarrow>
               rbind (enqueue c (ee_gen env 0) (retrieval_key (ee_sha env) planned) (payload_json planned)
                        (Some (spl_owner planned)) d)
                 (\<lambda>(q, e). Inr (dict_set ''retrieval_job_id'' (JStr (str_uuid (enq_job_id q))) result, Some (enq_job_id q), e)))
      | _ \<Rightarrow> Inr (result, None, d))"

definition poll_key :: "evidence_env \<Rightarrow> claimed_job \<Rightarrow> json \<Rightarrow> int \<Rightarrow> stage_key" where
  "poll_key env job request poll = \<lparr>key_version = key_version (cj_key job), key_stage = REANALYSIS_STAGE,
     key_input_hash = digest_of (ee_sha env) [''reanalysis'', py_str (ee_render env) request, ''poll'', show_int poll]\<rparr>"

text \<open>The next check of an expansion whose source is not ready, delayed if it is new.\<close>

definition next_poll :: "evidence_env \<Rightarrow> clk \<Rightarrow> claimed_job \<Rightarrow> json \<Rightarrow> db \<Rightarrow> exn + uuid option \<times> db" where
  "next_poll env c job result d =
     (case (Option.bind (jget result ''poll'') py_int_of, jget (cj_payload job) ''request_id'',
            payload_identifier (cj_payload job) ''owner_id'') of
        (Some n, Some request, Some owner) \<Rightarrow>
          let poll = n + 1 in
          rbind (enqueue c (ee_gen env 1) (poll_key env job request poll)
                   (dict_set ''poll'' (JInt poll) (cj_payload job)) (Some owner) d)
            (\<lambda>(q, e). Inr (Some (enq_job_id q),
               if enq_created q
               then update_jobs (\<lambda>r. job_id r = enq_job_id q)
                      (\<lambda>r. r\<lparr>job_available := tx_now c + expansion_delay (poll - 1)\<rparr>) e
               else e))
      | (None, _, _) \<Rightarrow> Inl (if jget result ''poll'' = None then KeyError else ValueError)
      | (_, None, _) \<Rightarrow> Inl KeyError
      | _ \<Rightarrow> Inl (if jget (cj_payload job) ''owner_id'' = None then KeyError else ValueError))"

text \<open>The successor of a published retrieval, or of an expansion that waits.\<close>

definition successor_of ::
    "evidence_env \<Rightarrow> clk \<Rightarrow> claimed_job \<Rightarrow> json \<Rightarrow> uuid option \<Rightarrow> db \<Rightarrow> exn + uuid option \<times> db"
where
  "successor_of env c job result prior d =
     (if key_stage (cj_key job) = RETRIEVAL_STAGE
      then (case ee_artifact env result of
          None \<Rightarrow> Inl ValueError
        | Some a \<Rightarrow>
            if art_claims a \<noteq> [] \<and> \<not> art_superseded a
            then (case ee_payload env (cj_payload job) of
                None \<Rightarrow> Inl ValueError
              | Some p \<Rightarrow>
                  rbind (enqueue c (ee_gen env 1) (assessment_key (ee_sha env) (lease_job (cj_lease job)))
                           (payload_json (p\<lparr>spl_retrieval_job := Some (lease_job (cj_lease job))\<rparr>)) (Some (spl_owner p)) d)
                    (\<lambda>(q, e). Inr (Some (enq_job_id q), e)))
            else Inr (prior, d))
      else if key_stage (cj_key job) = REANALYSIS_STAGE
         \<and> (case jget result ''waiting_for_source'' of None \<Rightarrow> False | Some v \<Rightarrow> truthy v)
      then next_poll env c job result d
      else Inr (prior, d))"

definition point_request :: "uuid option \<Rightarrow> uuid option \<Rightarrow> db \<Rightarrow> db" where
  "point_request request successor d = (case (request, successor) of
       (Some q, Some j) \<Rightarrow> d\<lparr>reanalysis_requests :=
          update_where (\<lambda>r. rea_id r = q) (\<lambda>r. r\<lparr>rea_job := Some j\<rparr>) (reanalysis_requests d)\<rparr>
     | _ \<Rightarrow> d)"

definition publish_evidence_stage ::
    "evidence_env \<Rightarrow> clk \<Rightarrow> claimed_job \<Rightarrow> json \<Rightarrow> db \<Rightarrow> exn + published_result \<times> db"
where
  "publish_evidence_stage env c job result d =
     rbind (planned_retrieval env c job result d) (\<lambda>(result', prior, d1).
     rbind (publish c (ee_gen env) (cj_lease job) result' Inr [] d1) (\<lambda>(pr, d2).
     rbind (successor_of env c job result' prior d2) (\<lambda>(successor, d3).
       Inr (pr, point_request (reanalysis_request_of (key_stage (cj_key job)) (cj_payload job)) successor d3))))"

section \<open>The next version\<close>

definition citation_invalid :: api_failure where
  "citation_invalid = Internal (OtherError ''CitationInvalid'')"

definition checked_version :: "report_version \<Rightarrow> api_failure + report_version" where
  "checked_version r = (if validate_citations r then Inr r else Inl citation_invalid)"

definition reason_text :: "claim_outcome \<Rightarrow> string" where
  "reason_text x = (case filled (out_reason x) of None \<Rightarrow> ''unknown'' | Some r \<Rightarrow> r)"

definition reason_words :: "string \<Rightarrow> string" where
  "reason_words s = map (\<lambda>c. if c = CHR ''_'' then CHR '' '' else c) s"

definition unassessed_reasons :: "claim_outcome list \<Rightarrow> string list" where
  "unassessed_reasons xs = map reason_text (filter (\<lambda>x. out_assessment x = None) xs)"

definition evidence_summary :: "claim_outcome list \<Rightarrow> bool \<Rightarrow> bool \<Rightarrow> string" where
  "evidence_summary xs deep provisional =
     (let reasons = unassessed_reasons xs; done' = length xs - length reasons
      in take 600 (''Evidence check'' @ (if deep then '' (deeper search)'' else []) @ '': '' @ show_nat done' @ '' of ''
           @ show_nat (length xs) @ '' claims in scope assessed against Scholarxiv results.''
           @ (if reasons = [] then []
              else '' Kept visible but unassessed: ''
                @ join_with '', '' (map (\<lambda>r. show_nat (count_list reasons r) @ '' '' @ reason_words r) (sort (remdups reasons)))
                @ ''.'')
           @ (if provisional then '' The report stays provisional.'' else [])))"

definition restamp :: "int \<Rightarrow> bool \<Rightarrow> assessment \<Rightarrow> assessment" where
  "restamp version provisional a = a\<lparr>assessment_version := version, assessment_provisional := provisional\<rparr>"

definition kept_assessments :: "report_version \<Rightarrow> string set \<Rightarrow> int \<Rightarrow> bool \<Rightarrow> assessment list" where
  "kept_assessments base scope version opened =
     map (restamp version opened) (filter (\<lambda>a. assessed_claim a \<notin> scope) (assessments base))"

definition new_assessments :: "claim_outcome list \<Rightarrow> int \<Rightarrow> bool \<Rightarrow> assessment list" where
  "new_assessments xs version opened = map (restamp version opened) (List.map_filter out_assessment xs)"

definition kept_evidence :: "report_version \<Rightarrow> string set \<Rightarrow> evidence list" where
  "kept_evidence base scope = filter (\<lambda>e. evidence_claim e \<notin> scope) (evidences base)"

definition new_evidence :: "claim_outcome list \<Rightarrow> evidence list" where
  "new_evidence xs = concat (map out_evidence (filter (\<lambda>x. out_assessment x \<noteq> None) xs))"

definition still_waiting :: "report_version \<Rightarrow> claim_outcome list \<Rightarrow> assessment list \<Rightarrow> claim \<Rightarrow> bool" where
  "still_waiting base xs assessed c \<longleftrightarrow> superseded_by_occurrence_id c = None
     \<and> claim_id c \<notin> set (map assessed_claim assessed) \<and> claim_id c \<notin> set (map out_claim xs) \<and> report_provisional base"

definition merged_version ::
    "report_version \<Rightarrow> claim_outcome list \<Rightarrow> string set \<Rightarrow> bool \<Rightarrow> bool \<Rightarrow> next_version \<Rightarrow> api_failure + report_version"
where
  "merged_version base xs scope opened deep v =
     (let assessed = kept_assessments base scope (nv_version v) opened @ new_assessments xs (nv_version v) opened;
          provisional = (opened \<or> list_ex (still_waiting base xs assessed) (claims base))
      in checked_version (base\<lparr>report_id := str_uuid (nv_id v), report_version := nv_version v,
           report_created_at := nv_created_at v, report_provisional := provisional,
           change_summary := evidence_summary xs deep provisional, supersedes := nv_supersedes v,
           evidences := kept_evidence base scope @ new_evidence xs, assessments := assessed\<rparr>))"

definition prefixed :: "string \<Rightarrow> string \<Rightarrow> string" where
  "prefixed value pre = take 128 (pre @ value)"

definition prefixed_claim :: "string \<Rightarrow> claim \<Rightarrow> claim" where
  "prefixed_claim pre c = c\<lparr>claim_id := prefixed (claim_id c) pre, occurrence_id := prefixed (occurrence_id c) pre\<rparr>"

definition prefixed_evidence :: "string \<Rightarrow> evidence \<Rightarrow> evidence" where
  "prefixed_evidence pre e = e\<lparr>evidence_id := prefixed (evidence_id e) pre, evidence_claim := prefixed (evidence_claim e) pre\<rparr>"

definition prefixed_assessment :: "string \<Rightarrow> int \<Rightarrow> assessment \<Rightarrow> assessment" where
  "prefixed_assessment pre version a = a\<lparr>assessment_id := prefixed (assessment_id a) pre,
     assessed_claim := prefixed (assessed_claim a) pre, assessment_version := version,
     relations := map (\<lambda>x. x\<lparr>related_evidence := prefixed (related_evidence x) pre\<rparr>) (relations a)\<rparr>"

definition expansion_summary :: "report_version \<Rightarrow> report_version \<Rightarrow> uuid \<Rightarrow> string" where
  "expansion_summary clip full source = ''Expanded to the confirmed full video: added ''
     @ show_nat (length (claims full)) @ '' claims from investigation '' @ str_uuid source @ '' report version ''
     @ show_int (report_version full) @ ''. The clip's own claims are kept; version ''
     @ show_int (report_version clip) @ '' is unchanged.''"

definition expanded_version ::
    "report_version \<Rightarrow> report_version \<Rightarrow> uuid \<Rightarrow> next_version \<Rightarrow> api_failure + report_version"
where
  "expanded_version clip full source v =
     (let pre = ''fv'' @ show_int (report_version full) @ ''_''
      in checked_version (clip\<lparr>report_id := str_uuid (nv_id v), report_version := nv_version v,
           report_created_at := nv_created_at v,
           report_provisional := (report_provisional clip \<or> report_provisional full),
           change_summary := expansion_summary clip full source, supersedes := nv_supersedes v,
           claims := claims clip @ map (prefixed_claim pre) (claims full),
           evidences := evidences clip @ map (prefixed_evidence pre) (evidences full),
           assessments := map (\<lambda>a. a\<lparr>assessment_version := nv_version v\<rparr>) (assessments clip)
             @ map (prefixed_assessment pre (nv_version v)) (assessments full)\<rparr>))"

section \<open>The stages\<close>

definition owned_by :: "uuid \<Rightarrow> uuid \<Rightarrow> db \<Rightarrow> bool" where
  "owned_by i owner d \<longleftrightarrow> fetch (\<lambda>v. inv_id v = i \<and> inv_owner v = owner) (investigations d) \<noteq> None"

definition capture_open :: "uuid \<Rightarrow> db \<Rightarrow> bool" where
  "capture_open i d = (case fetch (\<lambda>s. ses_id s = i) (capture_sessions d) of None \<Rightarrow> False | Some s \<Rightarrow> ses_state s = ''open'')"

definition base_budget :: "evidence_settings \<Rightarrow> search_budget" where
  "base_budget s = \<lparr>max_queries = nat (evidence_max_queries s), results_per_query = nat (evidence_results_per_query s),
     max_candidates = nat (evidence_max_candidates s), max_passages = nat (evidence_max_passages s),
     max_full_text = nat (evidence_max_full_text s), max_llm_calls = nat (evidence_max_llm_calls s)\<rparr>"

definition stage_budget :: "settings \<Rightarrow> bool \<Rightarrow> search_budget" where
  "stage_budget config deep = (let b = base_budget (evidence_conf config) in if deep then deeper b else b)"

definition evidence_unavailable :: exn where
  "evidence_unavailable = Retryable (Subclass ''EvidenceUnavailable'' NonRetriableInput)"

definition key_configured :: "settings \<Rightarrow> bool" where
  "key_configured config = (case scholarxiv_api_key (evidence_conf config) of None \<Rightarrow> False | Some k \<Rightarrow> py_strip k \<noteq> [])"

definition bad_input :: exn where
  "bad_input = Retryable NonRetriableInput"

fun stop_exn :: "retrieval_stop \<Rightarrow> exn" where
  "stop_exn Keys_Rejected = bad_input"
| "stop_exn (Rate_Limited w) = Retryable (RateLimited w)"
| "stop_exn Invalid_Model = ValueError"
| "stop_exn Type_Error = TypeError"
| "stop_exn Key_Error = KeyError"

definition finished :: "(exn + json) \<times> db \<Rightarrow> handler_end \<times> db" where
  "finished x = (case x of
       (Inl e, d) \<Rightarrow> (Threw e, d)
     | (Inr r, d) \<Rightarrow> (Returned \<lparr>sr_result = r, sr_on_publish = None\<rparr> [], d))"

subsection \<open>Retrieval\<close>

definition unsearched :: "string \<Rightarrow> claim_retrieval" where
  "unsearched c = \<lparr>clr_claim = c, clr_retrieved = False, clr_reason = Some ''claim_budget'', clr_query_source = ''none'',
     clr_llm_calls = 0, clr_queries = 0, clr_failed = 0, clr_unknown = [], clr_federated_unavailable = False, clr_passages = []\<rparr>"

definition claim_limit :: "settings \<Rightarrow> int" where
  "claim_limit config = (let n = evidence_max_claims (evidence_conf config) in
     if quotas_enabled (quota_conf config) then min n (quota_claims_per_run (quota_conf config)) else n)"

fun retrieve_claims ::
    "retriever \<Rightarrow> search_budget \<Rightarrow> int \<Rightarrow> int \<Rightarrow> claim list \<Rightarrow> nat \<Rightarrow> retrieval_stop + claim_retrieval list"
where
  "retrieve_claims rt b limit index [] n = Inr []"
| "retrieve_claims rt b limit index (c # cs) n =
     (let (r, m) = (if index \<ge> limit then (Inr (unsearched (claim_id c)), n)
            else retrieve rt (claim_id c) (claim_proposition c) b n)
      in rbind r (\<lambda>x. rbind (retrieve_claims rt b limit (index + 1) cs m) (\<lambda>xs. Inr (x # xs))))"

definition scope_of :: "stage_payload \<Rightarrow> report_version \<Rightarrow> claim list" where
  "scope_of p r = (case spl_claims p of None \<Rightarrow> claims r | Some ids \<Rightarrow> filter (\<lambda>c. claim_id c \<in> set ids) (claims r))"

definition artifact_of :: "stage_payload \<Rightarrow> claim_retrieval list \<Rightarrow> bool \<Rightarrow> retrieval_artifact" where
  "artifact_of p cs superseded = \<lparr>art_investigation = spl_investigation p, art_base_version = spl_base_version p,
     art_claims = cs, art_superseded = superseded\<rparr>"

definition run_retrieval :: "evidence_env \<Rightarrow> stage_payload \<Rightarrow> db \<Rightarrow> exn + retrieval_artifact" where
  "run_retrieval env p d =
     (if \<not> owned_by (spl_investigation p) (spl_owner p) d then Inl bad_input
      else case newest_row (spl_investigation p) (report_versions d) of
        None \<Rightarrow> Inl bad_input
      | Some latest \<Rightarrow>
          if rep_version latest \<noteq> spl_base_version p then Inr (artifact_of p [] True)
          else let scope = scope_of p (report_from_row latest)
          in if scope = [] then Inr (artifact_of p [] False)
             else (case retrieve_claims (ee_retriever env) (stage_budget (ee_config env) (spl_deeper p))
                      (claim_limit (ee_config env)) 0 scope 0 of
                 Inl e \<Rightarrow> Inl (stop_exn e)
               | Inr results \<Rightarrow>
                   if list_all (\<lambda>r. clr_reason r = Some ''retrieval_unavailable'') results
                   then Inl (Retryable Transient) else Inr (artifact_of p results False)))"

definition retrieval_stage :: "evidence_env \<Rightarrow> job_handler" where
  "retrieval_stage env job d = finished
     (if \<not> key_configured (ee_config env) then Inl evidence_unavailable
      else case ee_payload env (cj_payload job) of
        None \<Rightarrow> Inl bad_input
      | Some p \<Rightarrow> rbind (run_retrieval env p d) (\<lambda>a. Inr (ee_artifact_json env a)), d)"

subsection \<open>Assessment\<close>

definition skipped :: "string \<Rightarrow> json" where
  "skipped why = JObj [(''skipped'', JStr why)]"

text \<open>The published result of the retrieval job, unless it is gone.\<close>

definition retrieval_result :: "uuid \<Rightarrow> db \<Rightarrow> json option" where
  "retrieval_result j d = (case (job_of d j, result_of d j) of
       (Some r, Some x) \<Rightarrow> if job_state r \<in> {CANCELLED, DELETED, FAILED} then None else Some (res_result x)
     | _ \<Rightarrow> None)"

fun assess_claims ::
    "evidence_env \<Rightarrow> string list \<Rightarrow> nat \<Rightarrow> int \<Rightarrow> bool \<Rightarrow> claim_retrieval list \<Rightarrow> nat \<Rightarrow> retrieval_stop + claim_outcome list"
where
  "assess_claims env ids calls version opened [] n = Inr []"
| "assess_claims env ids calls version opened (r # rs) n =
     (if clr_claim r \<notin> set ids then assess_claims env ids calls version opened rs n
      else let (x, m) = assess (rt_net (ee_retriever env)) (ee_relations env) (ee_sha env) calls r version opened n
           in rbind x (\<lambda>x. rbind (assess_claims env ids calls version opened rs m) (\<lambda>xs. Inr (x # xs))))"

definition assessed_scope :: "claim_outcome list \<Rightarrow> string set" where
  "assessed_scope xs = out_claim ` set (filter (\<lambda>x. out_assessment x \<noteq> None) xs)"

definition set_result_version :: "uuid option \<Rightarrow> int \<Rightarrow> db \<Rightarrow> db" where
  "set_result_version request version d = (case request of
       None \<Rightarrow> d
     | Some q \<Rightarrow> d\<lparr>reanalysis_requests :=
         update_where (\<lambda>r. rea_id r = q) (\<lambda>r. r\<lparr>rea_result_version := Some version\<rparr>) (reanalysis_requests d)\<rparr>)"

definition publication_exn :: "api_failure \<Rightarrow> exn" where
  "publication_exn f = (if f = citation_invalid then bad_input
     else case f of Internal x \<Rightarrow> x | _ \<Rightarrow> OtherError ''ApiError'')"

text \<open>The last transaction of an assessment.\<close>

definition commit_assessment ::
    "evidence_env \<Rightarrow> stage_payload \<Rightarrow> (next_version \<Rightarrow> api_failure + report_version) \<Rightarrow> nat \<Rightarrow> db \<Rightarrow> exn + json \<times> db"
where
  "commit_assessment env p build assessed d =
     (if \<not> owned_by (spl_investigation p) (spl_owner p) d then Inr (skipped ''investigation_missing'', d)
      else case newest_row (spl_investigation p) (report_versions d) of
        None \<Rightarrow> Inr (skipped ''superseded'', d)
      | Some current \<Rightarrow>
          if rep_version current \<noteq> spl_base_version p then Inr (skipped ''superseded'', d)
          else (case publish_report_version (ee_gen env 2) (wall (ee_clk env)) (spl_investigation p) build (rep_fixture current) d of
              Inl f \<Rightarrow> Inl (publication_exn f)
            | Inr (r, e) \<Rightarrow>
                Inr (JObj [(''version'', JInt (report_version r)), (''assessed'', JInt (int assessed))],
                  set_result_version (spl_request p) (report_version r) e)))"

definition run_assessment :: "evidence_env \<Rightarrow> stage_payload \<Rightarrow> uuid \<Rightarrow> db \<Rightarrow> (exn + json) \<times> db" where
  "run_assessment env p j d =
     (case retrieval_result j d of
        None \<Rightarrow> (Inr (skipped ''retrieval_unavailable''), d)
      | Some result \<Rightarrow>
          (case ee_artifact env result of
             None \<Rightarrow> (Inl ValueError, d)
           | Some a \<Rightarrow>
               if art_superseded a then (Inr (skipped ''superseded''), d)
               else (case newest_row (spl_investigation p) (report_versions d) of
                   None \<Rightarrow> (Inr (skipped ''superseded''), d)
                 | Some latest \<Rightarrow>
                     if rep_version latest \<noteq> spl_base_version p then (Inr (skipped ''superseded''), d)
                     else let base = report_from_row latest; opened = capture_open (spl_investigation p) d
                     in (case assess_claims env (map claim_id (claims base))
                            (max_llm_calls (stage_budget (ee_config env) (spl_deeper p)))
                            (spl_base_version p + 1) opened (art_claims a) 0 of
                           Inl e \<Rightarrow> (Inl (stop_exn e), d)
                         | Inr xs \<Rightarrow>
                             (case commit_assessment env p (merged_version base xs (assessed_scope xs) opened (spl_deeper p))
                                  (length xs - length (unassessed_reasons xs)) (ee_others env d) of
                                Inl e \<Rightarrow> (Inl e, ee_others env d)
                              | Inr (res, e) \<Rightarrow> (Inr res, e))))))"

definition assessment_stage :: "evidence_env \<Rightarrow> job_handler" where
  "assessment_stage env job d = finished
     (if \<not> key_configured (ee_config env) then (Inl evidence_unavailable, d)
      else case ee_payload env (cj_payload job) of
        None \<Rightarrow> (Inl bad_input, d)
      | Some p \<Rightarrow> (case spl_retrieval_job p of None \<Rightarrow> (Inl bad_input, d) | Some j \<Rightarrow> run_assessment env p j d))"

subsection \<open>Reanalysis\<close>

text \<open>\<open>[str(c) for c in value or []]\<close>\<close>

definition str_items :: "(json \<Rightarrow> string) \<Rightarrow> json option \<Rightarrow> string list option" where
  "str_items render v = (case v of
       None \<Rightarrow> Some []
     | Some j \<Rightarrow>
         if \<not> truthy j then Some []
         else (case j of
             JArr xs \<Rightarrow> Some (map (py_str render) xs)
           | JStr s \<Rightarrow> Some (map (\<lambda>c. [c]) s)
           | JObj kvs \<Rightarrow> Some (map fst kvs)
           | _ \<Rightarrow> None))"

text \<open>One expansion check: the full video's latest report joins the clip as a new version.\<close>

definition expand :: "evidence_env \<Rightarrow> uuid \<Rightarrow> uuid \<Rightarrow> uuid \<Rightarrow> int \<Rightarrow> uuid \<Rightarrow> int \<Rightarrow> db \<Rightarrow> exn + json \<times> db" where
  "expand env request i owner base_version source poll d =
     (if \<not> owned_by i owner d \<or> \<not> owned_by source owner d then Inl bad_input
      else case newest_row i (report_versions d) of
        None \<Rightarrow> Inr (skipped ''superseded'', d)
      | Some current \<Rightarrow>
          if rep_version current \<noteq> base_version then Inr (skipped ''superseded'', d)
          else (case newest_row source (report_versions d) of
              None \<Rightarrow>
                if poll \<ge> MAX_EXPANSION_POLLS then Inl bad_input
                else Inr (JObj [(''waiting_for_source'', JBool True), (''poll'', JInt poll)], d)
            | Some full \<Rightarrow>
                (case publish_report_version (ee_gen env 2) (wall (ee_clk env)) i
                     (expanded_version (report_from_row current) (report_from_row full) source)
                     (rep_fixture current \<or> rep_fixture full) d of
                   Inl f \<Rightarrow> Inl (publication_exn f)
                 | Inr (r, e) \<Rightarrow> Inr (JObj [(''version'', JInt (report_version r))],
                     set_result_version (Some request) (report_version r) e))))"

record reanalysis_order =
  ord_request :: uuid
  ord_investigation :: uuid
  ord_owner :: uuid
  ord_reason :: string
  ord_base_version :: int
  ord_claims :: "string list"
  ord_poll :: int

definition order_of :: "evidence_env \<Rightarrow> json \<Rightarrow> reanalysis_order option" where
  "order_of env p =
     (case (payload_identifier p ''request_id'', payload_identifier p ''investigation_id'', payload_identifier p ''owner_id'',
            jget p ''reason'', Option.bind (jget p ''supersedes_version'') py_int_of,
            str_items (ee_render env) (jget p ''claim_ids''),
            (case jget p ''poll'' of None \<Rightarrow> Some 0 | Some v \<Rightarrow> py_int_of v)) of
        (Some q, Some i, Some owner, Some reason, Some v, Some cs, Some n) \<Rightarrow>
          Some \<lparr>ord_request = q, ord_investigation = i, ord_owner = owner, ord_reason = py_str (ee_render env) reason,
            ord_base_version = v, ord_claims = cs, ord_poll = n\<rparr>
      | _ \<Rightarrow> None)"

definition planned_payload :: "reanalysis_order \<Rightarrow> stage_payload" where
  "planned_payload x = \<lparr>spl_investigation = ord_investigation x, spl_owner = ord_owner x,
     spl_base_version = ord_base_version x,
     spl_claims = (if ord_reason x = ''correction'' then Some (ord_claims x) else None),
     spl_deeper = (ord_reason x = ''deeper''), spl_request = Some (ord_request x), spl_retrieval_job = None\<rparr>"

definition run_reanalysis :: "evidence_env \<Rightarrow> json \<Rightarrow> db \<Rightarrow> exn + json \<times> db" where
  "run_reanalysis env p d =
     (case order_of env p of
        None \<Rightarrow> Inl bad_input
      | Some x \<Rightarrow>
          if ord_reason x = ''expansion''
          then (case jget p ''source_investigation_id'' of
              None \<Rightarrow> Inl bad_input
            | Some s \<Rightarrow>
                if \<not> truthy s then Inl bad_input
                else (case parse_uuid (py_str (ee_render env) s) of
                    None \<Rightarrow> Inl ValueError
                  | Some source \<Rightarrow> expand env (ord_request x) (ord_investigation x) (ord_owner x) (ord_base_version x) source
                      (ord_poll x) d))
          else if ord_reason x \<notin> {''correction'', ''deeper''} then Inl bad_input
          else if \<not> owned_by (ord_investigation x) (ord_owner x) d then Inl bad_input
          else Inr (JObj [(''retrieval'', payload_json (planned_payload x))], d))"

definition reanalysis_stage :: "evidence_env \<Rightarrow> job_handler" where
  "reanalysis_stage env job d =
     (case run_reanalysis env (cj_payload job) d of
        Inl e \<Rightarrow> (Threw e, d)
      | Inr (res, e) \<Rightarrow> (Returned \<lparr>sr_result = res, sr_on_publish = None\<rparr> [], e))"

definition evidence_handlers :: "evidence_env \<Rightarrow> (string \<times> job_handler) list" where
  "evidence_handlers env = [(RETRIEVAL_STAGE, retrieval_stage env), (ASSESSMENT_STAGE, assessment_stage env),
     (REANALYSIS_STAGE, reanalysis_stage env)]"

end
