(* ===== verification/EvidenceSafety.thy ===== *)
theory EvidenceSafety
  imports Evidence Reanalysis
begin

text \<open>
  What the evidence stages guarantee: the versions they build are citation-valid, a run that was
  overtaken publishes nothing, and the publication of a stage queues its successor and repoints the
  reanalysis request in the same transaction.
\<close>

section \<open>Citation-valid versions\<close>

definition assessment_ok :: "report_version \<Rightarrow> assessment \<Rightarrow> bool" where
  "assessment_ok r a \<longleftrightarrow> assessed_claim a \<in> claim_id ` set (claims r) \<and> assessment_version a = report_version r
     \<and> list_all (cites r a) (relations a) \<and> (relations a = [] \<longrightarrow> overall a = InsufficientEvidence)"

lemma assessments_ok_iff:
  "assessments_ok r seen as \<longleftrightarrow> distinct (map assessed_claim as) \<and> assessed_claim ` set as \<inter> set seen = {}
     \<and> (\<forall>a \<in> set as. assessment_ok r a)"
  by (induction as arbitrary: seen) (auto simp: assessment_ok_def)

lemma cites_iff:
  assumes "distinct (map evidence_id (evidences r))"
  shows "cites r a x \<longleftrightarrow> (\<exists>e \<in> set (evidences r). evidence_id e = related_evidence x \<and> evidence_claim e = assessed_claim a)"
proof
  assume "cites r a x"
  then show "\<exists>e \<in> set (evidences r). evidence_id e = related_evidence x \<and> evidence_claim e = assessed_claim a"
    by (auto simp: cites_def split: option.splits dest: fetch_SomeD)
next
  assume "\<exists>e \<in> set (evidences r). evidence_id e = related_evidence x \<and> evidence_claim e = assessed_claim a"
  then obtain e where e: "e \<in> set (evidences r)" "evidence_id e = related_evidence x" "evidence_claim e = assessed_claim a"
    by blast
  then have "fetch (\<lambda>e. evidence_id e = related_evidence x) (evidences r) = Some e"
    using filter_key_one[OF assms e(1)] by (simp add: fetch_def)
  with e(3) show "cites r a x" by (simp add: cites_def)
qed

definition all_passages :: "claim_retrieval list \<Rightarrow> passage list" where
  "all_passages rs = concat (map clr_passages rs)"

lemma assess_evidence:
  assumes "assess net parse sha k ret v pr n = (Inr x, m)"
  shows "out_assessment x = None \<or> map evidence_id (out_evidence x) = map pas_evidence (clr_passages ret)"
  using assms by (cases rule: assess_Inr) (auto simp: to_evidence_def)

lemma new_evidence_Cons: "new_evidence (x # xs) = (if out_assessment x = None then [] else out_evidence x) @ new_evidence xs"
  by (simp add: new_evidence_def)

lemma distinct_append_mono:
  "set f \<subseteq> set p \<Longrightarrow> set n \<subseteq> set q \<Longrightarrow> (distinct p \<Longrightarrow> distinct f) \<Longrightarrow> (distinct q \<Longrightarrow> distinct n) \<Longrightarrow>
     distinct (p @ q) \<Longrightarrow> distinct (f @ n)"
  by auto

text \<open>The outcomes of a run: each well formed and of a claim in scope, with the passages' evidence.\<close>

lemma assess_claims_Inr:
  assumes "assess_claims env ids calls v opened rs n = Inr xs"
  shows "(\<forall>x \<in> set xs. outcome_ok x \<and> out_claim x \<in> set ids)
    \<and> set (map out_claim xs) \<subseteq> set (map clr_claim rs) \<and> (distinct (map clr_claim rs) \<longrightarrow> distinct (map out_claim xs))
    \<and> set (map evidence_id (new_evidence xs)) \<subseteq> set (map pas_evidence (all_passages rs))
    \<and> (distinct (map pas_evidence (all_passages rs)) \<longrightarrow> distinct (map evidence_id (new_evidence xs)))"
  using assms
proof (induction rs arbitrary: n xs)
  case Nil
  then show ?case by (simp add: new_evidence_def)
next
  case (Cons r rs)
  show ?case
  proof (cases "clr_claim r \<in> set ids")
    case False
    with Cons.prems have "assess_claims env ids calls v opened rs n = Inr xs" by simp
    from Cons.IH[OF this] show ?thesis by (auto simp: all_passages_def)
  next
    case True
    obtain y m where y: "assess (rt_net (ee_retriever env)) (ee_relations env) (ee_sha env) calls r v opened n = (y, m)"
      by fastforce
    from Cons.prems True y obtain x tl where x: "y = Inr x" "assess_claims env ids calls v opened rs m = Inr tl" "xs = x # tl"
      by (auto simp: rbind_Inr_iff)
    note ih = Cons.IH[OF x(2)] and ok = assess_ok[OF y[unfolded x(1)]] and ev = assess_evidence[OF y[unfolded x(1)]]
    have first: "set (map evidence_id (if out_assessment x = None then [] else out_evidence x)) \<subseteq> set (map pas_evidence (clr_passages r))"
      "distinct (map pas_evidence (clr_passages r)) \<Longrightarrow> distinct (map evidence_id (if out_assessment x = None then [] else out_evidence x))"
      using ev arg_cong[of "map evidence_id (out_evidence x)" "map pas_evidence (clr_passages r)" set]
      by (auto simp del: set_map)
    have all: "map pas_evidence (all_passages (r # rs)) = map pas_evidence (clr_passages r) @ map pas_evidence (all_passages rs)"
      by (simp add: all_passages_def)
    have new: "map evidence_id (new_evidence xs)
        = map evidence_id (if out_assessment x = None then [] else out_evidence x) @ map evidence_id (new_evidence tl)"
      by (simp add: x(3) new_evidence_Cons)
    have "distinct (map pas_evidence (all_passages (r # rs))) \<longrightarrow> distinct (map evidence_id (new_evidence xs))"
      unfolding all new
    proof
      assume d: "distinct (map pas_evidence (clr_passages r) @ map pas_evidence (all_passages rs))"
      have n: "set (map evidence_id (new_evidence tl)) \<subseteq> set (map pas_evidence (all_passages rs))"
        "distinct (map pas_evidence (all_passages rs)) \<Longrightarrow> distinct (map evidence_id (new_evidence tl))"
        using ih by blast+
      from distinct_append_mono[OF first(1) n(1) first(2) n(2) d]
      show "distinct (map evidence_id (if out_assessment x = None then [] else out_evidence x) @ map evidence_id (new_evidence tl))" .
    qed
    moreover have "set (map evidence_id (new_evidence xs)) \<subseteq> set (map pas_evidence (all_passages (r # rs)))"
      unfolding all new set_append by (rule Un_mono[OF first(1)]) (use ih in blast)
    moreover have "distinct (map clr_claim (r # rs)) \<longrightarrow> distinct (map out_claim xs)"
      using ih ok by (auto simp: x(3))
    ultimately show ?thesis using ih ok True by (auto simp: x(3) simp del: set_map)
  qed
qed

lemma new_assessments_in:
  "a \<in> set (new_assessments xs v opened) \<longleftrightarrow> (\<exists>x \<in> set xs. \<exists>b. out_assessment x = Some b \<and> a = restamp v opened b)"
  by (auto simp: new_assessments_def set_map_filter)

lemma restamp_fields [simp]:
  "assessed_claim (restamp v p a) = assessed_claim a" "relations (restamp v p a) = relations a"
  "overall (restamp v p a) = overall a" "assessment_version (restamp v p a) = v"
  by (simp_all add: restamp_def)

lemma new_assessments_claims:
  assumes "\<forall>x \<in> set xs. outcome_ok x" "distinct (map out_claim xs)"
  shows "distinct (map assessed_claim (new_assessments xs v opened)) \<and> assessed_claim ` set (new_assessments xs v opened) = assessed_scope xs"
  using assms
proof (induction xs)
  case (Cons x xs)
  then have ih: "distinct (map assessed_claim (new_assessments xs v opened))"
    "assessed_claim ` set (new_assessments xs v opened) = assessed_scope xs" by auto
  have sub: "assessed_scope xs \<subseteq> out_claim ` set xs" by (auto simp: assessed_scope_def)
  show ?case
  proof (cases "out_assessment x")
    case None
    with ih show ?thesis by (simp add: new_assessments_def assessed_scope_def)
  next
    case (Some a)
    then have "assessed_claim a = out_claim x" using Cons.prems(1) by (simp add: outcome_ok_def)
    moreover have "out_claim x \<notin> assessed_scope xs" using Cons.prems(2) sub by auto
    moreover have "assessed_scope (x # xs) = insert (out_claim x) (assessed_scope xs)"
      by (simp add: assessed_scope_def Some)
    moreover have "new_assessments (x # xs) v opened = restamp v opened a # new_assessments xs v opened"
      by (simp add: new_assessments_def Some)
    ultimately show ?thesis using ih by simp
  qed
qed (simp add: new_assessments_def assessed_scope_def)

lemma new_evidence_in: "e \<in> set (new_evidence xs) \<longleftrightarrow> (\<exists>x \<in> set xs. out_assessment x \<noteq> None \<and> e \<in> set (out_evidence x))"
  by (auto simp: new_evidence_def)

lemma outcome_cites:
  assumes "outcome_ok x" "out_assessment x = Some a" "y \<in> set (relations a)"
  shows "\<exists>e \<in> set (out_evidence x). evidence_id e = related_evidence y \<and> evidence_claim e = assessed_claim a"
proof -
  have "related_evidence y \<in> set (map evidence_id (out_evidence x))"
    using assms by (auto simp: outcome_ok_def dest!: arg_cong[of _ _ set])
  then show ?thesis using assms by (auto simp: outcome_ok_def)
qed

text \<open>The version a run builds from well-formed outcomes.\<close>

lemma merged_version_valid:
  assumes base: "validate_citations base"
    and ok: "\<forall>x \<in> set xs. outcome_ok x \<and> out_claim x \<in> claim_id ` set (claims base)" "distinct (map out_claim xs)"
    and ids: "distinct (map evidence_id (kept_evidence base (assessed_scope xs) @ new_evidence xs))"
    and r: "claims r = claims base" "report_version r = v"
      "evidences r = kept_evidence base (assessed_scope xs) @ new_evidence xs"
      "assessments r = kept_assessments base (assessed_scope xs) v opened @ new_assessments xs v opened"
  shows "validate_citations r"
proof -
  have b: "distinct (map evidence_id (evidences base))" "\<forall>e \<in> set (evidences base). evidence_claim e \<in> claim_id ` set (claims base)"
      "distinct (map assessed_claim (assessments base))" "\<forall>a \<in> set (assessments base). assessment_ok base a"
    using base by (auto simp: validate_citations_def assessments_ok_iff list_all_iff)
  have ids': "distinct (map evidence_id (evidences r))" using ids by (simp add: r(3))
  note new = new_assessments_claims[of xs v opened, OF _ ok(2)]
  have kept: "assessment_ok r (restamp v opened a)" if a: "a \<in> set (assessments base)" "assessed_claim a \<notin> assessed_scope xs" for a
  proof -
    have "cites r (restamp v opened a) y" if y: "y \<in> set (relations a)" for y
    proof -
      have "cites base a y" using b(4) a(1) y by (auto simp: assessment_ok_def list_all_iff)
      then obtain e where "e \<in> set (evidences base)" "evidence_id e = related_evidence y" "evidence_claim e = assessed_claim a"
        using cites_iff[OF b(1)] by blast
      then show ?thesis using a(2) unfolding cites_iff[OF ids'] r(3) by (auto simp: kept_evidence_def)
    qed
    then show ?thesis using b(4) a(1) by (auto simp: assessment_ok_def list_all_iff r)
  qed
  have fresh: "assessment_ok r (restamp v opened a)" if a: "x \<in> set xs" "out_assessment x = Some a" for x a
  proof -
    have x: "outcome_ok x" "out_claim x \<in> claim_id ` set (claims base)" using ok(1) a(1) by auto
    have "cites r (restamp v opened a) y" if y: "y \<in> set (relations a)" for y
    proof -
      obtain e where e: "e \<in> set (out_evidence x)" "evidence_id e = related_evidence y" "evidence_claim e = assessed_claim a"
        using outcome_cites[OF x(1) a(2) y] by blast
      then have "e \<in> set (evidences r)" using a by (auto simp: r(3) new_evidence_in)
      with e show ?thesis unfolding cites_iff[OF ids'] by auto
    qed
    then show ?thesis using x a(2) by (auto simp: assessment_ok_def list_all_iff r outcome_ok_def)
  qed
  have "distinct (map assessed_claim (assessments r))"
    using new ok(1) b(3) by (auto simp: r(4) kept_assessments_def comp_def distinct_map_filter)
  moreover have "\<forall>a \<in> set (assessments r). assessment_ok r a"
    using kept fresh by (auto simp: r(4) kept_assessments_def new_assessments_in)
  moreover have "\<forall>e \<in> set (evidences r). evidence_claim e \<in> claim_id ` set (claims r)"
    using b(2) ok(1) by (auto simp: r kept_evidence_def new_evidence_in outcome_ok_def)
  ultimately show ?thesis using ids' by (simp add: validate_citations_def assessments_ok_iff list_all_iff)
qed

text \<open>C18: The assessment stage can always publish what it assessed. For a citation-valid version, and a
  retrieval with one entry per claim whose passages have fresh, distinct evidence ids, the merged version
  is accepted by the citation check whatever the router replied; it has the same claims, keeps the
  assessment and evidence of every claim not assessed in this run, and holds every new assessment with
  its evidence.\<close>

theorem evidence_run_publishes:
  assumes "assess_claims env (map claim_id (claims base)) calls n opened rs 0 = Inr xs" "validate_citations base"
    "distinct (map clr_claim rs)" "distinct (map pas_evidence (all_passages rs))"
    "\<forall>e \<in> set (kept_evidence base (assessed_scope xs)). evidence_id e \<notin> set (map pas_evidence (all_passages rs))"
  shows "\<exists>r. merged_version base xs (assessed_scope xs) opened deep v = Inr r \<and> validate_citations r
    \<and> claims r = claims base \<and> report_version r = nv_version v \<and> supersedes r = nv_supersedes v
    \<and> (\<forall>a \<in> set (assessments base). assessed_claim a \<notin> assessed_scope xs \<longrightarrow>
         restamp (nv_version v) opened a \<in> set (assessments r))
    \<and> (\<forall>e \<in> set (evidences base). evidence_claim e \<notin> assessed_scope xs \<longrightarrow> e \<in> set (evidences r))
    \<and> (\<forall>x \<in> set xs. \<forall>a. out_assessment x = Some a \<longrightarrow>
         restamp (nv_version v) opened a \<in> set (assessments r) \<and> set (out_evidence x) \<subseteq> set (evidences r))"
proof -
  let ?scope = "assessed_scope xs"
  let ?as = "kept_assessments base ?scope (nv_version v) opened @ new_assessments xs (nv_version v) opened"
  let ?pr = "opened \<or> list_ex (still_waiting base xs ?as) (claims base)"
  obtain r where r: "r = base\<lparr>report_id := str_uuid (nv_id v), report_version := nv_version v,
      report_created_at := nv_created_at v, report_provisional := ?pr,
      change_summary := evidence_summary xs deep ?pr, supersedes := nv_supersedes v,
      evidences := kept_evidence base ?scope @ new_evidence xs, assessments := ?as\<rparr>" by blast
  have f: "claims r = claims base" "report_version r = nv_version v" "supersedes r = nv_supersedes v"
    "evidences r = kept_evidence base ?scope @ new_evidence xs" "assessments r = ?as" by (simp_all add: r)
  note run = assess_claims_Inr[OF assms(1)]
  have "distinct (map evidence_id (evidences base))" using assms(2) by (simp add: validate_citations_def)
  then have "distinct (map evidence_id (kept_evidence base ?scope))"
    by (simp add: kept_evidence_def distinct_map_filter)
  moreover have "distinct (map evidence_id (new_evidence xs))" using run assms(4) by blast
  moreover have "evidence_id ` set (kept_evidence base ?scope) \<inter> evidence_id ` set (new_evidence xs) = {}"
  proof -
    have "set (map evidence_id (new_evidence xs)) \<subseteq> set (map pas_evidence (all_passages rs))" using run by blast
    then have "evidence_id ` set (new_evidence xs) \<subseteq> set (map pas_evidence (all_passages rs))" by (simp only: set_map)
    moreover have "\<forall>y \<in> evidence_id ` set (kept_evidence base ?scope). y \<notin> set (map pas_evidence (all_passages rs))"
      using assms(5) by (simp del: set_map)
    ultimately show ?thesis by blast
  qed
  ultimately have ids: "distinct (map evidence_id (kept_evidence base ?scope @ new_evidence xs))" by simp
  have ok: "\<forall>x \<in> set xs. outcome_ok x \<and> out_claim x \<in> claim_id ` set (claims base)" using run by simp
  have dist: "distinct (map out_claim xs)" using run assms(3) by blast
  have valid: "validate_citations r" by (rule merged_version_valid[OF assms(2) ok dist ids f(1,2,4,5)])
  then have "merged_version base xs ?scope opened deep v = Inr r"
    by (simp add: merged_version_def checked_version_def Let_def r[symmetric])
  moreover have "restamp (nv_version v) opened a \<in> set (assessments r)"
    if "a \<in> set (assessments base)" "assessed_claim a \<notin> ?scope" for a
    using that by (simp add: f kept_assessments_def)
  moreover have "e \<in> set (evidences r)" if "e \<in> set (evidences base)" "evidence_claim e \<notin> ?scope" for e
    using that by (simp add: f kept_evidence_def)
  moreover have "restamp (nv_version v) opened a \<in> set (assessments r) \<and> set (out_evidence x) \<subseteq> set (evidences r)"
    if "x \<in> set xs" "out_assessment x = Some a" for x a
  proof
    show "restamp (nv_version v) opened a \<in> set (assessments r)" using that by (auto simp: f new_assessments_in)
    have "set (out_evidence x) \<subseteq> set (new_evidence xs)" using that unfolding new_evidence_in subset_iff by blast
    then show "set (out_evidence x) \<subseteq> set (evidences r)" by (auto simp: f)
  qed
  ultimately show ?thesis using valid f(1-3) by blast
qed

section \<open>A run that was overtaken publishes nothing\<close>

lemma validate_fixture [simp]: "validate_citations (r\<lparr>report_fixture := b\<rparr>) = validate_citations r"
  by (simp add: validate_citations_def assessments_ok_iff assessment_ok_def cites_def list_all_iff)

lemma merged_version_checked: "merged_version base xs scope opened deep v = Inr r \<Longrightarrow> validate_citations r"
  by (auto simp: merged_version_def checked_version_def Let_def split: if_splits)

lemma expanded_version_checked: "expanded_version clip full source v = Inr r \<Longrightarrow> validate_citations r"
  by (auto simp: expanded_version_def checked_version_def Let_def split: if_splits)

lemma set_result_version_fields [simp]:
  "report_versions (set_result_version q v d) = report_versions d" "jobs (set_result_version q v d) = jobs d"
  "job_results (set_result_version q v d) = job_results d"
  by (simp_all add: set_result_version_def split: option.split)

lemma update_where_column:
  assumes "x \<in> set (update_where p f t)" "\<And>r. P (f r)" "\<not> p x \<Longrightarrow> P x"
  shows "P x"
  using assms(1) by (rule update_where_cases) (use assms(2,3) in simp_all)

lemma set_result_version_set:
  assumes "q = Some i" "x \<in> set (reanalysis_requests (set_result_version q v d))" "rea_id x = i"
  shows "rea_result_version x = Some v"
proof -
  have "x \<in> set (update_where (\<lambda>r. rea_id r = i) (\<lambda>r. r\<lparr>rea_result_version := Some v\<rparr>) (reanalysis_requests d))"
    using assms by (simp add: set_result_version_def)
  then show ?thesis by (rule update_where_column) (use assms(3) in simp_all)
qed

lemma publish_report_queue:
  assumes "publish_report_version new_id now i build fixture d = Inr (report, e)"
  shows "jobs e = jobs d" "job_results e = job_results d"
proof -
  obtain t where "e = d\<lparr>report_versions := t\<rparr>" using publish_report_Inr[OF assms] by blast
  then show "jobs e = jobs d" "job_results e = job_results d" by simp_all
qed

lemma commit_assessment_Inr:
  assumes "commit_assessment env p build k d = Inr (res, e)"
    and checked: "\<forall>v r. build v = Inr r \<longrightarrow> validate_citations r"
  shows "(e = d \<and> (\<exists>w. res = skipped w))
    \<or> (\<exists>current row. newest_row (spl_investigation p) (report_versions d) = Some current
        \<and> rep_version current = spl_base_version p \<and> report_versions e = report_versions d @ [row]
        \<and> rep_investigation row = spl_investigation p \<and> rep_version row = spl_base_version p + 1
        \<and> supersedes (rep_payload row) = Some (str_uuid (rep_id current)) \<and> validate_citations (rep_payload row)
        \<and> jobs e = jobs d \<and> job_results e = job_results d
        \<and> (\<forall>q. spl_request p = Some q \<longrightarrow> (\<forall>x \<in> set (reanalysis_requests e). rea_id x = q \<longrightarrow>
             rea_result_version x = Some (spl_base_version p + 1))))"
proof (cases "owned_by (spl_investigation p) (spl_owner p) d")
  case True
  let ?i = "spl_investigation p"
  show ?thesis
  proof (cases "newest_row ?i (report_versions d)")
    case None
    then show ?thesis using assms True by (auto simp: commit_assessment_def)
  next
    case (Some current)
    show ?thesis
    proof (cases "rep_version current = spl_base_version p")
      case False
      then show ?thesis using assms True Some by (auto simp: commit_assessment_def)
    next
      case same: True
      obtain r d1 where pub: "publish_report_version (ee_gen env 2) (wall (ee_clk env)) ?i build (rep_fixture current) d = Inr (r, d1)"
        and e: "e = set_result_version (spl_request p) (report_version r) d1"
        using assms True Some same by (auto simp: commit_assessment_def split: sum.splits)
      let ?v = "next_identity (ee_gen env 2) (wall (ee_clk env)) ?i (Some current)"
      obtain row built where row: "report_versions d1 = report_versions d @ [row]" "rep_investigation row = ?i"
          "rep_payload row = r" "rep_version row = nv_version ?v" "carries ?v r" "build ?v = Inr built"
          "r = built\<lparr>report_fixture := rep_fixture current\<rparr>"
        using publish_report_Inr[OF pub] by (auto simp: Some)
      have "validate_citations r" using checked row(6) by (simp add: row(7))
      moreover have v: "report_version r = spl_base_version p + 1" "supersedes r = Some (str_uuid (rep_id current))"
        using row(5) by (simp_all add: carries_def next_identity_def same)
      moreover have "rea_result_version x = Some (spl_base_version p + 1)"
        if "spl_request p = Some q" "x \<in> set (reanalysis_requests e)" "rea_id x = q" for q x
        using that set_result_version_set[of "spl_request p" q x "report_version r" d1] by (simp add: e v(1))
      moreover have "rep_version row = spl_base_version p + 1" using row(4) by (simp add: next_identity_def same)
      moreover have "report_versions e = report_versions d @ [row]" "jobs e = jobs d" "job_results e = job_results d"
        using row(1) publish_report_queue[OF pub] by (simp_all add: e)
      ultimately show ?thesis using row(2) Some same
        by (intro disjI2 exI[of _ current] exI[of _ row]) (simp add: row(3))
    qed
  qed
qed (use assms in \<open>auto simp: commit_assessment_def\<close>)

text \<open>C19: An evidence run that was overtaken publishes nothing. An assessment that ends without raising
  either skipped, and then it changed nothing, or the version it read was still the newest when it
  committed; then it appended exactly one row, the next version, superseding that newest version,
  citation-valid, with the reanalysis request it worked for naming it, and no job was touched.\<close>

theorem stale_evidence_publishes_nothing:
  assumes "run_assessment env p j d = (Inr res, e)"
  shows "((e = d \<or> e = ee_others env d) \<and> (\<exists>w. res = skipped w))
    \<or> (\<exists>current row. newest_row (spl_investigation p) (report_versions (ee_others env d)) = Some current
        \<and> rep_version current = spl_base_version p \<and> report_versions e = report_versions (ee_others env d) @ [row]
        \<and> rep_investigation row = spl_investigation p \<and> rep_version row = spl_base_version p + 1
        \<and> supersedes (rep_payload row) = Some (str_uuid (rep_id current)) \<and> validate_citations (rep_payload row)
        \<and> jobs e = jobs (ee_others env d) \<and> job_results e = job_results (ee_others env d)
        \<and> (\<forall>q. spl_request p = Some q \<longrightarrow> (\<forall>x \<in> set (reanalysis_requests e). rea_id x = q \<longrightarrow>
             rea_result_version x = Some (spl_base_version p + 1))))"
proof -
  from assms consider "e = d" "\<exists>w. res = skipped w"
    | build k where "commit_assessment env p build k (ee_others env d) = Inr (res, e)" "\<forall>v r. build v = Inr r \<longrightarrow> validate_citations r"
    by (auto simp: run_assessment_def Let_def split: option.splits if_splits sum.splits prod.splits dest: merged_version_checked)
  then show ?thesis
  proof cases
    case (2 build k)
    from commit_assessment_Inr[OF 2] show ?thesis by blast
  qed blast
qed

section \<open>Publication\<close>

lemma planned_retrieval_Inr:
  assumes "planned_retrieval env c job result d = Inr (result', prior, e)"
  shows "queue_run d e \<and> reanalysis_requests e = reanalysis_requests d
    \<and> (key_stage (cj_key job) = REANALYSIS_STAGE \<and> jget result ''retrieval'' \<noteq> None \<longrightarrow>
        (\<exists>planned r. Option.bind (jget result ''retrieval'') (ee_payload env) = Some planned \<and> r \<in> set (jobs e)
           \<and> job_key r = retrieval_key (ee_sha env) planned \<and> job_owner r = Some (spl_owner planned) \<and> prior = Some (job_id r)))"
proof (cases "key_stage (cj_key job) = REANALYSIS_STAGE \<and> jget result ''retrieval'' \<noteq> None")
  case True
  then obtain v planned q where v: "jget result ''retrieval'' = Some v" "ee_payload env v = Some planned"
      and q: "enqueue c (ee_gen env 0) (retrieval_key (ee_sha env) planned) (payload_json planned) (Some (spl_owner planned)) d = Inr (q, e)"
      and prior: "prior = Some (enq_job_id q)"
    using assms by (auto simp: planned_retrieval_def rbind_Inr_iff split: option.splits)
  have "queue_run d e" by (rule queue_run_one) (rule qs_enqueue[OF q])
  moreover have "reanalysis_requests e = reanalysis_requests d" using enqueue_keeps[OF q] by (metis db.select_convs(13) db.surjective db.update_convs(1))
  ultimately show ?thesis using enqueue_row[OF q] v prior by auto
next
  case False
  then show ?thesis using assms by (auto simp: planned_retrieval_def split: option.splits bool.splits)
qed

text \<open>What the successor of a stage is, when it has one.\<close>

definition successor_key :: "evidence_env \<Rightarrow> claimed_job \<Rightarrow> json \<Rightarrow> stage_key option" where
  "successor_key env job result =
     (if key_stage (cj_key job) = RETRIEVAL_STAGE
      then (case ee_artifact env result of
          None \<Rightarrow> None
        | Some a \<Rightarrow> if art_claims a \<noteq> [] \<and> \<not> art_superseded a
            then Some (assessment_key (ee_sha env) (lease_job (cj_lease job))) else None)
      else if key_stage (cj_key job) \<noteq> REANALYSIS_STAGE then None
      else if (case jget result ''waiting_for_source'' of None \<Rightarrow> False | Some v \<Rightarrow> truthy v)
      then (case (Option.bind (jget result ''poll'') py_int_of, jget (cj_payload job) ''request_id'') of
          (Some n, Some request) \<Rightarrow> Some (poll_key env job request (n + 1)) | _ \<Rightarrow> None)
      else (case jget result ''retrieval'' of
          None \<Rightarrow> None | Some v \<Rightarrow> map_option (retrieval_key (ee_sha env)) (ee_payload env v)))"

text \<open>Rows keep their key and status; only the time a job becomes available may change.\<close>

definition statuses_kept :: "db \<Rightarrow> db \<Rightarrow> bool" where
  "statuses_kept d e \<longleftrightarrow> (\<forall>r \<in> set (jobs d). \<exists>s \<in> set (jobs e). job_id s = job_id r \<and> job_key s = job_key r \<and> job_status s = job_status r)"

lemma statuses_kept_trans: "statuses_kept d e \<Longrightarrow> statuses_kept e f \<Longrightarrow> statuses_kept d f"
  unfolding statuses_kept_def by metis

lemma statuses_kept_refl [simp]: "statuses_kept d d"
  by (auto simp: statuses_kept_def)

lemma enqueue_statuses: "enqueue c i k p owner d = Inr (q, e) \<Longrightarrow> statuses_kept d e"
  by (auto simp: enqueue_def statuses_kept_def split: option.splits if_splits)

lemma defer_statuses: "statuses_kept d (update_jobs p (\<lambda>r. r\<lparr>job_available := t\<rparr>) d)"
  unfolding statuses_kept_def
proof
  fix r assume "r \<in> set (jobs d)"
  then have "(if p r then r\<lparr>job_available := t\<rparr> else r) \<in> set (jobs (update_jobs p (\<lambda>r. r\<lparr>job_available := t\<rparr>) d))"
    by (simp add: set_update_where)
  then show "\<exists>s \<in> set (jobs (update_jobs p (\<lambda>r. r\<lparr>job_available := t\<rparr>) d)).
      job_id s = job_id r \<and> job_key s = job_key r \<and> job_status s = job_status r"
    by (rule bexI[rotated]) simp
qed

lemma next_poll_Inr:
  assumes "next_poll env c job result d = Inr (successor, e)"
  shows "queue_run d e \<and> statuses_kept d e \<and> (\<exists>n request r. Option.bind (jget result ''poll'') py_int_of = Some n
      \<and> jget (cj_payload job) ''request_id'' = Some request \<and> r \<in> set (jobs e)
      \<and> job_key r = poll_key env job request (n + 1) \<and> successor = Some (job_id r))"
proof -
  obtain n request owner q d1 where n: "Option.bind (jget result ''poll'') py_int_of = Some n"
      "jget (cj_payload job) ''request_id'' = Some request"
    and q: "enqueue c (ee_gen env 1) (poll_key env job request (n + 1)) (dict_set ''poll'' (JInt (n + 1)) (cj_payload job)) (Some owner) d
        = Inr (q, d1)" "successor = Some (enq_job_id q)"
    and e: "e = (if enq_created q then update_jobs (\<lambda>r. job_id r = enq_job_id q)
        (\<lambda>r. r\<lparr>job_available := tx_now c + expansion_delay n\<rparr>) d1 else d1)"
    using assms by (auto simp: next_poll_def rbind_Inr_iff Let_def split: option.splits)
  have run: "queue_run d1 e" "statuses_kept d1 e" by (auto simp: e defer_statuses intro: queue_run_one qs_defer)
  have first: "queue_run d d1" "statuses_kept d d1"
    using q(1) by (auto intro: queue_run_one qs_enqueue enqueue_statuses)
  obtain r where r: "r \<in> set (jobs d1)" "job_key r = poll_key env job request (n + 1)" "job_id r = enq_job_id q"
    using enqueue_row[OF q(1)] by blast
  then obtain s where "s \<in> set (jobs e)" "job_key s = poll_key env job request (n + 1)" "job_id s = enq_job_id q"
    using run(2) unfolding statuses_kept_def by metis
  with n q(2) queue_run_trans[OF first(1) run(1)] statuses_kept_trans[OF first(2) run(2)] show ?thesis by auto
qed

lemma successor_of_Inr:
  assumes "successor_of env c job result prior d = Inr (successor, e)"
    and prior: "key_stage (cj_key job) = REANALYSIS_STAGE \<and> jget result ''retrieval'' \<noteq> None \<longrightarrow>
        (\<exists>planned r. Option.bind (jget result ''retrieval'') (ee_payload env) = Some planned \<and> r \<in> set (jobs d)
           \<and> job_key r = retrieval_key (ee_sha env) planned \<and> prior = Some (job_id r))"
  shows "queue_run d e \<and> statuses_kept d e \<and> (\<forall>k. successor_key env job result = Some k \<longrightarrow>
      (\<exists>s \<in> set (jobs e). job_key s = k \<and> successor = Some (job_id s)))"
proof (cases "key_stage (cj_key job) = RETRIEVAL_STAGE")
  case True
  then obtain a where a: "ee_artifact env result = Some a" using assms(1) by (auto simp: successor_of_def split: option.splits)
  show ?thesis
  proof (cases "art_claims a \<noteq> [] \<and> \<not> art_superseded a")
    case go: True
    obtain p q where q: "enqueue c (ee_gen env 1) (assessment_key (ee_sha env) (lease_job (cj_lease job)))
        (payload_json (p\<lparr>spl_retrieval_job := Some (lease_job (cj_lease job))\<rparr>)) (Some (spl_owner p)) d = Inr (q, e)"
        "successor = Some (enq_job_id q)"
      using assms(1) True a go by (auto simp: successor_of_def rbind_Inr_iff split: option.splits)
    have "queue_run d e" by (rule queue_run_one) (rule qs_enqueue[OF q(1)])
    moreover obtain r where "r \<in> set (jobs e)" "job_key r = assessment_key (ee_sha env) (lease_job (cj_lease job))" "job_id r = enq_job_id q"
      using enqueue_row[OF q(1)] by blast
    ultimately show ?thesis using enqueue_statuses[OF q(1)] q(2) by (auto simp: successor_key_def True a go)
  next
    case False
    then show ?thesis using assms(1) True a by (auto simp: successor_of_def successor_key_def)
  qed
next
  case other: False
  let ?waits = "case jget result ''waiting_for_source'' of None \<Rightarrow> False | Some v \<Rightarrow> truthy v"
  show ?thesis
  proof (cases "key_stage (cj_key job) = REANALYSIS_STAGE \<and> ?waits")
    case True
    then have "next_poll env c job result d = Inr (successor, e)" using assms(1) other by (simp add: successor_of_def)
    from next_poll_Inr[OF this] True other show ?thesis by (auto simp: successor_key_def)
  next
    case False
    then have "e = d" "successor = prior" using assms(1) other by (auto simp: successor_of_def)
    with prior other False show ?thesis by (auto simp: successor_key_def split: option.splits)
  qed
qed

lemma jget_dict_set: "k \<noteq> k' \<Longrightarrow> jget (dict_set k v j) k' = jget j k'"
proof (cases j)
  case (JObj kvs)
  assume ne: "k \<noteq> k'"
  have "map_of (map (\<lambda>(a, b). (a, if a = k then v else b)) kvs) k' = map_of kvs k'"
    using ne by (induction kvs) auto
  with ne show ?thesis by (simp add: JObj dict_set_def map_add_def split: option.split)
qed (simp_all add: dict_set_def)

lemma jget_dict_set_same: "jget j k' = Some w \<Longrightarrow> jget (dict_set k v j) k = Some v"
proof (cases j)
  case (JObj kvs)
  have "k \<in> fst ` set kvs \<Longrightarrow> map_of (map (\<lambda>(a, b). (a, if a = k then v else b)) kvs) k = Some v"
    by (induction kvs) auto
  moreover have "k \<notin> fst ` set kvs \<Longrightarrow> map_of (kvs @ [(k, v)]) k = Some v"
    by (simp add: map_add_def map_of_eq_None_iff[THEN iffD2])
  ultimately show ?thesis by (simp add: JObj dict_set_def)
qed (simp_all add: jget_def)

lemma successor_key_planned: "successor_key env job (dict_set ''retrieval_job_id'' v result) = successor_key env job result"
  if "key_stage (cj_key job) = REANALYSIS_STAGE"
  using that by (simp add: successor_key_def jget_dict_set RETRIEVAL_STAGE_def REANALYSIS_STAGE_def)

lemma planned_result:
  assumes "planned_retrieval env c job result d = Inr (result', prior, e)"
  shows "result' = result \<or> (key_stage (cj_key job) = REANALYSIS_STAGE \<and> (\<exists>v. result' = dict_set ''retrieval_job_id'' v result))"
  using assms by (auto simp: planned_retrieval_def rbind_Inr_iff split: option.splits bool.splits)

lemma point_request_fields [simp]:
  "jobs (point_request q j d) = jobs d" "job_results (point_request q j d) = job_results d"
  by (simp_all add: point_request_def split: option.split)

lemma point_request_set:
  assumes "q = Some i" "j = Some k" "x \<in> set (reanalysis_requests (point_request q j d))" "rea_id x = i"
  shows "rea_job x = Some k"
proof -
  have "x \<in> set (update_where (\<lambda>r. rea_id r = i) (\<lambda>r. r\<lparr>rea_job := Some k\<rparr>) (reanalysis_requests d))"
    using assms by (simp add: point_request_def)
  then show ?thesis by (rule update_where_column) (use assms(4) in simp_all)
qed

lemma point_request_run: "queue_run d (point_request q j d)"
  by (rule queue_run_one) (rule qs_other, simp_all)

text \<open>The three steps of the publication.\<close>

lemma publish_evidence_Inr:
  assumes "publish_evidence_stage env c job result d = Inr (pr, e)"
  obtains result' prior d1 d2 successor d3 where
    "planned_retrieval env c job result d = Inr (result', prior, d1)"
    "publish c (ee_gen env) (cj_lease job) result' Inr [] d1 = Inr (pr, d2)"
    "successor_of env c job result' prior d2 = Inr (successor, d3)"
    "e = point_request (reanalysis_request_of (key_stage (cj_key job)) (cj_payload job)) successor d3"
  using assms by (auto simp: publish_evidence_stage_def rbind_Inr_iff)

lemma publish_evidence_facts:
  assumes inv: "queue_inv d" and pub: "publish_evidence_stage env c job result d = Inr (pr, e)"
  shows "queue_run d e \<and> (\<exists>s. job_of e (lease_job (cj_lease job)) = Some s \<and> job_state s = PUBLISHED)
    \<and> (\<forall>k. successor_key env job result = Some k \<longrightarrow>
        (\<exists>s \<in> set (jobs e). job_key s = k \<and> (\<forall>q. reanalysis_request_of (key_stage (cj_key job)) (cj_payload job) = Some q \<longrightarrow>
           (\<forall>x \<in> set (reanalysis_requests e). rea_id x = q \<longrightarrow> rea_job x = Some (job_id s)))))"
  using pub
proof (rule publish_evidence_Inr)
  fix result' prior d1 d2 successor d3
  assume a: "planned_retrieval env c job result d = Inr (result', prior, d1)"
    "publish c (ee_gen env) (cj_lease job) result' Inr [] d1 = Inr (pr, d2)"
    "successor_of env c job result' prior d2 = Inr (successor, d3)"
    and e: "e = point_request (reanalysis_request_of (key_stage (cj_key job)) (cj_payload job)) successor d3"
  let ?j = "lease_job (cj_lease job)"
  note p = planned_retrieval_Inr[OF a(1)]
  have run1: "queue_run d d1" using p by blast
  have run2: "queue_run d1 d2" by (rule publish_run[OF a(2)]) simp
  have inv1: "queue_inv d1" by (rule queue.good_run[OF run1 inv])
  have key: "successor_key env job result' = successor_key env job result"
    "key_stage (cj_key job) = REANALYSIS_STAGE \<Longrightarrow> jget result' ''retrieval'' = jget result ''retrieval''"
    using planned_result[OF a(1)] by (auto simp: successor_key_planned jget_dict_set)
  have "key_stage (cj_key job) = REANALYSIS_STAGE \<and> jget result' ''retrieval'' \<noteq> None \<longrightarrow>
      (\<exists>planned r. Option.bind (jget result' ''retrieval'') (ee_payload env) = Some planned \<and> r \<in> set (jobs d2)
         \<and> job_key r = retrieval_key (ee_sha env) planned \<and> prior = Some (job_id r))"
  proof
    assume g: "key_stage (cj_key job) = REANALYSIS_STAGE \<and> jget result' ''retrieval'' \<noteq> None"
    then obtain planned r where r: "Option.bind (jget result ''retrieval'') (ee_payload env) = Some planned" "r \<in> set (jobs d1)"
        "job_key r = retrieval_key (ee_sha env) planned" "prior = Some (job_id r)"
      using p key(2) by auto
    obtain s where "s \<in> set (jobs d2)" "row_trans r s" using queue_run_row[OF run2 inv1 r(2)] by blast
    then show "\<exists>planned r. Option.bind (jget result' ''retrieval'') (ee_payload env) = Some planned \<and> r \<in> set (jobs d2)
         \<and> job_key r = retrieval_key (ee_sha env) planned \<and> prior = Some (job_id r)"
      using r key(2) g row_transD(1,2)[of r s] by auto
  qed
  note su = successor_of_Inr[OF a(3) this]
  have run3: "queue_run d3 e" by (simp add: e point_request_run)
  have run: "queue_run d e" using run1 run2 su run3 by (blast intro: queue_run_trans)
  obtain s2 where s2: "job_of d2 ?j = Some s2" "job_state s2 = PUBLISHED"
    using publish_facts[OF inv1 a(2)] by auto
  then obtain s where s: "s \<in> set (jobs d3)" "job_id s = ?j" "job_status s = job_status s2"
    using su job_of_SomeD[OF s2(1)] unfolding statuses_kept_def by metis
  have "job_of e ?j = Some s"
    using job_of_unique[OF queue.good_run[OF run inv], of s] s by (simp add: e)
  moreover have "\<exists>s \<in> set (jobs e). job_key s = k \<and> (\<forall>q. reanalysis_request_of (key_stage (cj_key job)) (cj_payload job) = Some q \<longrightarrow>
           (\<forall>x \<in> set (reanalysis_requests e). rea_id x = q \<longrightarrow> rea_job x = Some (job_id s)))"
    if k: "successor_key env job result = Some k" for k
  proof -
    obtain s where "s \<in> set (jobs d3)" "job_key s = k" "successor = Some (job_id s)"
      using su k unfolding key(1) by blast
    then show ?thesis using point_request_set[OF refl refl _ refl, of _ "job_id s" d3]
      by (intro bexI[of _ s]) (auto simp: e)
  qed
  ultimately show ?thesis using run s s2(2) by auto
qed

text \<open>C20: An evidence stage hands its work on in the transaction that publishes it. After a publication the
  job is published, its successor (the assessment of a retrieval, the retrieval a reanalysis planned, the
  next check of an expansion) is queued under its own key, and the reanalysis request the job worked for
  points at that successor, so cancelling the request reaches the work still running.\<close>

theorem evidence_handover:
  assumes "reachable d" "publish_evidence_stage env c job result d = Inr (pr, e)" "successor_key env job result = Some k"
  shows "(\<exists>s. job_of e (lease_job (cj_lease job)) = Some s \<and> job_state s = PUBLISHED)
    \<and> (\<exists>s \<in> set (jobs e). job_key s = k \<and> (\<forall>q. reanalysis_request_of (key_stage (cj_key job)) (cj_payload job) = Some q \<longrightarrow>
         (\<forall>x \<in> set (reanalysis_requests e). rea_id x = q \<longrightarrow> rea_job x = Some (job_id s))))"
  using publish_evidence_facts[OF reachable_inv[OF assms(1)] assms(2)] assms(3) by blast

section \<open>The stages as handlers of the worker\<close>

lemma publish_evidence_run:
  assumes "publish_evidence_stage env c job result d = Inr (pr, e)"
  shows "queue_run d e"
  using assms
proof (rule publish_evidence_Inr)
  fix result' prior d1 d2 successor d3
  assume a: "planned_retrieval env c job result d = Inr (result', prior, d1)"
    "publish c (ee_gen env) (cj_lease job) result' Inr [] d1 = Inr (pr, d2)"
    "successor_of env c job result' prior d2 = Inr (successor, d3)"
    and e: "e = point_request (reanalysis_request_of (key_stage (cj_key job)) (cj_payload job)) successor d3"
  have "queue_run d2 d3"
    using a(3) next_poll_Inr[of env c job result' d2]
    by (auto simp: successor_of_def rbind_Inr_iff split: if_splits option.splits intro: queue_run_one qs_enqueue)
  moreover have "queue_run d3 e" by (simp add: e point_request_run)
  moreover have "queue_run d1 d2" by (rule publish_run[OF a(2)]) simp
  ultimately show ?thesis using planned_retrieval_Inr[OF a(1)] by (blast intro: queue_run_trans)
qed

text \<open>The worker's environment with the real publication of the evidence stages.\<close>

lemma evidence_env_ok:
  assumes "\<And>n d. queue_run d (xe_others xe n d)" "xe_publish_evidence xe = publish_evidence_stage env"
  shows "env_ok xe"
  using assms publish_evidence_run by (auto simp: env_ok_def)

lemma publish_report_run: "publish_report_version u t i build f d = Inr (r, e) \<Longrightarrow> queue_run d (set_result_version q v e)"
  by (rule queue_run_one) (rule qs_other, simp_all add: publish_report_queue)

lemma commit_assessment_run: "commit_assessment env p build k d = Inr (res, e) \<Longrightarrow> queue_run d e"
  by (auto simp: commit_assessment_def split: if_splits option.splits sum.splits dest: publish_report_run)

lemma run_assessment_run:
  assumes "\<And>d. queue_run d (ee_others env d)"
  shows "queue_run d (snd (run_assessment env p j d))"
  using assms queue_run_trans[OF assms commit_assessment_run]
  by (auto simp: run_assessment_def Let_def split: option.splits sum.splits prod.splits)

lemma run_reanalysis_run: "run_reanalysis env p d = Inr (res, e) \<Longrightarrow> queue_run d e"
  by (auto simp: run_reanalysis_def expand_def split: option.splits sum.splits if_splits dest: publish_report_run)

lemma finished_handler: "snd (finished x) = snd x" "fst (finished x) = Returned r s \<Longrightarrow> sr_on_publish r = None"
  by (auto simp: finished_def split: prod.splits sum.splits)

lemma retrieval_handler: "stage_handler (retrieval_stage env)"
  by unfold_locales (auto simp: retrieval_stage_def finished_handler dest: finished_handler(2))

lemma assessment_handler:
  assumes "\<And>d. queue_run d (ee_others env d)"
  shows "stage_handler (assessment_stage env)"
  by unfold_locales (auto simp: assessment_stage_def finished_handler run_assessment_run[OF assms] split: option.split
      dest!: finished_handler(2))

lemma reanalysis_handler: "stage_handler (reanalysis_stage env)"
  by unfold_locales (auto simp: reanalysis_stage_def split: sum.splits prod.splits dest: run_reanalysis_run)

section \<open>Expansion gives up\<close>

text \<open>
  The checks of one expansion over the databases they run against, each the follow-up the publication of
  the one before queued: the delays they schedule.
\<close>

fun expansion_delays :: "evidence_env \<Rightarrow> json \<Rightarrow> db list \<Rightarrow> rat list" where
  "expansion_delays env p [] = []"
| "expansion_delays env p (d # ds) = (case run_reanalysis env p d of
       Inl x \<Rightarrow> []
     | Inr (res, e) \<Rightarrow>
         (case (jget res ''waiting_for_source'', Option.bind (jget res ''poll'') py_int_of) of
            (Some v, Some n) \<Rightarrow>
              if truthy v then expansion_delay n # expansion_delays env (dict_set ''poll'' (JInt (n + 1)) p) ds else []
          | _ \<Rightarrow> []))"

lemma run_waits:
  assumes "run_reanalysis env p d = Inr (res, e)" "jget res ''waiting_for_source'' = Some v"
  obtains x where "order_of env p = Some x" "ord_poll x < MAX_EXPANSION_POLLS" "jget res ''poll'' = Some (JInt (ord_poll x))"
  using assms
  by (auto simp: run_reanalysis_def expand_def skipped_def split: option.splits sum.splits if_splits)

lemma order_after_poll:
  assumes "order_of env p = Some x"
  shows "\<exists>y. order_of env (dict_set ''poll'' (JInt n) p) = Some y \<and> ord_poll y = n"
proof -
  obtain w where "jget p ''reason'' = Some w" using assms by (auto simp: order_of_def split: option.splits)
  then have "jget (dict_set ''poll'' (JInt n) p) ''poll'' = Some (JInt n)" by (rule jget_dict_set_same)
  with assms show ?thesis
    by (auto simp: order_of_def payload_identifier_def jget_dict_set py_int_of_def split: option.splits)
qed

lemma expansion_delays_prefix:
  assumes "order_of env p = Some x"
  shows "prefix (expansion_delays env p ds) (map expansion_delay [ord_poll x..MAX_EXPANSION_POLLS - 1])"
  using assms
proof (induction ds arbitrary: p x)
  case (Cons d ds)
  show ?case
  proof (cases "\<exists>res e v n. run_reanalysis env p d = Inr (res, e) \<and> jget res ''waiting_for_source'' = Some v
      \<and> Option.bind (jget res ''poll'') py_int_of = Some n \<and> truthy v")
    case True
    then obtain res e v n where w: "run_reanalysis env p d = Inr (res, e)" "jget res ''waiting_for_source'' = Some v"
        "Option.bind (jget res ''poll'') py_int_of = Some n" "truthy v" by blast
    obtain y where y: "order_of env p = Some y" "ord_poll y < MAX_EXPANSION_POLLS" "jget res ''poll'' = Some (JInt (ord_poll y))"
      using w(1,2) by (rule run_waits)
    have n: "n = ord_poll x" "ord_poll x < MAX_EXPANSION_POLLS" using w(3) y Cons.prems by (auto simp: py_int_of_def)
    obtain z where "order_of env (dict_set ''poll'' (JInt (n + 1)) p) = Some z" "ord_poll z = n + 1"
      using order_after_poll[OF Cons.prems] by blast
    from Cons.IH[OF this(1)] this(2) n
    have "prefix (expansion_delay n # expansion_delays env (dict_set ''poll'' (JInt (n + 1)) p) ds)
        (map expansion_delay [ord_poll x..MAX_EXPANSION_POLLS - 1])"
      by (subst upto_rec1) auto
    then show ?thesis using w by simp
  next
    case False
    then show ?thesis by (auto split: sum.splits prod.splits option.splits)
  qed
qed simp

lemma all_delays: "map expansion_delay [0..11] = [30, 60, 120, 240, 480, 600, 600, 600, 600, 600, 600, 600]"
  by (simp add: upto_rec1 expansion_delay_def two_to_def)


section \<open>Examples\<close>

definition ex_read_payload :: "json \<Rightarrow> stage_payload option" where
  "ex_read_payload j = Some \<lparr>spl_investigation = 1, spl_owner = 7, spl_base_version = 1, spl_claims = None,
     spl_deeper = False, spl_request = Some 3, spl_retrieval_job = Some 8\<rparr>"

definition ex_artifact :: "claim_retrieval list \<Rightarrow> retrieval_artifact" where
  "ex_artifact cs = \<lparr>art_investigation = 1, art_base_version = 1, art_claims = cs, art_superseded = False\<rparr>"

definition ex_evidence :: "claim_retrieval list \<Rightarrow> evidence_env" where
  "ex_evidence cs = \<lparr>ee_sha = (\<lambda>s. s), ee_render = (\<lambda>_. []), ee_payload = ex_read_payload,
     ee_artifact = (\<lambda>_. Some (ex_artifact cs)), ee_artifact_json = (\<lambda>_. JNull), ee_config = default_settings [],
     ee_retriever = ex_retriever\<lparr>rt_net := (\<lambda>_. Providers.ex_reply ''{}'' ''d'')\<rparr>, ee_relations = ex_relations,
     ee_clk = ex_clk 5, ee_gen = (\<lambda>n. 20 + of_nat n), ee_others = (\<lambda>d. d)\<rparr>"

subsection \<open>An expansion that waits\<close>

definition ex_clip :: db where
  "ex_clip = ex_published\<lparr>investigations := [ex_investigation 1 7, ex_investigation 2 7]\<rparr>"

definition ex_expansion :: json where
  "ex_expansion = reanalysis_payload 3 1 7 ''expansion'' 1 [] (Some 2)"

lemma str_uuid_nonempty [simp]: "str_uuid u \<noteq> []"
  by (simp add: str_uuid_def Let_def)

lemma ex_waits: "expansion_delays (ex_evidence []) ex_expansion [ex_clip, ex_clip] = [30, 60]"
  by (simp add: run_reanalysis_def order_of_def ex_expansion_def reanalysis_payload_def payload_identifier_def py_int_of_def
      str_items_def py_str_def ex_evidence_def expand_def owned_by_def ex_clip_def ex_published_def ex_reports_def
      ex_investigation_def newest_row_def history_def report_row_of_def next_identity_def Let_def MAX_EXPANSION_POLLS_def
      dict_set_def expansion_delay_def two_to_def)


subsection \<open>A run that publishes\<close>

definition ex_claim_row :: claim where
  "ex_claim_row = \<lparr>claim_id = ''c1'', occurrence_id = ''o1'', claim_interval = \<lparr>start_ms = 0, end_ms = 1000, timebase = MediaTime\<rparr>,
     claim_modality = Speech, original_text = ''Tea aids sleep'', claim_proposition = ''Tea aids sleep'', correction = None,
     claim_interpretation = None, corrects_occurrence_id = None, superseded_by_occurrence_id = None\<rparr>"

definition ex_version :: report_version where
  "ex_version = (ex_built (next_identity 5 10 1 None))\<lparr>claims := [ex_claim_row]\<rparr>"

lemma ex_run: "\<exists>x a. assess_claims (ex_evidence []) [''c1''] 4 2 False [ex_retrieval] 0 = Inr [x]
    \<and> out_assessment x = Some a \<and> overall a = Challenged"
proof -
  obtain x a where x: "fst (assess (\<lambda>_. Providers.ex_reply ''{}'' ''d'') ex_relations (\<lambda>s. s) 4 ex_retrieval 2 False 0) = Inr x"
      "out_assessment x = Some a" "overall a = Challenged"
    using ex_assess by (auto simp: ex_verdict_def split: sum.splits)
  then obtain m where "assess (\<lambda>_. Providers.ex_reply ''{}'' ''d'') ex_relations (\<lambda>s. s) 4 ex_retrieval 2 False 0 = (Inr x, m)"
    by (metis prod.collapse)
  moreover have "clr_claim ex_retrieval = ''c1''" by (simp add: ex_retrieval_def)
  ultimately show ?thesis using x by (simp add: ex_evidence_def)
qed

theorem evidence_run_publishes_witness:
  "\<exists>x a r. merged_version ex_version [x] (assessed_scope [x]) False False (next_identity 6 11 1 None) = Inr r
    \<and> out_assessment x = Some a \<and> overall a = Challenged \<and> validate_citations r \<and> claims r = [ex_claim_row]"
proof -
  obtain x a where x: "assess_claims (ex_evidence []) [''c1''] 4 2 False [ex_retrieval] 0 = Inr [x]"
      "out_assessment x = Some a" "overall a = Challenged" using ex_run by blast
  have base: "claims ex_version = [ex_claim_row]" "evidences ex_version = []" "assessments ex_version = []"
    by (simp_all add: ex_version_def ex_built_def)
  have ids: "map claim_id (claims ex_version) = [''c1'']" by (simp add: base ex_claim_row_def)
  have "validate_citations ex_version" by (simp add: validate_citations_def base)
  moreover have "distinct (map clr_claim [ex_retrieval])" by simp
  moreover have "distinct (map pas_evidence (all_passages [ex_retrieval]))"
    by (simp add: all_passages_def ex_retrieval_def ex_passage_def)
  moreover have "\<forall>e \<in> set (kept_evidence ex_version (assessed_scope [x])). evidence_id e \<notin> set (map pas_evidence (all_passages [ex_retrieval]))"
    by (simp add: kept_evidence_def base)
  ultimately obtain r where "merged_version ex_version [x] (assessed_scope [x]) False False (next_identity 6 11 1 None) = Inr r"
      "validate_citations r" "claims r = claims ex_version"
    using evidence_run_publishes[of "ex_evidence []" ex_version 4 2 False "[ex_retrieval]" "[x]" False "next_identity 6 11 1 None",
        unfolded ids, OF x(1)] by blast
  with x(2,3) base(1) show ?thesis by (intro exI[of _ x] exI[of _ a] exI[of _ r]) simp
qed

definition ex_assessment_db :: db where
  "ex_assessment_db = ex_published\<lparr>jobs := [new_job (ex_clk 0) 8 (retrieval_key (\<lambda>s. s) (the (ex_read_payload JNull))) JNull (Some 7)],
     job_results := [\<lparr>res_job = 8, res_key = retrieval_key (\<lambda>s. s) (the (ex_read_payload JNull)), res_fencing = 1,
       res_generation = 0, res_result = JNull, res_published_at = 0\<rparr>]\<rparr>"

lemma ex_run_assessment:
  "\<exists>e. run_assessment (ex_evidence []) (the (ex_read_payload JNull)) 8 ex_assessment_db
     = (Inr (JObj [(''version'', JInt 2), (''assessed'', JInt 0)]), e)"
  by (simp add: run_assessment_def retrieval_result_def job_of_def result_of_def ex_assessment_db_def ex_evidence_def
      ex_artifact_def ex_read_payload_def new_job_def queued_status_def newest_row_def history_def ex_published_def ex_reports_def
      report_row_of_def next_identity_def report_from_row_def commit_assessment_def owned_by_def ex_investigation_def
      publish_report_version_def merged_version_def checked_version_def validate_citations_def kept_assessments_def
      new_assessments_def kept_evidence_def new_evidence_def ex_built_def carries_def Let_def capture_open_def
      unassessed_reasons_def set_result_version_def empty_db_def ex_clk_def)

theorem stale_evidence_publishes_nothing_witness:
  "\<exists>e row. run_assessment (ex_evidence []) (the (ex_read_payload JNull)) 8 ex_assessment_db
      = (Inr (JObj [(''version'', JInt 2), (''assessed'', JInt 0)]), e)
    \<and> report_versions e = report_versions ex_assessment_db @ [row] \<and> rep_version row = 2"
proof -
  obtain e where e: "run_assessment (ex_evidence []) (the (ex_read_payload JNull)) 8 ex_assessment_db
      = (Inr (JObj [(''version'', JInt 2), (''assessed'', JInt 0)]), e)" using ex_run_assessment by blast
  have "JObj [(''version'', JInt 2), (''assessed'', JInt 0)] \<noteq> skipped w" for w by (simp add: skipped_def)
  moreover have "ee_others (ex_evidence []) ex_assessment_db = ex_assessment_db"
    "spl_base_version (the (ex_read_payload JNull)) = 1" by (simp_all add: ex_evidence_def ex_read_payload_def)
  ultimately show ?thesis using stale_evidence_publishes_nothing[OF e] e by auto
qed

subsection \<open>A retrieval that hands its work on\<close>

definition ex_request :: reanalysis_row where
  "ex_request = \<lparr>rea_id = 3, rea_owner = 7, rea_investigation = 1, rea_key = ''k'', rea_hash = ''h'', rea_reason = ''deeper'',
     rea_base_version = 1, rea_published_version = None, rea_result_version = None, rea_job = Some 7, rea_response = JNull,
     rea_created = 0, rea_source = None\<rparr>"

definition ex_retrieval_key :: stage_key where
  "ex_retrieval_key = \<lparr>key_version = 1, key_stage = ''retrieval'', key_input_hash = ''h''\<rparr>"

definition ex_retrieval_payload :: json where
  "ex_retrieval_payload = JObj [(''reanalysis_request_id'', JStr (str_uuid 3))]"

definition ex_retrieval_row :: job_row where
  "ex_retrieval_row = new_job (ex_clk 0) 7 ex_retrieval_key ex_retrieval_payload (Some 7)"

definition ex_retrieval_db :: "job_row list \<Rightarrow> db" where
  "ex_retrieval_db rows = empty_db\<lparr>reanalysis_requests := [ex_request], jobs := rows\<rparr>"

definition ex_retrieval_leased :: job_row where
  "ex_retrieval_leased = leased_to (ex_clk 1) ''w'' 30 ex_retrieval_row"

definition ex_retrieval_running :: job_row where
  "ex_retrieval_running = (set_state RUNNING ex_retrieval_leased)\<lparr>job_updated := 2\<rparr>"

definition ex_retrieval_job :: claimed_job where
  "ex_retrieval_job = claimed_of ''w'' ex_retrieval_leased 31"

lemma ex_retrieval_reachable: "reachable (ex_retrieval_db [ex_retrieval_running])"
proof -
  have "queue_run empty_db (ex_retrieval_db [])"
    by (rule queue_run_one[OF qs_other]) (simp_all add: ex_retrieval_db_def empty_db_def)
  moreover have "enqueue (ex_clk 0) 7 ex_retrieval_key ex_retrieval_payload (Some 7) (ex_retrieval_db [])
      = Inr (\<lparr>enq_job_id = 7, enq_created = True\<rparr>, ex_retrieval_db [ex_retrieval_row])"
    by (simp add: enqueue_def ex_retrieval_db_def ex_retrieval_row_def)
  then have "queue_run (ex_retrieval_db []) (ex_retrieval_db [ex_retrieval_row])" by (intro queue_run_one qs_enqueue)
  moreover have "claim (ex_clk 1) (\<lambda>_. False) ''w'' [''retrieval''] 30 (ex_retrieval_db [ex_retrieval_row])
      = (Some ex_retrieval_job, ex_retrieval_db [ex_retrieval_leased])"
    by (simp add: claim_def ex_retrieval_db_def ex_retrieval_leased_def ex_retrieval_job_def ex_retrieval_row_def empty_db_def
        resolve_due_def expire_overdue_def overdue_def update_jobs_def candidate_def claimable_def new_job_def
        ex_retrieval_key_def ex_clk_def queued_status_def leased_to_def)
  then have "queue_run (ex_retrieval_db [ex_retrieval_row]) (ex_retrieval_db [ex_retrieval_leased])"
    by (intro queue_run_one qs_claim)
  moreover have "start (ex_clk 2) (cj_lease ex_retrieval_job) (ex_retrieval_db [ex_retrieval_leased])
      = (True, ex_retrieval_db [ex_retrieval_running])"
    by (simp add: start_def ex_retrieval_db_def ex_retrieval_running_def ex_retrieval_leased_def ex_retrieval_job_def
        ex_retrieval_row_def empty_db_def update_jobs_def owned_def claimed_of_def leased_to_def set_state_def new_job_def
        queued_status_def ex_clk_def)
  then have "queue_run (ex_retrieval_db [ex_retrieval_leased]) (ex_retrieval_db [ex_retrieval_running])"
    by (intro queue_run_one qs_start)
  ultimately show ?thesis by (blast intro: queue_run_trans)
qed

lemma ex_handover:
  "\<exists>pr e. publish_evidence_stage (ex_evidence [ex_retrieval]) (ex_clk 3) ex_retrieval_job JNull
     (ex_retrieval_db [ex_retrieval_running]) = Inr (pr, e) \<and> map rea_id (reanalysis_requests e) = [3]"
  by (simp add: publish_evidence_stage_def planned_retrieval_def publish_def publish_tx_def ex_retrieval_db_def
      ex_retrieval_running_def ex_retrieval_leased_def ex_retrieval_job_def ex_retrieval_row_def claimed_of_def
      active_lease_def owned_def unexpired_def ex_clk_def leased_to_def set_state_def new_job_def queued_status_def Let_def
      insert_result_def empty_db_def update_jobs_def record_terminal_def job_of_def cleared_def ex_retrieval_key_def
      REANALYSIS_STAGE_def RETRIEVAL_STAGE_def successor_of_def ex_evidence_def ex_artifact_def ex_read_payload_def enqueue_def
      assessment_key_def ASSESSMENT_STAGE_def reanalysis_request_of_def ex_retrieval_payload_def json_uuid_def point_request_def
      ex_request_def jget_def update_where_def)

theorem evidence_handover_witness:
  "\<exists>pr e s. publish_evidence_stage (ex_evidence [ex_retrieval]) (ex_clk 3) ex_retrieval_job JNull
     (ex_retrieval_db [ex_retrieval_running]) = Inr (pr, e)
     \<and> s \<in> set (jobs e) \<and> job_key s = assessment_key (\<lambda>s. s) 7 \<and> map rea_job (reanalysis_requests e) = [Some (job_id s)]"
proof -
  obtain pr e where e: "publish_evidence_stage (ex_evidence [ex_retrieval]) (ex_clk 3) ex_retrieval_job JNull
     (ex_retrieval_db [ex_retrieval_running]) = Inr (pr, e)" "map rea_id (reanalysis_requests e) = [3]"
    using ex_handover by (elim exE conjE) (rule that)
  have job: "key_stage (cj_key ex_retrieval_job) = RETRIEVAL_STAGE" "lease_job (cj_lease ex_retrieval_job) = 7"
    "cj_payload ex_retrieval_job = ex_retrieval_payload"
    by (simp_all add: ex_retrieval_job_def claimed_of_def ex_retrieval_leased_def leased_to_def ex_retrieval_row_def new_job_def
        set_state_def ex_retrieval_key_def RETRIEVAL_STAGE_def)
  have key: "successor_key (ex_evidence [ex_retrieval]) ex_retrieval_job JNull = Some (assessment_key (\<lambda>s. s) 7)"
    by (simp add: successor_key_def job ex_evidence_def ex_artifact_def)
  have req: "reanalysis_request_of (key_stage (cj_key ex_retrieval_job)) (cj_payload ex_retrieval_job) = Some 3"
    by (simp add: job reanalysis_request_of_def RETRIEVAL_STAGE_def REANALYSIS_STAGE_def ex_retrieval_payload_def json_uuid_def)
  obtain s where "s \<in> set (jobs e)" "job_key s = assessment_key (\<lambda>s. s) 7"
      "\<forall>x \<in> set (reanalysis_requests e). rea_id x = 3 \<longrightarrow> rea_job x = Some (job_id s)"
    using evidence_handover[OF ex_retrieval_reachable e(1) key] req by auto
  moreover obtain x where "reanalysis_requests e = [x]" "rea_id x = 3" using e(2) by auto
  ultimately show ?thesis using e(1) by (intro exI[of _ pr] exI[of _ e] exI[of _ s]) simp
qed

subsection \<open>Expanding twice from one version\<close>

definition ex_full :: report_version where
  "ex_full = (ex_built (next_identity 8 12 2 None))\<lparr>claims := [ex_claim_row]\<rparr>"

text \<open>
  The prefix of an expansion names the version of the full video only, so a second expansion from the same
  version repeats the claim identifiers of the first.
\<close>

lemma expanded_twice_repeats_claims:
  "\<exists>r s. expanded_version ex_version ex_full 2 (next_identity 6 13 1 None) = Inr r
    \<and> expanded_version r ex_full 2 (next_identity 7 14 1 None) = Inr s
    \<and> map claim_id (claims s) = [''c1'', ''fv1_c1'', ''fv1_c1'']"
proof -
  have v: "report_version ex_full = 1" "claims ex_full = [ex_claim_row]" "evidences ex_full = []" "assessments ex_full = []"
    "claims ex_version = [ex_claim_row]" "evidences ex_version = []" "assessments ex_version = []"
    by (simp_all add: ex_full_def ex_version_def ex_built_def next_identity_def)
  have pre: "''fv'' @ show_int 1 @ ''_'' = ''fv1_''" "prefixed ''c1'' ''fv1_'' = ''fv1_c1''" by code_simp+
  show ?thesis
    by (simp add: expanded_version_def Let_def checked_version_def validate_citations_def v pre[simplified] prefixed_claim_def ex_claim_row_def)
qed

end
