(* ===== verification/ClaimExtraction.thy ===== *)
theory ClaimExtraction
  imports Reports Worker Canonical "HOL-Library.Product_Lexorder"
begin

text \<open>
  Claim extraction, \<open>backend/services/pipeline/extraction.py\<close>: the stage key of a window, its
  enqueueing, the grounding of a model's occurrences in the observations they cite, and the fenced
  publication of the resulting version. \<open>uuid.uuid5\<close>, SHA-256 and the reader of a stored window are
  parameters. A window's observation identifiers are unique, so its dictionary of observations is
  \<open>observed\<close>. The lemmas show that every published claim is made of text its observations contain.
\<close>

section \<open>Keys and enqueueing\<close>

definition EXTRACTION_STAGE :: string where
  "EXTRACTION_STAGE = ''claim_extraction''"

definition PROMPT_VERSION :: string where
  "PROMPT_VERSION = ''claim-window-v2''"

fun role_text :: "obs_role \<Rightarrow> string" where
  "role_text TargetRole = ''target''"
| "role_text ContextRole = ''context''"

fun modality_text :: "modality \<Rightarrow> string" where
  "modality_text Speech = ''speech''"
| "modality_text TextMod = ''text''"
| "modality_text BothMod = ''both''"

fun timebase_text :: "timebase \<Rightarrow> string" where
  "timebase_text CaptureTime = ''capture''"
| "timebase_text MediaTime = ''media''"

definition json_text_option :: "string option \<Rightarrow> json" where
  "json_text_option s = (case s of None \<Rightarrow> JNull | Some t \<Rightarrow> JStr t)"

definition observation_json :: "observation \<Rightarrow> json" where
  "observation_json x = JObj [(''id'', JStr (ob_id x)), (''role'', JStr (role_text (ob_role x))),
     (''text'', JStr (ob_text x)), (''modality'', JStr (modality_text (ob_modality x))),
     (''timebase'', JStr (timebase_text (ob_timebase x))), (''start_ms'', JInt (ob_start x)),
     (''end_ms'', JInt (ob_end x)), (''speaker_id'', json_text_option (ob_speaker x))]"

definition window_fields :: "observation_window \<Rightarrow> (string \<times> json) list" where
  "window_fields w = [(''version'', JInt 1), (''window_id'', JStr (win_id w)),
     (''hosted_processing_approved'', JBool (win_hosted w)),
     (''groq_processing_approved'', JBool (win_groq w)),
     (''observations'', JArr (map observation_json (win_observations w)))]"

definition incremental_member :: "bool \<Rightarrow> (string \<times> json) list" where
  "incremental_member incremental = (if incremental then [(''incremental'', JBool True)] else [])"

definition extraction_key :: "(string \<Rightarrow> string) \<Rightarrow> uuid \<Rightarrow> observation_window \<Rightarrow> bool \<Rightarrow> stage_key" where
  "extraction_key sha i w incremental =
     (let source = (if win_groq w then window_fields w
            else filter (\<lambda>(k, v). k \<noteq> ''groq_processing_approved'') (window_fields w))
      in \<lparr>key_version = 1, key_stage = EXTRACTION_STAGE, key_input_hash = sha (dumps (\<lambda>_. [])
           (JObj ([(''investigation_id'', JStr (str_uuid i)), (''window'', JObj source),
                   (''prompt_version'', JStr PROMPT_VERSION)] @ incremental_member incremental)))\<rparr>)"

definition extraction_payload :: "uuid \<Rightarrow> observation_window \<Rightarrow> bool \<Rightarrow> json" where
  "extraction_payload i w incremental = JObj ([(''investigation_id'', JStr (str_uuid i)),
     (''window'', JObj (window_fields w))] @ incremental_member incremental)"

definition owned_investigation :: "uuid \<Rightarrow> uuid \<Rightarrow> db \<Rightarrow> bool" where
  "owned_investigation i owner d = (fetch (\<lambda>v. inv_id v = i \<and> inv_owner v = owner) (investigations d) \<noteq> None)"

definition non_retriable :: exn where
  "non_retriable = Retryable NonRetriableInput"

definition enqueue_extraction ::
    "(string \<Rightarrow> string) \<Rightarrow> clk \<Rightarrow> uuid \<Rightarrow> uuid \<Rightarrow> uuid \<Rightarrow> observation_window \<Rightarrow> bool \<Rightarrow> db \<Rightarrow> exn + enqueued \<times> db"
where
  "enqueue_extraction sha c new_id i owner w incremental d =
     (if \<not> owned_investigation i owner d then Inl non_retriable
      else enqueue c new_id (extraction_key sha i w incremental) (extraction_payload i w incremental)
             (Some owner) d)"

section \<open>Grounding\<close>

text \<open>
  \<open>ExtractionInvalid\<close>: its message and its repair reason, which is the message when none is given,
  cut to 200 characters.
\<close>

record invalid_output =
  bad_message :: string
  bad_reason :: string

definition REPAIR_REASON_LIMIT :: nat where
  "REPAIR_REASON_LIMIT = 200"

definition invalid :: "string \<Rightarrow> string \<Rightarrow> invalid_output" where
  "invalid message reason = \<lparr>bad_message = message,
     bad_reason = take REPAIR_REASON_LIMIT (if reason = [] then message else reason)\<rparr>"

record occurrence =
  occ_interpretation :: interp
  occ_proposition :: string

definition occurrence_ok :: "occurrence \<Rightarrow> bool" where
  "occurrence_ok x \<longleftrightarrow> interpretation_ok (occ_interpretation x) \<and> text_ok (occ_proposition x)"

text \<open>\<open>text[start:end]\<close> for offsets that are not negative.\<close>

definition slice :: "string \<Rightarrow> int \<Rightarrow> int \<Rightarrow> string" where
  "slice s a b = take (nat b - nat a) (drop (nat a) s)"

definition ref_identity :: "source_ref \<Rightarrow> string \<times> int \<times> int" where
  "ref_identity r = (observation_id r, start_char r, end_char r)"

definition kept_context :: "observation_window \<Rightarrow> source_ref list \<Rightarrow> source_ref list" where
  "kept_context w refs = filter (\<lambda>r. case observed w (observation_id r) of
     None \<Rightarrow> True | Some x \<Rightarrow> ob_role x = ContextRole) refs"

definition usable_ref :: "observation_window \<Rightarrow> obs_role \<Rightarrow> source_ref \<Rightarrow> bool" where
  "usable_ref w role r = (case observed w (observation_id r) of
       None \<Rightarrow> False
     | Some x \<Rightarrow> ob_role x = role \<and> \<not> end_char r > int (length (ob_text x))
         \<and> py_strip (slice (ob_text x) (start_char r) (end_char r)) \<noteq> [])"

fun check_refs ::
    "observation_window \<Rightarrow> obs_role \<Rightarrow> string \<Rightarrow> (string \<times> int \<times> int) set \<Rightarrow> source_ref list \<Rightarrow> invalid_output + unit"
where
  "check_refs w role reason seen [] = Inr ()"
| "check_refs w role reason seen (r # rs) =
     (if \<not> usable_ref w role r \<or> ref_identity r \<in> seen
      then Inl (invalid ''Invalid source reference'' reason)
      else check_refs w role reason (insert (ref_identity r) seen) rs)"

definition cite_reason :: "nat \<Rightarrow> string \<Rightarrow> obs_role \<Rightarrow> string" where
  "cite_reason index field role = ''occurrences.'' @ show_nat index @ ''.'' @ field @ '': cite ''
     @ role_text role @ '' observations once''"

definition ref_text :: "observation_window \<Rightarrow> source_ref \<Rightarrow> string" where
  "ref_text w r = (case observed w (observation_id r) of None \<Rightarrow> []
     | Some x \<Rightarrow> slice (ob_text x) (start_char r) (end_char r))"

definition cited :: "observation_window \<Rightarrow> source_ref list \<Rightarrow> observation list" where
  "cited w refs = List.map_filter (\<lambda>r. observed w (observation_id r)) refs"

text \<open>\<open>json.dumps\<close> of the sorted spans, with the default separators.\<close>

definition span_text :: "string \<times> int \<times> int \<Rightarrow> string" where
  "span_text s = (case s of (o', a, b) \<Rightarrow>
     ''['' @ join_with '', '' [dumps_text o', show_int a, show_int b] @ '']'')"

definition provenance_text :: "source_ref list \<Rightarrow> string" where
  "provenance_text refs = ''['' @ join_with '', '' (map span_text (sort (map ref_identity refs))) @ '']''"

definition grounded_claim :: "observation_window \<Rightarrow> string \<Rightarrow> string \<Rightarrow> occurrence \<Rightarrow> claim" where
  "grounded_claim w identifier original x =
     (let sources = cited w (source_refs (occ_interpretation x)) in
      \<lparr>claim_id = identifier, occurrence_id = identifier,
       claim_interval = \<lparr>start_ms = Min (set (map ob_start sources)), end_ms = Max (set (map ob_end sources)),
          timebase = ob_timebase (hd sources)\<rparr>,
       claim_modality = (if card (ob_modality ` set sources) = 1 then ob_modality (hd sources) else BothMod),
       original_text = original, claim_proposition = occ_proposition x, correction = None,
       claim_interpretation = Some (occ_interpretation x), corrects_occurrence_id = None,
       superseded_by_occurrence_id = None\<rparr>)"

definition MAX_CLAIM_TEXT :: nat where
  "MAX_CLAIM_TEXT = 2000"

definition ground_one ::
    "(uuid \<Rightarrow> string \<Rightarrow> uuid) \<Rightarrow> uuid \<Rightarrow> observation_window \<Rightarrow> nat \<Rightarrow> string set \<Rightarrow> occurrence \<Rightarrow> invalid_output + claim"
where
  "ground_one uuid5 i w index seen occ =
     (let x = occ\<lparr>occ_interpretation := (occ_interpretation occ)
            \<lparr>context_refs := kept_context w (context_refs (occ_interpretation occ))\<rparr>\<rparr>;
          refs = source_refs (occ_interpretation x) in
      rbind (check_refs w TargetRole (cite_reason index ''source_refs'' TargetRole) {} refs) (\<lambda>_.
      rbind (check_refs w ContextRole (cite_reason index ''context_refs'' ContextRole) {}
               (context_refs (occ_interpretation x))) (\<lambda>_.
        let original = join_with [CHR 0x0A] (map (ref_text w) refs);
            identifier = str_uuid (uuid5 i (provenance_text refs))
        in if card (ob_speaker ` set (cited w refs)) \<noteq> 1
           then Inl (invalid ''An occurrence cannot silently combine different speakers''
                  (''occurrences.'' @ show_nat index @ ''.source_refs: use one speaker''))
           else if length original > MAX_CLAIM_TEXT \<or> length (occ_proposition x) > MAX_CLAIM_TEXT
           then Inl (invalid ''Occurrence exceeds the public claim text limit'' [])
           else if identifier \<in> seen
           then Inl (invalid ''Duplicate occurrence''
                  (''occurrences.'' @ show_nat index @ '': duplicate source span''))
           else Inr (grounded_claim w identifier original x))))"

fun ground_from ::
    "(uuid \<Rightarrow> string \<Rightarrow> uuid) \<Rightarrow> uuid \<Rightarrow> observation_window \<Rightarrow> nat \<Rightarrow> string set \<Rightarrow> occurrence list
       \<Rightarrow> invalid_output + claim list"
where
  "ground_from uuid5 i w index seen [] = Inr []"
| "ground_from uuid5 i w index seen (x # xs) =
     rbind (ground_one uuid5 i w index seen x) (\<lambda>c.
     rbind (ground_from uuid5 i w (index + 1) (insert (claim_id c) seen) xs) (\<lambda>cs. Inr (c # cs)))"

definition grounded_claims ::
    "(uuid \<Rightarrow> string \<Rightarrow> uuid) \<Rightarrow> uuid \<Rightarrow> observation_window \<Rightarrow> occurrence list \<Rightarrow> invalid_output + claim list"
where
  "grounded_claims uuid5 i w occurrences =
     (if length occurrences > 64 then Inl (invalid ''Too many occurrences'' [])
      else ground_from uuid5 i w 0 {} occurrences)"

section \<open>Publication\<close>

definition claim_position :: "claim \<Rightarrow> int \<times> int \<times> string" where
  "claim_position c = (start_ms (claim_interval c), end_ms (claim_interval c), claim_id c)"

definition raised :: "api_failure \<Rightarrow> exn" where
  "raised f = (case f of Internal x \<Rightarrow> x | _ \<Rightarrow> OtherError ''ApiError'')"

text \<open>A version that is final or reconciled takes no further extraction.\<close>

definition finalized :: "report_version \<Rightarrow> bool" where
  "finalized r \<longleftrightarrow> \<not> report_provisional r \<or> reconciliation r \<noteq> None"

definition cumulative_claims :: "report_version option \<Rightarrow> claim list \<Rightarrow> claim list" where
  "cumulative_claims previous cs = sort_key claim_position (case previous of
       None \<Rightarrow> cs
     | Some r \<Rightarrow> claims r @ filter (\<lambda>c. occurrence_id c \<notin> occurrence_id ` set (claims r)) cs)"

definition CUMULATIVE_SUMMARY :: string where
  "CUMULATIVE_SUMMARY = ''Cumulative provisional extraction; newly added claims are not assessed or reconciled. Intervals are source observation envelopes.''"

definition WINDOW_SUMMARY :: string where
  "WINDOW_SUMMARY = ''Provisional claim extraction from one observation window; not assessed or reconciled. Intervals are source observation envelopes.''"

definition attempts_of :: "report_version option \<Rightarrow> processing_attempt list" where
  "attempts_of previous = (case previous of None \<Rightarrow> []
     | Some r \<Rightarrow> (case processing_attempts r of None \<Rightarrow> [] | Some xs \<Rightarrow> xs))"

definition extraction_version ::
    "uuid \<Rightarrow> bool \<Rightarrow> report_version option \<Rightarrow> claim list \<Rightarrow> processing_attempt list \<Rightarrow> next_version
       \<Rightarrow> api_failure + report_version"
where
  "extraction_version i incremental previous cs provenance v = Inr
     \<lparr>report_id = str_uuid (nv_id v), report_investigation = i, report_version = nv_version v,
      report_created_at = nv_created_at v, report_provisional = True,
      change_summary = (if incremental then CUMULATIVE_SUMMARY else WINDOW_SUMMARY),
      supersedes = nv_supersedes v, claims = cs,
      evidences = (case previous of None \<Rightarrow> [] | Some r \<Rightarrow> evidences r),
      assessments = (case previous of None \<Rightarrow> []
        | Some r \<Rightarrow> map (\<lambda>a. a\<lparr>assessment_version := nv_version v\<rparr>) (assessments r)),
      report_fixture = False, processing_attempts = Some provenance, reconciliation = None\<rparr>"

definition running_stage :: "time \<Rightarrow> string \<Rightarrow> uuid \<Rightarrow> db \<Rightarrow> db" where
  "running_stage now stage i d = d\<lparr>investigations := update_where (\<lambda>v. inv_id v = i)
     (\<lambda>v. v\<lparr>inv_stage := stage, inv_state := ''running'', inv_error_code := None, inv_updated := now\<rparr>)
     (investigations d)\<rparr>"

definition latest_report :: "uuid \<Rightarrow> db \<Rightarrow> report_version option" where
  "latest_report i d = map_option report_from_row (newest_row i (report_versions d))"

definition publish_extraction ::
    "clk \<Rightarrow> uuid \<Rightarrow> uuid \<Rightarrow> bool \<Rightarrow> claim list \<Rightarrow> processing_attempt list \<Rightarrow> db \<Rightarrow> exn + db"
where
  "publish_extraction c new_id i incremental cs provenance d =
     (let previous = (if incremental then latest_report i d else None) in
      if (case previous of None \<Rightarrow> False | Some r \<Rightarrow> finalized r)
      then Inl (PublishRejected ''incremental report was finalized'')
      else let published = (if incremental then cumulative_claims previous cs else cs);
               attempts = attempts_of previous @ provenance
        in (case publish_report_version new_id (wall c) i
                (extraction_version i incremental previous published attempts)
                (case previous of None \<Rightarrow> False | Some r \<Rightarrow> report_fixture r) d of
              Inl f \<Rightarrow> Inl (raised f)
            | Inr (_, e) \<Rightarrow> Inr (running_stage (tx_now c) EXTRACTION_STAGE i e)))"

section \<open>What a grounded claim quotes\<close>

lemma check_refs_Inr_iff:
  "check_refs w role reason seen rs = Inr u \<longleftrightarrow>
     (\<forall>r \<in> set rs. usable_ref w role r \<and> ref_identity r \<notin> seen) \<and> distinct (map ref_identity rs)"
  by (induction w role reason seen rs rule: check_refs.induct) (auto simp: image_iff)

lemma slice_sublist: "sublist (slice s a b) s"
  by (metis slice_def sublist_take sublist_drop sublist_order.order_trans)

lemma length_slice:
  "0 \<le> a \<Longrightarrow> a \<le> b \<Longrightarrow> b \<le> int (length s) \<Longrightarrow> int (length (slice s a b)) = b - a"
  by (simp add: slice_def)

text \<open>A usable reference quotes text of an observation of the wanted role.\<close>

lemma usable_refD:
  assumes "usable_ref w role r"
  shows "\<exists>x \<in> set (win_observations w). ob_id x = observation_id r \<and> ob_role x = role
     \<and> observed w (observation_id r) = Some x \<and> end_char r \<le> int (length (ob_text x))
     \<and> ref_text w r = slice (ob_text x) (start_char r) (end_char r)
     \<and> py_strip (ref_text w r) \<noteq> [] \<and> sublist (ref_text w r) (ob_text x)"
  using assms observed_SomeD[of w "observation_id r"]
  by (auto simp: usable_ref_def ref_text_def slice_sublist split: option.splits)

lemma set_cited: "set (cited w refs) = {x. \<exists>r \<in> set refs. observed w (observation_id r) = Some x}"
  by (force simp: cited_def map_filter_def image_iff)

lemma kept_context_usable:
  "check_refs w ContextRole reason {} (kept_context w refs) = Inr u \<Longrightarrow> r \<in> set (kept_context w refs)
     \<Longrightarrow> r \<in> set refs \<and> usable_ref w ContextRole r"
  by (auto simp: check_refs_Inr_iff kept_context_def)

lemma ground_one_Inr:
  assumes "ground_one uuid5 i w index seen x = Inr c"
  defines "m \<equiv> occ_interpretation x"
  shows "claim_interpretation c = Some (m\<lparr>context_refs := kept_context w (context_refs m)\<rparr>)"
    and "\<forall>r \<in> set (source_refs m). usable_ref w TargetRole r" "distinct (map ref_identity (source_refs m))"
    and "\<forall>r \<in> set (kept_context w (context_refs m)). usable_ref w ContextRole r"
    and "card (ob_speaker ` set (cited w (source_refs m))) = 1"
    and "original_text c = join_with [CHR 0x0A] (map (ref_text w) (source_refs m))"
    and "length (original_text c) \<le> MAX_CLAIM_TEXT" "length (claim_proposition c) \<le> MAX_CLAIM_TEXT"
    and "claim_proposition c = occ_proposition x" "correction c = None"
    and "claim_id c = str_uuid (uuid5 i (provenance_text (source_refs m)))" "claim_id c \<notin> seen"
    and "occurrence_id c = claim_id c"
    and "claim_interval c = \<lparr>start_ms = Min (set (map ob_start (cited w (source_refs m)))),
           end_ms = Max (set (map ob_end (cited w (source_refs m)))),
           timebase = ob_timebase (hd (cited w (source_refs m)))\<rparr>"
    and "superseded_by_occurrence_id c = None" "corrects_occurrence_id c = None"
  using assms(1) unfolding m_def
  by (auto simp: ground_one_def grounded_claim_def Let_def check_refs_Inr_iff elim!: rbind_InrE split: if_splits)

lemma ground_from_Inr:
  "ground_from uuid5 i w index seen xs = Inr cs \<Longrightarrow>
     length cs = length xs \<and> distinct (map claim_id cs) \<and> claim_id ` set cs \<inter> seen = {}
     \<and> (\<forall>k < length xs. \<exists>n s. ground_one uuid5 i w n s (xs ! k) = Inr (cs ! k))"
proof (induction uuid5 i w index seen xs arbitrary: cs rule: ground_from.induct)
  case (1 uuid5 i w index seen)
  then show ?case by simp
next
  case (2 uuid5 i w index seen x xs)
  from "2.prems" obtain c ds where c: "ground_one uuid5 i w index seen x = Inr c"
    and ds: "ground_from uuid5 i w (index + 1) (insert (claim_id c) seen) xs = Inr ds" and cs: "cs = c # ds"
    by (auto simp: rbind_Inr_iff)
  from "2.IH"[OF ds] have ih: "length ds = length xs" "distinct (map claim_id ds)"
    "claim_id ` set ds \<inter> insert (claim_id c) seen = {}"
    "\<forall>k < length xs. \<exists>n s. ground_one uuid5 i w n s (xs ! k) = Inr (ds ! k)" by auto
  have "\<exists>n s. ground_one uuid5 i w n s ((x # xs) ! k) = Inr ((c # ds) ! k)" if "k < length (x # xs)" for k
    using that c ih(4) by (cases k) auto
  with ih ground_one_Inr(12)[OF c] show ?case unfolding cs by auto
qed

lemma cited_all2:
  "\<forall>r \<in> set refs. usable_ref w role r \<Longrightarrow>
     list_all2 (\<lambda>r x. observed w (observation_id r) = Some x) refs (cited w refs)"
  by (induction refs) (auto simp: cited_def map_filter_simps usable_ref_def split: option.splits)

lemma sublist_join: "p \<in> set ps \<Longrightarrow> sublist p (join_with sep ps)"
proof (induction sep ps rule: join_with.induct)
  case (3 sep a b ps)
  have tail: "sublist (join_with sep (b # ps)) (a @ sep @ join_with sep (b # ps))"
    by (metis append.assoc sublist_appendI append_Nil2)
  show ?case
  proof (cases "p = a")
    case True
    then show ?thesis by simp
  next
    case False
    with "3.prems" "3.IH" have "sublist p (join_with sep (b # ps))" by auto
    with tail show ?thesis by (metis join_with.simps(3) sublist_order.order_trans)
  qed
qed auto

text \<open>
  What it means that a claim rests on its window: every span it cites is a distinct, non-blank piece of
  an observation of the window that was submitted as a target, all by one speaker; its original text is
  exactly those pieces, and its interval is the envelope of the cited observations.
\<close>

definition rests_on :: "observation_window \<Rightarrow> occurrence \<Rightarrow> claim \<Rightarrow> bool" where
  "rests_on w x c \<longleftrightarrow> (let refs = source_refs (occ_interpretation x); sources = cited w refs in
     claim_proposition c = occ_proposition x \<and> correction c = None \<and> occurrence_id c = claim_id c
   \<and> list_all2 (\<lambda>r o'. o' \<in> set (win_observations w) \<and> ob_id o' = observation_id r \<and> ob_role o' = TargetRole
        \<and> end_char r \<le> int (length (ob_text o')) \<and> py_strip (slice (ob_text o') (start_char r) (end_char r)) \<noteq> [])
        refs sources
   \<and> distinct (map ref_identity refs)
   \<and> original_text c = join_with [CHR 0x0A]
        (map2 (\<lambda>r o'. slice (ob_text o') (start_char r) (end_char r)) refs sources)
   \<and> length (original_text c) \<le> 2000 \<and> length (claim_proposition c) \<le> 2000
   \<and> (\<exists>speaker. \<forall>o' \<in> set sources. ob_speaker o' = speaker)
   \<and> (\<exists>o' \<in> set sources. start_ms (claim_interval c) = ob_start o')
   \<and> (\<exists>o' \<in> set sources. end_ms (claim_interval c) = ob_end o')
   \<and> (\<forall>o' \<in> set sources. start_ms (claim_interval c) \<le> ob_start o' \<and> ob_end o' \<le> end_ms (claim_interval c))
   \<and> (\<exists>k. claim_interpretation c = Some k \<and> source_refs k = refs
        \<and> (\<forall>r \<in> set (context_refs k). \<exists>o' \<in> set (win_observations w).
              ob_id o' = observation_id r \<and> ob_role o' = ContextRole)))"

lemma ground_one_rests:
  assumes "ground_one uuid5 i w n s x = Inr c" "occurrence_ok x"
  shows "rests_on w x c"
proof -
  let ?m = "occ_interpretation x"
  let ?refs = "source_refs ?m"
  let ?src = "cited w ?refs"
  note g = ground_one_Inr[OF assms(1)]
  have ne: "?refs \<noteq> []" using assms(2) by (simp add: occurrence_ok_def interpretation_ok_def)
  have all2: "list_all2 (\<lambda>r o'. observed w (observation_id r) = Some o') ?refs ?src"
    by (rule cited_all2[OF g(2)])
  then have src: "?src \<noteq> []" using ne by auto
  have facts: "list_all2 (\<lambda>r o'. o' \<in> set (win_observations w) \<and> ob_id o' = observation_id r \<and> ob_role o' = TargetRole
        \<and> end_char r \<le> int (length (ob_text o')) \<and> py_strip (slice (ob_text o') (start_char r) (end_char r)) \<noteq> [])
        ?refs ?src"
    by (rule list.rel_mono_strong[OF all2]) (use g(2) usable_refD in fastforce)
  have "map (ref_text w) ?refs = map2 (\<lambda>r o'. slice (ob_text o') (start_char r) (end_char r)) ?refs ?src"
    using all2 by (induction rule: list_all2_induct) (auto simp: ref_text_def)
  then have quoted: "original_text c = join_with [CHR 0x0A]
      (map2 (\<lambda>r o'. slice (ob_text o') (start_char r) (end_char r)) ?refs ?src)" using g(6) by simp
  obtain sp where "ob_speaker ` set ?src = {sp}" using g(5) by (metis card_1_singletonE)
  then have speaker: "\<exists>sp. \<forall>o' \<in> set ?src. ob_speaker o' = sp" by blast
  let ?S = "ob_start ` set ?src" and ?E = "ob_end ` set ?src"
  have S: "Min ?S \<in> ?S" "\<And>y. y \<in> ?S \<Longrightarrow> Min ?S \<le> y" using src by (auto intro: Min_in)
  have E: "Max ?E \<in> ?E" "\<And>y. y \<in> ?E \<Longrightarrow> y \<le> Max ?E" using src by (auto intro: Max_in)
  have iv: "start_ms (claim_interval c) = Min ?S" "end_ms (claim_interval c) = Max ?E" using g(14) by simp_all
  have ctx: "\<exists>o' \<in> set (win_observations w). ob_id o' = observation_id r \<and> ob_role o' = ContextRole"
    if "r \<in> set (kept_context w (context_refs ?m))" for r
    using g(4) that usable_refD by blast
  show ?thesis
    unfolding rests_on_def Let_def iv
    using facts quoted speaker S E g(1,3,7,8,9,10,13) ctx by (auto simp: MAX_CLAIM_TEXT_def)
qed

section \<open>What a publication adds\<close>

lemma running_stage_tables [frame_simps]:
  "report_versions (running_stage now stage i d) = report_versions d"
  "jobs (running_stage now stage i d) = jobs d"
  "extraction_runs (running_stage now stage i d) = extraction_runs d"
  "capture_sessions (running_stage now stage i d) = capture_sessions d"
  by (simp_all add: running_stage_def)

lemma cumulative_set:
  "set (cumulative_claims previous cs) = (case previous of None \<Rightarrow> set cs
     | Some r \<Rightarrow> set (claims r) \<union> {c \<in> set cs. occurrence_id c \<notin> occurrence_id ` set (claims r)})"
  by (auto simp: cumulative_claims_def split: option.split)

lemma cumulative_sorted: "sorted (map claim_position (cumulative_claims previous cs))"
  by (simp add: cumulative_claims_def)

lemma distinct_map_sort_key: "distinct (map f (sort_key k xs)) = distinct (map f xs)"
  by (simp add: distinct_map)

lemma cumulative_distinct:
  assumes "distinct (map occurrence_id cs)"
    and "\<And>r. previous = Some r \<Longrightarrow> distinct (map occurrence_id (claims r))"
  shows "distinct (map occurrence_id (cumulative_claims previous cs))"
proof (cases previous)
  case (Some r)
  have "distinct (map occurrence_id (claims r @ filter (\<lambda>c. occurrence_id c \<notin> occurrence_id ` set (claims r)) cs))"
    using assms(1) assms(2)[OF Some] by (simp only: map_append distinct_append distinct_map_filter) (fastforce simp: image_iff)
  then show ?thesis by (simp add: cumulative_claims_def Some distinct_map_sort_key del: map_append)
qed (simp add: cumulative_claims_def distinct_map_sort_key assms(1))

lemma publish_extraction_Inr:
  assumes "publish_extraction c new_id i True cs provenance d = Inr e"
  defines "previous \<equiv> latest_report i d"
  shows "\<exists>row. report_versions e = report_versions d @ [row] \<and> rep_investigation row = i
      \<and> claims (rep_payload row) = cumulative_claims previous cs
      \<and> evidences (rep_payload row) = (case previous of None \<Rightarrow> [] | Some r \<Rightarrow> evidences r)
      \<and> map (\<lambda>a. a\<lparr>assessment_version := 0\<rparr>) (assessments (rep_payload row))
          = (case previous of None \<Rightarrow> [] | Some r \<Rightarrow> map (\<lambda>a. a\<lparr>assessment_version := 0\<rparr>) (assessments r))
      \<and> report_provisional (rep_payload row) \<and> reconciliation (rep_payload row) = None
      \<and> processing_attempts (rep_payload row) = Some (attempts_of previous @ provenance)
      \<and> jobs e = jobs d"
    and "\<And>r. previous = Some r \<Longrightarrow> \<not> finalized r"
proof -
  let ?published = "cumulative_claims previous cs"
  have a: "publish_extraction c new_id i True cs provenance d = (
      if (case previous of None \<Rightarrow> False | Some r \<Rightarrow> finalized r)
      then Inl (PublishRejected ''incremental report was finalized'')
      else (case publish_report_version new_id (wall c) i
              (extraction_version i True previous ?published (attempts_of previous @ provenance))
              (case previous of None \<Rightarrow> False | Some r \<Rightarrow> report_fixture r) d of
            Inl f \<Rightarrow> Inl (raised f) | Inr (_, e) \<Rightarrow> Inr (running_stage (tx_now c) EXTRACTION_STAGE i e)))"
    by (simp add: publish_extraction_def Let_def previous_def)
  then show "\<not> finalized r" if "previous = Some r" for r
    using assms(1) that by (auto split: if_splits)
  from a assms(1) obtain r f where p: "publish_report_version new_id (wall c) i
        (extraction_version i True previous ?published (attempts_of previous @ provenance))
        (case previous of None \<Rightarrow> False | Some r \<Rightarrow> report_fixture r) d = Inr (r, f)"
    and e: "e = running_stage (tx_now c) EXTRACTION_STAGE i f"
    by (auto split: if_splits sum.splits)
  from publish_report_Inr[OF p] obtain row where row: "report_versions f = report_versions d @ [row]"
      "rep_investigation row = i" "rep_payload row = r" "f = d\<lparr>report_versions := report_versions f\<rparr>"
    and built: "\<exists>built. extraction_version i True previous ?published (attempts_of previous @ provenance)
        (next_identity new_id (wall c) i (newest_row i (report_versions d))) = Inr built
        \<and> r = built\<lparr>report_fixture := (case previous of None \<Rightarrow> False | Some r \<Rightarrow> report_fixture r)\<rparr>"
    by blast
  have j: "jobs f = jobs d" using row(4) by (metis db.select_convs(1) db.surjective db.update_convs(11))
  show "\<exists>row. report_versions e = report_versions d @ [row] \<and> rep_investigation row = i
      \<and> claims (rep_payload row) = ?published
      \<and> evidences (rep_payload row) = (case previous of None \<Rightarrow> [] | Some r \<Rightarrow> evidences r)
      \<and> map (\<lambda>a. a\<lparr>assessment_version := 0\<rparr>) (assessments (rep_payload row))
          = (case previous of None \<Rightarrow> [] | Some r \<Rightarrow> map (\<lambda>a. a\<lparr>assessment_version := 0\<rparr>) (assessments r))
      \<and> report_provisional (rep_payload row) \<and> reconciliation (rep_payload row) = None
      \<and> processing_attempts (rep_payload row) = Some (attempts_of previous @ provenance)
      \<and> jobs e = jobs d"
    by (rule exI[of _ row])
      (use row(1-3) built j in \<open>auto simp: e frame_simps extraction_version_def split: option.split\<close>)
qed

section \<open>Properties\<close>

text \<open>C12: Extracted claims are grounded. Whatever occurrences a model returns for a window, the claims
  that are accepted answer them one for one under distinct identifiers, and each claim rests on the
  window: its original text is exactly the non-blank spans it cites of observations submitted as
  targets, each span once and all of one speaker; its interval is the envelope of those observations;
  its context citations name context observations only.\<close>

theorem extraction_grounded:
  assumes "grounded_claims uuid5 i w occurrences = Inr cs" "list_all occurrence_ok occurrences"
  shows "length cs = length occurrences \<and> distinct (map claim_id cs)
    \<and> (\<forall>k < length occurrences. rests_on w (occurrences ! k) (cs ! k))"
proof -
  have g: "ground_from uuid5 i w 0 {} occurrences = Inr cs"
    using assms(1) by (simp add: grounded_claims_def split: if_splits)
  show ?thesis
    using ground_from_Inr[OF g] ground_one_rests assms(2) by (metis list_all_length)
qed

definition ex_obs :: "string \<Rightarrow> obs_role \<Rightarrow> string \<Rightarrow> int \<Rightarrow> observation" where
  "ex_obs i role t n = \<lparr>ob_id = i, ob_role = role, ob_text = t, ob_modality = Speech, ob_timebase = MediaTime,
     ob_start = n, ob_end = n + 1000, ob_speaker = None\<rparr>"

definition ex_window :: observation_window where
  "ex_window = \<lparr>win_id = ''w'', win_hosted = True, win_groq = False,
     win_observations = [ex_obs ''a'' TargetRole ''ice floats'' 0, ex_obs ''b'' ContextRole ''on water'' 1000]\<rparr>"

definition ex_ref :: "string \<Rightarrow> int \<Rightarrow> int \<Rightarrow> source_ref" where
  "ex_ref i a b = \<lparr>observation_id = i, start_char = a, end_char = b\<rparr>"

definition ex_occurrence :: occurrence where
  "ex_occurrence = \<lparr>occ_interpretation = \<lparr>taxonomy = TaxEmpirical, source_refs = [ex_ref ''a'' 0 10],
     context_refs = [ex_ref ''b'' 0 8, ex_ref ''a'' 0 3], assertion_mode = Asserted, speaker_commitment = Endorsed,
     attributed_to = None, eligibility_reason = FactualClaim, uncertainty_flags = []\<rparr>,
     occ_proposition = ''Ice floats on water''\<rparr>"

definition ex_claims :: "claim list" where
  "ex_claims = [\<lparr>claim_id = str_uuid 7, occurrence_id = str_uuid 7,
     claim_interval = \<lparr>start_ms = 0, end_ms = 1000, timebase = MediaTime\<rparr>, claim_modality = Speech,
     original_text = ''ice floats'', claim_proposition = ''Ice floats on water'', correction = None,
     claim_interpretation = Some ((occ_interpretation ex_occurrence)\<lparr>context_refs := [ex_ref ''b'' 0 8]\<rparr>),
     corrects_occurrence_id = None, superseded_by_occurrence_id = None\<rparr>]"

lemma ex_grounded: "grounded_claims (\<lambda>_ _. 7) 1 ex_window [ex_occurrence] = Inr ex_claims"
  by code_simp

lemma ex_occurrence_ok: "occurrence_ok ex_occurrence"
  by code_simp

theorem extraction_grounded_witness: "rests_on ex_window ex_occurrence (hd ex_claims)"
  using extraction_grounded[OF ex_grounded] ex_occurrence_ok by (simp add: ex_claims_def)

text \<open>C13: Incremental extraction only accumulates. A publication under the incremental flag happens only
  while the newest version is neither final nor reconciled; the new version keeps every claim, all
  evidence and every assessment of it, adds exactly the claims of occurrences it does not have, in
  order of time, and never lists an occurrence twice.\<close>

theorem extraction_accumulates:
  assumes "publish_extraction c new_id i True cs provenance d = Inr e" "distinct (map occurrence_id cs)"
    and "latest_report i d = Some r" "distinct (map occurrence_id (claims r))"
  shows "\<exists>row. report_versions e = report_versions d @ [row] \<and> rep_investigation row = i
    \<and> set (claims (rep_payload row)) = set (claims r) \<union> {x \<in> set cs. occurrence_id x \<notin> occurrence_id ` set (claims r)}
    \<and> distinct (map occurrence_id (claims (rep_payload row)))
    \<and> sorted (map claim_position (claims (rep_payload row)))
    \<and> evidences (rep_payload row) = evidences r
    \<and> map (\<lambda>a. a\<lparr>assessment_version := 0\<rparr>) (assessments (rep_payload row))
        = map (\<lambda>a. a\<lparr>assessment_version := 0\<rparr>) (assessments r)
    \<and> report_provisional (rep_payload row) \<and> reconciliation (rep_payload row) = None
    \<and> report_provisional r \<and> reconciliation r = None"
proof -
  note p = publish_extraction_Inr[OF assms(1)]
  have "\<not> finalized r" by (rule p(2)) (rule assms(3))
  moreover have "distinct (map occurrence_id (cumulative_claims (Some r) cs))"
    by (rule cumulative_distinct) (use assms(2,4) in auto)
  ultimately show ?thesis
    using p(1) cumulative_set[of "Some r" cs] cumulative_sorted[of "Some r" cs]
    by (auto simp: assms(3) finalized_def)
qed

definition ex_clk :: clk where
  "ex_clk = \<lparr>tx_now = 100, stmt_now = 100, wall = 100\<rparr>"

definition ex_inv_row :: investigation_row where
  "ex_inv_row = \<lparr>inv_id = 1, inv_owner = 2, inv_source_kind = ''upload'', inv_source_url = None,
     inv_upload = None, inv_declared_ms = None, inv_state = ''running'', inv_stage = ''asr'', inv_version = 1,
     inv_error_code = None, inv_created = 0, inv_updated = 0\<rparr>"

definition ex_first :: db where
  "ex_first = (case publish_extraction ex_clk 10 1 True ex_claims [] (empty_db\<lparr>investigations := [ex_inv_row]\<rparr>) of
     Inl _ \<Rightarrow> empty_db | Inr e \<Rightarrow> e)"

lemma ex_first_claims: "map_option claims (latest_report 1 ex_first) = Some ex_claims"
  by code_simp

lemma ex_second: "is_ok (publish_extraction ex_clk 11 1 True
    (map (\<lambda>c. c\<lparr>claim_id := ''z'', occurrence_id := ''z''\<rparr>) ex_claims) [] ex_first)"
  by code_simp

theorem extraction_accumulates_witness:
  "\<exists>(e::db) row. report_versions e = report_versions ex_first @ [row] \<and> set ex_claims \<subseteq> set (claims (rep_payload row))"
proof -
  from ex_second obtain e where e: "publish_extraction ex_clk 11 1 True
    (map (\<lambda>c. c\<lparr>claim_id := ''z'', occurrence_id := ''z''\<rparr>) ex_claims) [] ex_first = Inr e"
    by (auto simp: is_ok_def split: sum.splits)
  from ex_first_claims obtain r where r: "latest_report 1 ex_first = Some r" "claims r = ex_claims" by auto
  have d: "distinct (map occurrence_id (map (\<lambda>c. c\<lparr>claim_id := ''z'', occurrence_id := ''z''\<rparr>) ex_claims))"
    "distinct (map occurrence_id (claims r))"
    unfolding r(2) by code_simp+
  from extraction_accumulates[OF e d(1) r(1) d(2)] obtain row where
      "report_versions e = report_versions ex_first @ [row]" "set ex_claims \<subseteq> set (claims (rep_payload row))"
    unfolding r(2) by (elim exE conjE) (rule that, assumption, simp)
  then show ?thesis by (intro exI[of _ e] exI[of _ row] conjI)
qed

end
