(* ===== verification/Incremental.thy ===== *)
theory Incremental
  imports ClaimExtraction ProviderBudgets
begin

text \<open>
  Observation admission and the extraction ledger, \<open>backend/services/pipeline/incremental.py\<close>:
  stable observations are accepted once, batched into overlapping windows and queued, and every
  provider request is booked against a budget that keeps a reserve for reconciliation. The batching
  loop is a partial function, so that ending is a theorem. The ledger is written once, at the end of
  the transaction that computed it. The lemmas show that batching ends, that every window it builds is
  valid, that a closed input is settled completely, and that the reserve is never spent.
\<close>

section \<open>Admission\<close>

definition led_id :: "ledger_entry \<Rightarrow> string" where
  "led_id e = ob_id (led_source e)"

definition led_text :: "ledger_entry \<Rightarrow> string" where
  "led_text e = ob_text (led_source e)"

definition is_target :: "ledger_entry \<Rightarrow> bool" where
  "is_target e \<longleftrightarrow> ob_role (led_source e) = TargetRole"

definition unadmitted_of :: "observation \<Rightarrow> string \<Rightarrow> unadmitted_item" where
  "unadmitted_of x reason = \<lparr>una_id = ob_id x, una_start = ob_start x, una_end = ob_end x,
     una_timebase = ob_timebase x, una_reason = reason\<rparr>"

definition refusal :: "extraction_policy \<Rightarrow> bool \<Rightarrow> bool \<Rightarrow> ledger_entry list \<Rightarrow> string option" where
  "refusal policy shut final existing =
     (if shut \<or> final then Some ''input_closed''
      else if int (length existing) \<ge> pol_max_observations policy then Some ''budget_exhausted'' else None)"

definition fresh_entry :: "observation \<Rightarrow> ledger_entry" where
  "fresh_entry x = \<lparr>led_source = x, led_job = None, led_windows = [], led_reason = None\<rparr>"

fun admit_all ::
    "extraction_policy \<Rightarrow> bool \<Rightarrow> bool \<Rightarrow> bool \<Rightarrow> observation list \<Rightarrow> ledger_entry list \<Rightarrow> unadmitted_item list
       \<Rightarrow> exn + ledger_entry list \<times> unadmitted_item list"
where
  "admit_all policy produced shut final [] existing unadmitted = Inr (existing, unadmitted)"
| "admit_all policy produced shut final (x # xs) existing unadmitted =
     (case fetch (\<lambda>e. led_id e = ob_id x) existing of
        Some e \<Rightarrow> if led_source e \<noteq> x then Inl non_retriable
                  else admit_all policy produced shut final xs existing unadmitted
      | None \<Rightarrow>
          if ob_id x \<in> una_id ` set unadmitted
          then admit_all policy produced shut final xs existing unadmitted
          else (case (produced, refusal policy shut final existing) of
             (True, Some reason) \<Rightarrow>
               admit_all policy produced shut final xs existing (unadmitted @ [unadmitted_of x reason])
           | _ \<Rightarrow>
               if shut then Inl non_retriable
               else admit_all policy produced shut final xs
                      (existing @ [fresh_entry x]) unadmitted))"

definition entry_position :: "ledger_entry \<Rightarrow> int \<times> int \<times> string" where
  "entry_position e = (ob_start (led_source e), ob_end (led_source e), led_id e)"

definition unadmitted_position :: "unadmitted_item \<Rightarrow> int \<times> int \<times> string" where
  "unadmitted_position u = (una_start u, una_end u, una_id u)"

section \<open>Batching\<close>

text \<open>The quotients are compared with 3/4 and 1/2, where the division of the code is exact enough.\<close>

definition pressure :: "extraction_ledger \<Rightarrow> uuid list \<Rightarrow> rat" where
  "pressure l wins = (let p = xl_policy l in
     max (of_int (max (xl_requests l) (int (length wins))) / of_int (pol_max_requests p - pol_reserved_requests p))
       (of_int (xl_tokens l) / of_int (pol_max_tokens p - pol_reserved_tokens p)))"

definition threshold :: "extraction_ledger \<Rightarrow> uuid list \<Rightarrow> nat" where
  "threshold l wins = (let x = pressure l wins in nat (min 64
     (pol_batch (xl_policy l) * (if x \<ge> 3 / 4 then 4 else if x \<ge> 1 / 2 then 2 else 1))))"

definition entry_chars :: "ledger_entry list \<Rightarrow> nat" where
  "entry_chars es = sum_list (map (\<lambda>e. length (led_text e)) es)"

text \<open>\<open>while overlap and ...: overlap.pop(0)\<close>\<close>

fun trim :: "nat \<Rightarrow> ledger_entry list \<Rightarrow> ledger_entry list" where
  "trim n [] = []"
| "trim n (e # es) = (if entry_chars (e # es) + n > MAX_WINDOW_CHARS then trim n es else e # es)"

fun fit :: "nat \<Rightarrow> ledger_entry list \<Rightarrow> ledger_entry list" where
  "fit n [] = []"
| "fit n (e # es) = (if n + length (led_text e) > MAX_WINDOW_CHARS then []
     else e # fit (n + length (led_text e)) es)"

fun first_target :: "ledger_entry list \<Rightarrow> nat option" where
  "first_target [] = None"
| "first_target (e # es) = (if is_target e then Some 0 else map_option Suc (first_target es))"

definition batch_size :: "nat \<Rightarrow> ledger_entry list \<Rightarrow> nat" where
  "batch_size n pending = min 64 (max n (case first_target pending of None \<Rightarrow> 1 | Some k \<Rightarrow> k + 1))"

definition overlap_before :: "extraction_ledger \<Rightarrow> ledger_entry list \<Rightarrow> ledger_entry \<Rightarrow> ledger_entry list" where
  "overlap_before l ordered p =
     (let before = filter (\<lambda>e. led_job e \<noteq> None) (takeWhile (\<lambda>e. e \<noteq> p) ordered)
      in trim (length (led_text p)) (drop (length before - nat (pol_overlap (xl_policy l))) before))"

datatype batch = Halt | Discard "ledger_entry list" | Window "ledger_entry list" "ledger_entry list"

definition next_batch :: "extraction_ledger \<Rightarrow> ledger_entry list \<Rightarrow> uuid list \<Rightarrow> ledger_entry list \<Rightarrow> batch" where
  "next_batch l ordered wins pending =
     (case pending of
        [] \<Rightarrow> Halt
      | p # _ \<Rightarrow>
          if length pending < threshold l wins \<and> \<not> xl_closed l then Halt
          else let overlap = overlap_before l ordered p;
                   selected = fit (entry_chars overlap) (take (batch_size (threshold l wins) pending) pending)
               in if \<not> list_ex is_target (overlap @ selected)
                  then if \<not> xl_closed l \<and> \<not> list_ex is_target (drop (length selected) pending) then Halt
                       else Discard selected
                  else Window overlap selected)"

definition window_of :: "extraction_ledger \<Rightarrow> uuid list \<Rightarrow> ledger_entry list \<Rightarrow> observation_window" where
  "window_of l wins es = \<lparr>win_id = ''incremental-v1-'' @ show_nat (length wins + 1),
     win_hosted = xl_hosted l, win_groq = xl_groq l, win_observations = map led_source es\<rparr>"

definition in_entries :: "ledger_entry list \<Rightarrow> ledger_entry \<Rightarrow> bool" where
  "in_entries es e \<longleftrightarrow> led_id e \<in> led_id ` set es"

definition mark_reason :: "ledger_entry list \<Rightarrow> ledger_entry list \<Rightarrow> ledger_entry list" where
  "mark_reason selected ordered = update_where (in_entries selected)
     (\<lambda>e. e\<lparr>led_reason := Some ''context_without_target''\<rparr>) ordered"

definition record_window :: "uuid \<Rightarrow> ledger_entry list \<Rightarrow> ledger_entry list \<Rightarrow> ledger_entry list \<Rightarrow> ledger_entry list" where
  "record_window j overlap selected ordered =
     update_where (in_entries selected) (\<lambda>e. e\<lparr>led_job := Some j\<rparr>)
       (update_where (in_entries (overlap @ selected)) (\<lambda>e. e\<lparr>led_windows := led_windows e @ [j]\<rparr>) ordered)"

record submit_env =
  su_sha :: "string \<Rightarrow> string"
  su_clk :: clk
  su_gen :: "nat \<Rightarrow> uuid"
  su_investigation :: uuid
  su_owner :: uuid

definition queue_window ::
    "submit_env \<Rightarrow> extraction_ledger \<Rightarrow> uuid list \<Rightarrow> ledger_entry list \<Rightarrow> db \<Rightarrow> exn + enqueued \<times> db"
where
  "queue_window env l wins es d =
     (if \<not> window_ok (window_of l wins es) then Inl ValueError
      else enqueue_extraction (su_sha env) (su_clk env) (su_gen env (length wins)) (su_investigation env)
             (su_owner env) (window_of l wins es) True d)"

partial_function (option) submit_loop ::
    "submit_env \<Rightarrow> extraction_ledger \<Rightarrow> ledger_entry list \<Rightarrow> uuid list \<Rightarrow> ledger_entry list \<Rightarrow> enqueued list \<Rightarrow> db
       \<Rightarrow> (exn + ledger_entry list \<times> uuid list \<times> enqueued list \<times> db) option"
where
  "submit_loop env l ordered wins pending results d =
     (case next_batch l ordered wins pending of
        Halt \<Rightarrow> Some (Inr (ordered, wins, results, d))
      | Discard selected \<Rightarrow>
          submit_loop env l (mark_reason selected ordered) wins (drop (length selected) pending) results d
      | Window overlap selected \<Rightarrow>
          (case queue_window env l wins (overlap @ selected) d of
             Inl x \<Rightarrow> Some (Inl x)
           | Inr (q, e) \<Rightarrow>
               submit_loop env l (record_window (enq_job_id q) overlap selected ordered)
                 (wins @ [enq_job_id q]) (drop (length selected) pending) (results @ [q]) e))"

section \<open>One submission\<close>

definition ledger_of :: "uuid \<Rightarrow> db \<Rightarrow> extraction_ledger option" where
  "ledger_of i d = map_option run_data (fetch (\<lambda>r. run_investigation r = i) (extraction_runs d))"

definition save_ledger :: "uuid \<Rightarrow> extraction_ledger \<Rightarrow> db \<Rightarrow> db" where
  "save_ledger i l d = d\<lparr>extraction_runs :=
     update_where (\<lambda>r. run_investigation r = i) (\<lambda>r. r\<lparr>run_data := l\<rparr>) (extraction_runs d)\<rparr>"

definition write_ledger :: "uuid \<Rightarrow> extraction_ledger \<Rightarrow> db \<Rightarrow> db" where
  "write_ledger i l d = (if ledger_of i d = None
     then d\<lparr>extraction_runs := extraction_runs d @ [\<lparr>run_investigation = i, run_data = l\<rparr>]\<rparr>
     else save_ledger i l d)"

record submission =
  sub_policy :: extraction_policy
  sub_observations :: "observation list"
  sub_closed :: bool
  sub_hosted :: bool
  sub_groq :: bool
  sub_producer :: "producer option"

definition new_ledger :: "submission \<Rightarrow> extraction_ledger" where
  "new_ledger s = \<lparr>xl_policy = sub_policy s, xl_hosted = sub_hosted s, xl_groq = sub_groq s,
     xl_producer = sub_producer s, xl_closed = False, xl_observations = [], xl_windows = [], xl_requests = 0,
     xl_tokens = 0, xl_unadmitted = [], xl_sealed = None\<rparr>"

definition config_changed :: "submission \<Rightarrow> extraction_ledger \<Rightarrow> bool" where
  "config_changed s l \<longleftrightarrow> xl_policy l \<noteq> sub_policy s \<or> xl_hosted l \<noteq> sub_hosted s \<or> xl_groq l \<noteq> sub_groq s
     \<or> (sub_producer s \<noteq> None \<and> xl_producer l \<noteq> sub_producer s)"

definition waiting :: "ledger_entry \<Rightarrow> bool" where
  "waiting e \<longleftrightarrow> led_job e = None \<and> (case led_reason e of None \<Rightarrow> True | Some r \<Rightarrow> r = [])"

definition final_report :: "uuid \<Rightarrow> db \<Rightarrow> bool" where
  "final_report i d = (case latest_report i d of None \<Rightarrow> False | Some r \<Rightarrow> finalized r)"

definition admitted :: "submission \<Rightarrow> bool \<Rightarrow> extraction_ledger \<Rightarrow> exn + extraction_ledger" where
  "admitted s final l =
     (if config_changed s l then Inl non_retriable
      else rbind (admit_all (sub_policy s) (sub_producer s \<noteq> None) (xl_closed l) final (sub_observations s)
                    (xl_observations l) (xl_unadmitted l)) (\<lambda>(existing, unadmitted).
        if int (length existing) > pol_max_observations (sub_policy s) then Inl non_retriable
        else if card (ob_timebase ` led_source ` set existing) > 1 then Inl non_retriable
        else Inr (l\<lparr>xl_observations := sort_key entry_position existing, xl_closed := xl_closed l \<or> sub_closed s,
               xl_unadmitted := sort_key unadmitted_position unadmitted\<rparr>)))"

definition submit_observations :: "submit_env \<Rightarrow> submission \<Rightarrow> db \<Rightarrow> (exn + enqueued list \<times> db) option" where
  "submit_observations env s d =
     (let i = su_investigation env; final = final_report i d in
      if \<not> lock_extraction_capture i d then Some (Inl non_retriable)
      else if \<not> owned_investigation i (su_owner env) d \<or> \<not> sub_hosted s then Some (Inl non_retriable)
      else if final \<and> sub_producer s = None then Some (Inl non_retriable)
      else (case admitted s final (case ledger_of i d of None \<Rightarrow> new_ledger s | Some l \<Rightarrow> l) of
          Inl x \<Rightarrow> Some (Inl x)
        | Inr l \<Rightarrow>
            (case submit_loop env l (xl_observations l) (xl_windows l)
                    (if final then [] else filter waiting (xl_observations l)) [] d of
               None \<Rightarrow> None
             | Some (Inl x) \<Rightarrow> Some (Inl x)
             | Some (Inr (ordered, wins, results, e)) \<Rightarrow>
                 Some (Inr (results, write_ledger i (l\<lparr>xl_observations := ordered, xl_windows := wins\<rparr>) e)))))"

section \<open>The request budget\<close>

definition budget_exceeded :: exn where
  "budget_exceeded = Retryable (Subclass ''ExtractionBudgetExceeded'' NonRetriableInput)"

definition over_budget :: "extraction_ledger \<Rightarrow> int \<Rightarrow> bool \<Rightarrow> bool" where
  "over_budget l tokens reserve = (let p = xl_policy l in
     xl_requests l + 1 > pol_max_requests p - (if reserve then 0 else pol_reserved_requests p)
     \<or> xl_tokens l + tokens > pol_max_tokens p - (if reserve then 0 else pol_reserved_tokens p))"

definition book :: "int \<Rightarrow> extraction_ledger \<Rightarrow> extraction_ledger" where
  "book tokens l = l\<lparr>xl_requests := xl_requests l + 1, xl_tokens := xl_tokens l + tokens\<rparr>"

definition record_request :: "uuid \<Rightarrow> int \<Rightarrow> int \<Rightarrow> bool \<Rightarrow> db \<Rightarrow> exn + db" where
  "record_request i input_bytes output_tokens reserve d =
     (case ledger_of i d of
        None \<Rightarrow> Inl (OtherError ''NoResultFound'')
      | Some l \<Rightarrow>
          let tokens = reserved_tokens input_bytes output_tokens in
          if \<not> policy_ok (xl_policy l) then Inl ValueError
          else if over_budget l tokens reserve then Inl budget_exceeded
          else Inr (save_ledger i (book tokens l) d))"

section \<open>Progress\<close>

datatype observation_status = ObsPending | ObsProcessed | ObsSkipped | ObsFailed

record observation_progress =
  opr_id :: string
  opr_start :: int
  opr_end :: int
  opr_timebase :: timebase
  opr_status :: observation_status
  opr_reason :: "string option"

record extraction_progress_view =
  epr_closed :: bool
  epr_requests_used :: int
  epr_tokens_reserved :: int
  epr_policy :: extraction_policy
  epr_observations :: "observation_progress list"

definition window_job :: "extraction_ledger \<Rightarrow> db \<Rightarrow> uuid \<Rightarrow> job_row option" where
  "window_job l d j = (if j \<in> set (xl_windows l) then job_of d j else None)"

fun ended_word :: "job_state \<Rightarrow> string option" where
  "ended_word FAILED = Some ''failed''"
| "ended_word CANCELLED = Some ''cancelled''"
| "ended_word DELETED = Some ''deleted''"
| "ended_word _ = None"

definition entry_status :: "extraction_ledger \<Rightarrow> db \<Rightarrow> bool \<Rightarrow> ledger_entry \<Rightarrow> observation_status \<times> string option" where
  "entry_status l d stopped e =
     (let processed = list_ex (\<lambda>j. case window_job l d j of None \<Rightarrow> False | Some r \<Rightarrow> job_state r = PUBLISHED) (led_windows e)
      in if processed then (ObsProcessed, None)
         else if stopped then (ObsSkipped, Some ''cancelled'')
         else if led_reason e \<notin> {None, Some []} then (ObsSkipped, led_reason e)
         else (case led_job e of
             None \<Rightarrow> (ObsPending, None)
           | Some j \<Rightarrow>
               (case window_job l d j of
                  None \<Rightarrow> (ObsSkipped, Some ''job_unavailable'')
                | Some r \<Rightarrow>
                    (case ended_word (job_state r) of
                       None \<Rightarrow> (ObsPending, None)
                     | Some word \<Rightarrow>
                         if job_failure r = Some ''ExtractionBudgetExceeded''
                         then (ObsSkipped, Some ''budget_exhausted'')
                         else if job_state r = FAILED
                         then (ObsFailed, Some (extraction_failure_code (job_failure r)))
                         else (ObsSkipped, Some word)))))"

definition entry_progress :: "extraction_ledger \<Rightarrow> db \<Rightarrow> bool \<Rightarrow> ledger_entry \<Rightarrow> observation_progress" where
  "entry_progress l d stopped e = (let x = led_source e; s = entry_status l d stopped e in
     \<lparr>opr_id = ob_id x, opr_start = ob_start x, opr_end = ob_end x, opr_timebase = ob_timebase x,
      opr_status = fst s, opr_reason = snd s\<rparr>)"

definition unadmitted_progress :: "unadmitted_item \<Rightarrow> observation_progress" where
  "unadmitted_progress u = \<lparr>opr_id = una_id u, opr_start = una_start u, opr_end = una_end u,
     opr_timebase = una_timebase u, opr_status = ObsSkipped, opr_reason = Some (una_reason u)\<rparr>"

definition progress_position :: "observation_progress \<Rightarrow> int \<times> int \<times> string" where
  "progress_position x = (opr_start x, opr_end x, opr_id x)"

definition extraction_progress :: "uuid \<Rightarrow> db \<Rightarrow> extraction_progress_view option" where
  "extraction_progress i d =
     (case ledger_of i d of
        None \<Rightarrow> None
      | Some l \<Rightarrow>
          if xl_observations l = [] \<and> xl_unadmitted l = [] then None
          else let stopped = \<not> lock_extraction_capture i d
               in Some \<lparr>epr_closed = xl_closed l \<or> stopped, epr_requests_used = xl_requests l,
                   epr_tokens_reserved = xl_tokens l, epr_policy = xl_policy l,
                   epr_observations = sort_key progress_position
                     (map (entry_progress l d stopped) (xl_observations l)
                      @ map unadmitted_progress (xl_unadmitted l))\<rparr>)"

section \<open>What a batch is made of\<close>

lemma entry_chars_simps [simp]:
  "entry_chars [] = 0"
  "entry_chars (e # es) = length (led_text e) + entry_chars es"
  "entry_chars (es @ fs) = entry_chars es + entry_chars fs"
  by (simp_all add: entry_chars_def)

lemma characters_entries: "characters (map led_source es) = entry_chars es"
  by (induction es) (simp_all add: led_text_def)

lemma trim_suffix: "suffix (trim n es) es"
  by (induction n es rule: trim.induct) (auto intro: suffix_ConsI)

lemma trim_fits: "trim n es = [] \<or> entry_chars (trim n es) + n \<le> MAX_WINDOW_CHARS"
  by (induction n es rule: trim.induct) auto

lemma fit_prefix: "prefix (fit n es) es"
  by (induction n es rule: fit.induct) auto

lemma fit_fits: "n \<le> MAX_WINDOW_CHARS \<Longrightarrow> n + entry_chars (fit n es) \<le> MAX_WINDOW_CHARS"
  by (induction n es rule: fit.induct) auto

definition jobbed :: "ledger_entry list \<Rightarrow> string set" where
  "jobbed es = led_id ` {e \<in> set es. led_job e \<noteq> None}"

lemma jobbed_le: "card (jobbed es) \<le> length es"
proof -
  have "card (jobbed es) \<le> card (led_id ` set es)" by (rule card_mono) (auto simp: jobbed_def)
  also have "\<dots> \<le> length es" by (metis card_length length_map list.set_map)
  finally show ?thesis .
qed

text \<open>The state of the loop: what is pending is a waiting part of the ledger.\<close>

definition entries_ok :: "ledger_entry list \<Rightarrow> bool" where
  "entries_ok es \<longleftrightarrow> distinct (map led_id es) \<and> (\<forall>e \<in> set es. observation_ok (led_source e))
     \<and> (\<forall>e \<in> set es. \<forall>f \<in> set es. ob_timebase (led_source e) = ob_timebase (led_source f))
     \<and> length es \<le> 4096"

definition loop_ok :: "extraction_ledger \<Rightarrow> ledger_entry list \<Rightarrow> uuid list \<Rightarrow> ledger_entry list \<Rightarrow> bool" where
  "loop_ok l ordered wins pending \<longleftrightarrow> policy_ok (xl_policy l) \<and> entries_ok ordered
     \<and> set pending \<subseteq> set ordered \<and> distinct (map led_id pending) \<and> (\<forall>e \<in> set pending. waiting e)
     \<and> length wins \<le> card (jobbed ordered)"

lemma entries_same: "entries_ok es \<Longrightarrow> e \<in> set es \<Longrightarrow> f \<in> set es \<Longrightarrow> led_id e = led_id f \<Longrightarrow> e = f"
  by (auto simp: entries_ok_def distinct_map dest: inj_onD)

lemma threshold_pos:
  assumes "policy_ok (xl_policy l)"
  shows "1 \<le> threshold l wins" "threshold l wins \<le> 64"
  using assms by (auto simp: threshold_def Let_def policy_ok_def)

lemma batch_size_bounds: "1 \<le> batch_size n es" "batch_size n es \<le> 64"
  by (auto simp: batch_size_def split: option.split)

text \<open>The overlap and the selection of a batch.\<close>

definition is_batch :: "extraction_ledger \<Rightarrow> ledger_entry list \<Rightarrow> ledger_entry list \<Rightarrow> ledger_entry list \<Rightarrow> ledger_entry list \<Rightarrow> bool" where
  "is_batch l ordered pending overlap selected \<longleftrightarrow> prefix selected pending \<and> selected \<noteq> []
     \<and> length selected \<le> 64 \<and> length overlap \<le> 32 \<and> set overlap \<subseteq> {e \<in> set ordered. led_job e \<noteq> None}
     \<and> distinct (map led_id (overlap @ selected)) \<and> entry_chars (overlap @ selected) \<le> MAX_WINDOW_CHARS"

lemma suffix_lemmas:
  "suffix xs ys \<Longrightarrow> set xs \<subseteq> set ys" "suffix xs ys \<Longrightarrow> length xs \<le> length ys"
  "suffix xs ys \<Longrightarrow> distinct (map f ys) \<Longrightarrow> distinct (map f xs)"
  by (auto simp: suffix_def)

lemma overlap_before_facts:
  fixes p
  assumes "entries_ok ordered" "policy_ok (xl_policy l)"
  defines "v \<equiv> overlap_before l ordered p"
  shows "set v \<subseteq> {e \<in> set ordered. led_job e \<noteq> None}" "length v \<le> 32" "distinct (map led_id v)"
    "v = [] \<or> entry_chars v + length (led_text p) \<le> MAX_WINDOW_CHARS"
proof -
  let ?before = "filter (\<lambda>e. led_job e \<noteq> None) (takeWhile (\<lambda>e. e \<noteq> p) ordered)"
  let ?last = "drop (length ?before - nat (pol_overlap (xl_policy l))) ?before"
  have v: "v = trim (length (led_text p)) ?last" by (simp add: v_def overlap_before_def Let_def)
  have suf: "suffix v ?last" unfolding v by (rule trim_suffix)
  have "suffix ?last ?before" by (rule suffix_drop)
  with suf have suf2: "suffix v ?before" by (rule suffix_order.order_trans)
  have sub: "set ?before \<subseteq> {e \<in> set ordered. led_job e \<noteq> None}" by (auto dest: set_takeWhileD)
  show "set v \<subseteq> {e \<in> set ordered. led_job e \<noteq> None}" using suffix_lemmas(1)[OF suf2] sub by blast
  have "length ?last \<le> nat (pol_overlap (xl_policy l))" by simp
  also have "\<dots> \<le> 32" using assms(2) unfolding policy_ok_def by linarith
  finally show "length v \<le> 32" using suffix_lemmas(2)[OF suf] by simp
  have "distinct (map led_id (takeWhile (\<lambda>e. e \<noteq> p) ordered))"
    using assms(1) by (metis entries_ok_def distinct_takeWhile distinct_map inj_on_subset set_takeWhileD subsetI)
  then have "distinct (map led_id ?before)" by (rule distinct_map_filter)
  then show "distinct (map led_id v)" by (rule suffix_lemmas(3)[OF suf2])
  show "v = [] \<or> entry_chars v + length (led_text p) \<le> MAX_WINDOW_CHARS" unfolding v by (rule trim_fits)
qed

lemma batch_facts:
  fixes p ps
  assumes ok: "loop_ok l ordered wins (p # ps)"
  defines "v \<equiv> overlap_before l ordered p"
  defines "sel \<equiv> fit (entry_chars v) (take (batch_size (threshold l wins) (p # ps)) (p # ps))"
  shows "is_batch l ordered (p # ps) v sel"
proof -
  have e: "entries_ok ordered" "policy_ok (xl_policy l)" "set (p # ps) \<subseteq> set ordered"
    "distinct (map led_id (p # ps))" "\<forall>e \<in> set (p # ps). waiting e"
    using ok by (simp_all add: loop_ok_def)
  note o = overlap_before_facts[OF e(1,2), of p, folded v_def]
  let ?b = "batch_size (threshold l wins) (p # ps)"
  have "length (led_text p) \<le> 8000" using e(1,3) by (auto simp: entries_ok_def observation_ok_def led_text_def)
  then have fits: "entry_chars v + length (led_text p) \<le> MAX_WINDOW_CHARS"
    using o(4) by (auto simp: MAX_WINDOW_CHARS_def)
  obtain k where "?b = Suc k" using batch_size_bounds(1)[of "threshold l wins" "p # ps"] by (cases ?b) auto
  then have ne: "sel \<noteq> []" using fits by (simp add: sel_def)
  have pre: "prefix sel (take ?b (p # ps))" unfolding sel_def by (rule fit_prefix)
  then have pre2: "prefix sel (p # ps)" by (meson prefix_order.order_trans take_is_prefix)
  have len: "length sel \<le> 64"
    using prefix_length_le[OF pre] batch_size_bounds(2)[of "threshold l wins" "p # ps"] by simp
  have chars: "entry_chars (v @ sel) \<le> MAX_WINDOW_CHARS"
    using fit_fits[of "entry_chars v"] fits by (simp add: sel_def)
  have sub: "set sel \<subseteq> set (p # ps)" by (rule set_mono_prefix[OF pre2])
  have dsel: "distinct (map led_id sel)" using e(4) pre2 by (metis distinct_append map_append prefix_def)
  have "led_id ` set v \<inter> led_id ` set sel = {}"
  proof (rule ccontr)
    assume "led_id ` set v \<inter> led_id ` set sel \<noteq> {}"
    then obtain a b where ab: "a \<in> set v" "b \<in> set sel" "led_id a = led_id b" by auto
    then have "a = b" using o(1) sub e(3) by (intro entries_same[OF e(1)]) auto
    moreover have "led_job a \<noteq> None" using o(1) ab(1) by blast
    moreover have "led_job b = None" using sub e(5) ab(2) by (auto simp: waiting_def)
    ultimately show False by simp
  qed
  then show ?thesis using pre2 ne len o(1,2,3) dsel chars by (auto simp: is_batch_def)
qed

lemma next_batch_cases:
  assumes ok: "loop_ok l ordered wins pending"
  shows "next_batch l ordered wins pending = Discard sel \<Longrightarrow> \<exists>v. is_batch l ordered pending v sel"
    "next_batch l ordered wins pending = Window v sel \<Longrightarrow>
       is_batch l ordered pending v sel \<and> list_ex is_target (v @ sel)"
    "next_batch l ordered wins pending = Halt \<Longrightarrow> xl_closed l \<Longrightarrow> pending = []"
proof -
  have b: "is_batch l ordered pending (overlap_before l ordered p)
      (fit (entry_chars (overlap_before l ordered p)) (take (batch_size (threshold l wins) pending) pending))"
    if "pending = p # ps" for p ps
    using batch_facts ok that by blast
  show "\<exists>v. is_batch l ordered pending v sel" if "next_batch l ordered wins pending = Discard sel"
    using that b by (auto simp: next_batch_def Let_def split: list.splits if_splits)
  show "is_batch l ordered pending v sel \<and> list_ex is_target (v @ sel)"
    if "next_batch l ordered wins pending = Window v sel"
    using that b by (auto simp: next_batch_def Let_def split: list.splits if_splits)
  show "pending = []" if "next_batch l ordered wins pending = Halt" "xl_closed l"
    using that by (auto simp: next_batch_def Let_def split: list.splits if_splits)
qed

section \<open>Every window is valid\<close>

lemma length_show_nat: "n < 10 ^ k \<Longrightarrow> 0 < k \<Longrightarrow> length (show_nat n) \<le> k"
proof (induction n arbitrary: k rule: show_nat.induct)
  case (1 n)
  show ?case
  proof (cases "n < 10")
    case True
    with 1 show ?thesis by (simp add: show_nat.simps)
  next
    case False
    with "1.prems" obtain m where m: "k = Suc m" "0 < m" by (cases k; cases "k - 1") auto
    have "n div 10 < 10 ^ m" using "1.prems"(1) m(1) by (simp add: less_mult_imp_div_less mult.commute)
    with 1 False m show ?thesis by (simp add: show_nat.simps)
  qed
qed

lemma window_valid:
  assumes "loop_ok l ordered wins pending" "is_batch l ordered pending v sel" "list_ex is_target (v @ sel)"
  shows "window_ok (window_of l wins (v @ sel))"
proof -
  have e: "entries_ok ordered" "set pending \<subseteq> set ordered" "length wins \<le> card (jobbed ordered)"
    using assms(1) by (auto simp: loop_ok_def)
  have b: "prefix sel pending" "sel \<noteq> []" "length sel \<le> 64" "length v \<le> 32" "set v \<subseteq> set ordered"
    "distinct (map led_id (v @ sel))" "entry_chars (v @ sel) \<le> MAX_WINDOW_CHARS"
    using assms(2) by (auto simp: is_batch_def)
  have sub: "set (v @ sel) \<subseteq> set ordered" using b(5) e(2) set_mono_prefix[OF b(1)] by auto
  have "length wins \<le> 4096" using e(1,3) jobbed_le[of ordered] by (simp add: entries_ok_def)
  then have "length (show_nat (length wins + 1)) \<le> 4" by (intro length_show_nat) auto
  then have name: "named (win_id (window_of l wins (v @ sel)))"
    by (simp add: named_def window_of_def text_ok_def is_space_def cval_def)
  have ok: "list_all observation_ok (map led_source (v @ sel))"
    using e(1) sub by (auto simp: entries_ok_def list_all_iff)
  have "ob_timebase ` led_source ` set (v @ sel) = {ob_timebase (led_source (hd sel))}"
  proof -
    have "hd sel \<in> set (v @ sel)" using b(2) by simp
    moreover have "ob_timebase (led_source x) = ob_timebase (led_source y)" if "x \<in> set (v @ sel)" "y \<in> set (v @ sel)" for x y
      using e(1) sub that by (meson entries_ok_def subsetD)
    ultimately show ?thesis by blast
  qed
  then have tb: "card (ob_timebase ` set (map led_source (v @ sel))) = 1" by (simp only: set_map) simp
  have ids: "distinct (map ob_id (map led_source (v @ sel)))"
    using b(6) unfolding led_id_def[abs_def] by (simp only: map_map comp_def)
  have target: "list_ex (\<lambda>x. ob_role x = TargetRole) (map led_source (v @ sel))"
    using assms(3) by (auto simp: list_ex_iff is_target_def)
  have len: "1 \<le> length (v @ sel)" "length (v @ sel) \<le> 128" using b(2,3,4) by (auto simp: Suc_le_eq)
  have chars: "\<not> characters (map led_source (v @ sel)) > MAX_WINDOW_CHARS"
    using b(7) by (simp only: characters_entries not_less)
  show ?thesis
    unfolding window_ok_def using name ok tb ids target len chars by (simp add: window_of_def del: map_append)
qed

section \<open>One round of batching\<close>

lemma entries_ok_sources:
  "entries_ok es \<longleftrightarrow> (let xs = map led_source es in distinct (map ob_id xs) \<and> (\<forall>x \<in> set xs. observation_ok x)
     \<and> (\<forall>x \<in> set xs. \<forall>y \<in> set xs. ob_timebase x = ob_timebase y) \<and> length xs \<le> 4096)"
  by (simp add: entries_ok_def led_id_def[abs_def] comp_def)

lemma map_source_update:
  "(\<And>e. led_source (f e) = led_source e) \<Longrightarrow> map led_source (update_where p f es) = map led_source es"
  by (simp add: update_where_def)

lemma marked_sources [simp]: "map led_source (mark_reason sel es) = map led_source es"
  by (simp add: mark_reason_def map_source_update)

lemma recorded_sources [simp]: "map led_source (record_window j v sel es) = map led_source es"
  by (simp add: record_window_def map_source_update)

lemma same_sources: "map led_source es = map led_source fs \<Longrightarrow> entries_ok es \<longleftrightarrow> entries_ok fs"
  by (simp add: entries_ok_sources Let_def)

lemma rest_untouched:
  assumes "loop_ok l ordered wins pending" "is_batch l ordered pending v sel"
    "e \<in> set (drop (length sel) pending)"
  shows "\<not> in_entries sel e" "\<not> in_entries v e" "e \<in> set ordered"
proof -
  obtain ps where ps: "pending = sel @ ps" using assms(2) by (auto simp: is_batch_def prefix_def)
  then have e: "e \<in> set ps" using assms(3) by simp
  then show "\<not> in_entries sel e"
    using assms(1) by (auto simp: loop_ok_def ps in_entries_def)
  show o: "e \<in> set ordered" using assms(1) e by (auto simp: loop_ok_def ps)
  show "\<not> in_entries v e"
  proof
    assume "in_entries v e"
    then obtain f where f: "f \<in> set v" "led_id f = led_id e" by (auto simp: in_entries_def)
    then have "f \<in> set ordered" "led_job f \<noteq> None" using assms(2) by (auto simp: is_batch_def)
    moreover have "f = e" by (rule entries_same[OF _ _ o f(2)]) (use assms(1) calculation in \<open>auto simp: loop_ok_def\<close>)
    ultimately show False using assms(1) e by (auto simp: loop_ok_def ps waiting_def)
  qed
qed

lemma in_update_other: "e \<in> set t \<Longrightarrow> \<not> p e \<Longrightarrow> e \<in> set (update_where p f t)"
  by (auto simp: set_update_where)

lemma pending_rest:
  assumes "loop_ok l ordered wins pending"
  shows "distinct (map led_id (drop n pending))" "\<forall>e \<in> set (drop n pending). waiting e"
  using assms by (auto simp: loop_ok_def drop_map[symmetric] dest: in_set_dropD)

definition marked :: "ledger_entry list \<Rightarrow> ledger_entry \<Rightarrow> ledger_entry" where
  "marked sel e = (if in_entries sel e then e\<lparr>led_reason := Some ''context_without_target''\<rparr> else e)"

lemma marked_fields [simp]:
  "led_source (marked sel e) = led_source e"
  "led_id (marked sel e) = led_id e"
  "led_job (marked sel e) = led_job e"
  "led_windows (marked sel e) = led_windows e"
  "led_reason (marked sel e) = (if in_entries sel e then Some ''context_without_target'' else led_reason e)"
  by (simp_all add: marked_def led_id_def)

lemma mark_reason_map: "mark_reason sel es = map (marked sel) es"
  by (simp add: mark_reason_def update_where_def marked_def)

lemma jobbed_map:
  assumes "\<And>e. led_id (f e) = led_id e"
  shows "jobbed (map f es) = led_id ` {e \<in> set es. led_job (f e) \<noteq> None}"
proof -
  have "{e \<in> set (map f es). led_job e \<noteq> None} = f ` {e \<in> set es. led_job (f e) \<noteq> None}" by auto
  then show ?thesis by (simp add: jobbed_def image_image assms)
qed

lemma marked_jobs: "jobbed (mark_reason sel es) = jobbed es"
  by (simp only: mark_reason_map jobbed_map marked_fields) (simp add: jobbed_def)

lemma mark_reason_ok:
  assumes "loop_ok l ordered wins pending" "is_batch l ordered pending v sel"
  shows "loop_ok l (mark_reason sel ordered) wins (drop (length sel) pending)"
proof -
  have "set (drop (length sel) pending) \<subseteq> set (mark_reason sel ordered)"
    using rest_untouched[OF assms] by (auto simp: mark_reason_def intro: in_update_other)
  then show ?thesis
    using assms(1) pending_rest[OF assms(1)] same_sources[OF marked_sources]
    by (auto simp: loop_ok_def marked_jobs)
qed

definition recorded :: "uuid \<Rightarrow> ledger_entry list \<Rightarrow> ledger_entry list \<Rightarrow> ledger_entry \<Rightarrow> ledger_entry" where
  "recorded j v sel e = (let x = (if in_entries (v @ sel) e then e\<lparr>led_windows := led_windows e @ [j]\<rparr> else e)
     in if in_entries sel e then x\<lparr>led_job := Some j\<rparr> else x)"

lemma recorded_fields [simp]:
  "led_source (recorded j v sel e) = led_source e"
  "led_id (recorded j v sel e) = led_id e"
  "led_reason (recorded j v sel e) = led_reason e"
  "led_job (recorded j v sel e) = (if in_entries sel e then Some j else led_job e)"
  "led_windows (recorded j v sel e) = (if in_entries (v @ sel) e then led_windows e @ [j] else led_windows e)"
  by (simp_all add: recorded_def led_id_def)

lemma record_window_map: "record_window j v sel es = map (recorded j v sel) es"
  by (simp add: record_window_def update_where_def recorded_def in_entries_def led_id_def)

lemma recorded_jobs:
  assumes "set sel \<subseteq> set ordered"
  shows "jobbed (record_window j v sel ordered) = jobbed ordered \<union> led_id ` set sel"
proof -
  have "{e \<in> set ordered. led_job (recorded j v sel e) \<noteq> None}
      = {e \<in> set ordered. led_job e \<noteq> None} \<union> {e \<in> set ordered. in_entries sel e}" by auto
  moreover have "led_id ` {e \<in> set ordered. in_entries sel e} = led_id ` set sel"
    using assms by (auto simp: in_entries_def image_iff)
  ultimately show ?thesis
    by (simp only: record_window_map jobbed_map recorded_fields(2)) (simp add: jobbed_def image_Un)
qed

lemma record_window_ok:
  assumes "loop_ok l ordered wins pending" "is_batch l ordered pending v sel"
  shows "loop_ok l (record_window j v sel ordered) (wins @ [j]) (drop (length sel) pending)"
proof -
  have rest: "set (drop (length sel) pending) \<subseteq> set (record_window j v sel ordered)"
  proof
    fix e assume "e \<in> set (drop (length sel) pending)"
    note r = rest_untouched[OF assms this]
    then have "\<not> in_entries (v @ sel) e" by (auto simp: in_entries_def)
    with r show "e \<in> set (record_window j v sel ordered)"
      unfolding record_window_def by (intro in_update_other)
  qed
  have ok: "entries_ok ordered" "set pending \<subseteq> set ordered" "\<forall>e \<in> set pending. waiting e"
    "length wins \<le> card (jobbed ordered)" using assms(1) by (auto simp: loop_ok_def)
  have sel: "set sel \<subseteq> set pending" "sel \<noteq> []" using assms(2) set_mono_prefix by (auto simp: is_batch_def)
  then have sub: "set sel \<subseteq> set ordered" using ok(2) by auto
  have new: "led_id (hd sel) \<notin> jobbed ordered"
  proof
    assume "led_id (hd sel) \<in> jobbed ordered"
    then obtain f where f: "f \<in> set ordered" "led_job f \<noteq> None" "led_id f = led_id (hd sel)" by (auto simp: jobbed_def)
    moreover have h: "hd sel \<in> set sel" using sel(2) by simp
    ultimately have "f = hd sel" using entries_same[OF ok(1)] sub by blast
    then show False using f(2) ok(3) sel(1) h by (auto simp: waiting_def)
  qed
  have fin: "finite (jobbed ordered \<union> led_id ` set sel)" by (auto simp: jobbed_def)
  have "insert (led_id (hd sel)) (jobbed ordered) \<subseteq> jobbed ordered \<union> led_id ` set sel" using sel(2) by simp
  from card_mono[OF fin this] new have "card (jobbed ordered) + 1 \<le> card (jobbed ordered \<union> led_id ` set sel)"
    by (simp add: jobbed_def)
  then have count: "length (wins @ [j]) \<le> card (jobbed (record_window j v sel ordered))"
    using ok(4) by (simp add: recorded_jobs[OF sub])
  show ?thesis
    using assms(1) rest pending_rest[OF assms(1)] same_sources[OF recorded_sources] count
    by (auto simp: loop_ok_def)
qed

text \<open>Batching ends.\<close>

lemma submit_loop_returns:
  "loop_ok l ordered wins pending \<Longrightarrow> \<exists>r. submit_loop env l ordered wins pending results d = Some r"
proof (induction "length pending" arbitrary: ordered wins pending results d rule: less_induct)
  case less
  have shorter: "length (drop (length sel) pending) < length pending" if "is_batch l ordered pending v sel" for v sel
    using that by (cases pending) (auto simp: is_batch_def)
  show ?case
  proof (cases "next_batch l ordered wins pending")
    case Halt
    then show ?thesis by (simp add: submit_loop.simps)
  next
    case (Discard sel)
    then obtain v where v: "is_batch l ordered pending v sel" using next_batch_cases(1)[OF less.prems] by blast
    show ?thesis
      using less.hyps[OF shorter[OF v] mark_reason_ok[OF less.prems v]] Discard
      by (subst submit_loop.simps) simp
  next
    case (Window v sel)
    then have v: "is_batch l ordered pending v sel" using next_batch_cases(2)[OF less.prems] by blast
    show ?thesis
      using less.hyps[OF shorter[OF v] record_window_ok[OF less.prems v]] Window
      by (subst submit_loop.simps) (auto split: sum.split)
  qed
qed

section \<open>What batching does to the ledger\<close>

definition links_ok :: "uuid list \<Rightarrow> ledger_entry list \<Rightarrow> bool" where
  "links_ok wins es \<longleftrightarrow> (\<forall>e \<in> set es. set (led_windows e) \<subseteq> set wins
     \<and> (\<forall>j. led_job e = Some j \<longrightarrow> j \<in> set (led_windows e) \<and> led_reason e \<in> {None, Some []}))"

definition round_ok :: "extraction_ledger \<Rightarrow> ledger_entry list \<Rightarrow> uuid list \<Rightarrow> ledger_entry list \<Rightarrow> bool" where
  "round_ok l ordered wins pending \<longleftrightarrow> loop_ok l ordered wins pending \<and> links_ok wins ordered
     \<and> (\<forall>e \<in> set ordered. e \<notin> set pending \<longrightarrow> \<not> waiting e)"

definition kept_entry :: "ledger_entry \<Rightarrow> ledger_entry \<Rightarrow> bool" where
  "kept_entry e f \<longleftrightarrow> led_source f = led_source e \<and> (led_job e \<noteq> None \<longrightarrow> led_job f = led_job e)
     \<and> set (led_windows e) \<subseteq> set (led_windows f)"

lemma selected_entry:
  assumes "loop_ok l ordered wins pending" "is_batch l ordered pending v sel" "e \<in> set ordered" "in_entries sel e"
  shows "e \<in> set sel" "waiting e"
proof -
  have sub: "set sel \<subseteq> set pending" "set pending \<subseteq> set ordered"
    using assms(1,2) set_mono_prefix by (auto simp: is_batch_def loop_ok_def)
  obtain f where f: "f \<in> set sel" "led_id f = led_id e" using assms(4) by (auto simp: in_entries_def)
  have "f = e"
    by (rule entries_same[OF _ _ assms(3) f(2)]) (use assms(1) f(1) sub in \<open>auto simp: loop_ok_def\<close>)
  with f sub assms(1) show "e \<in> set sel" "waiting e" by (auto simp: loop_ok_def)
qed

lemma rest_or_selected:
  assumes "loop_ok l ordered wins pending" "is_batch l ordered pending v sel" "e \<in> set ordered"
    and "\<forall>e \<in> set ordered. e \<notin> set pending \<longrightarrow> \<not> waiting e"
  shows "in_entries sel e \<or> e \<in> set (drop (length sel) pending) \<or> \<not> waiting e"
proof -
  obtain ps where "pending = sel @ ps" using assms(2) by (auto simp: is_batch_def prefix_def)
  then show ?thesis using assms(3,4) by (auto simp: in_entries_def)
qed

lemma mark_reason_round:
  assumes "round_ok l ordered wins pending" "is_batch l ordered pending v sel"
  shows "round_ok l (mark_reason sel ordered) wins (drop (length sel) pending)"
    "list_all2 kept_entry ordered (mark_reason sel ordered)"
proof -
  have a: "loop_ok l ordered wins pending" "links_ok wins ordered"
    "\<forall>e \<in> set ordered. e \<notin> set pending \<longrightarrow> \<not> waiting e" using assms(1) by (auto simp: round_ok_def)
  have links: "links_ok wins (mark_reason sel ordered)"
    unfolding links_ok_def mark_reason_map
  proof (rule ballI)
    fix x assume "x \<in> set (map (marked sel) ordered)"
    then obtain e where e: "e \<in> set ordered" "x = marked sel e" by auto
    have "led_job e = None" if "in_entries sel e"
      using selected_entry(2)[OF a(1) assms(2) e(1) that] by (simp add: waiting_def)
    then show "set (led_windows x) \<subseteq> set wins
        \<and> (\<forall>j. led_job x = Some j \<longrightarrow> j \<in> set (led_windows x) \<and> led_reason x \<in> {None, Some []})"
      using a(2) e by (auto simp: links_ok_def)
  qed
  have settled: "\<not> waiting x" if x: "x \<in> set (mark_reason sel ordered)" "x \<notin> set (drop (length sel) pending)" for x
  proof -
    obtain e where e: "e \<in> set ordered" "x = marked sel e" using x(1) by (auto simp: mark_reason_map)
    show ?thesis
    proof (cases "in_entries sel e")
      case True
      then show ?thesis by (simp add: e waiting_def)
    next
      case False
      then have "x = e" by (simp add: e marked_def)
      with False x(2) e(1) rest_or_selected[OF a(1) assms(2) e(1) a(3)] show ?thesis by auto
    qed
  qed
  show "round_ok l (mark_reason sel ordered) wins (drop (length sel) pending)"
    using mark_reason_ok[OF a(1) assms(2)] links settled by (simp add: round_ok_def)
  show "list_all2 kept_entry ordered (mark_reason sel ordered)"
    by (simp add: mark_reason_map list_all2_map2 list_all2_same kept_entry_def)
qed

lemma record_window_round:
  assumes "round_ok l ordered wins pending" "is_batch l ordered pending v sel"
  shows "round_ok l (record_window j v sel ordered) (wins @ [j]) (drop (length sel) pending)"
    "list_all2 kept_entry ordered (record_window j v sel ordered)"
proof -
  have a: "loop_ok l ordered wins pending" "links_ok wins ordered"
    "\<forall>e \<in> set ordered. e \<notin> set pending \<longrightarrow> \<not> waiting e" using assms(1) by (auto simp: round_ok_def)
  have fresh: "led_job e = None" "led_reason e \<in> {None, Some []}" if "e \<in> set ordered" "in_entries sel e" for e
    using selected_entry(2)[OF a(1) assms(2) that] by (auto simp: waiting_def split: option.splits)
  have links: "links_ok (wins @ [j]) (record_window j v sel ordered)"
    unfolding links_ok_def record_window_map
  proof (rule ballI)
    fix x assume "x \<in> set (map (recorded j v sel) ordered)"
    then obtain e where e: "e \<in> set ordered" "x = recorded j v sel e" by auto
    have "in_entries (v @ sel) e" if "in_entries sel e" using that by (auto simp: in_entries_def)
    moreover have old: "set (led_windows e) \<subseteq> set wins"
      "\<forall>j. led_job e = Some j \<longrightarrow> j \<in> set (led_windows e) \<and> led_reason e \<in> {None, Some []}"
      using a(2) e(1) by (auto simp: links_ok_def)
    ultimately show "set (led_windows x) \<subseteq> set (wins @ [j])
        \<and> (\<forall>k. led_job x = Some k \<longrightarrow> k \<in> set (led_windows x) \<and> led_reason x \<in> {None, Some []})"
      using fresh(2)[OF e(1)] unfolding e(2) by auto
  qed
  have settled: "\<not> waiting x" if x: "x \<in> set (record_window j v sel ordered)" "x \<notin> set (drop (length sel) pending)" for x
  proof -
    obtain e where e: "e \<in> set ordered" "x = recorded j v sel e" using x(1) by (auto simp: record_window_map)
    show ?thesis
    proof (cases "in_entries sel e")
      case True
      then show ?thesis by (simp add: e waiting_def)
    next
      case False
      have "e \<notin> set (drop (length sel) pending)"
      proof
        assume r: "e \<in> set (drop (length sel) pending)"
        with False rest_untouched(2)[OF a(1) assms(2) r] have "\<not> in_entries (v @ sel) e"
          by (auto simp: in_entries_def)
        with False have "x = e" by (simp add: e recorded_def)
        with r x(2) show False by simp
      qed
      then have "\<not> waiting e" using False rest_or_selected[OF a(1) assms(2) e(1) a(3)] by simp
      with False show ?thesis by (simp add: e waiting_def)
    qed
  qed
  show "round_ok l (record_window j v sel ordered) (wins @ [j]) (drop (length sel) pending)"
    using record_window_ok[OF a(1) assms(2)] links settled by (simp add: round_ok_def)
  show "list_all2 kept_entry ordered (record_window j v sel ordered)"
    using fresh(1) by (auto simp: record_window_map list_all2_map2 list_all2_same kept_entry_def)
qed

lemma kept_entry_trans: "kept_entry e f \<Longrightarrow> kept_entry f g \<Longrightarrow> kept_entry e g"
  by (auto simp: kept_entry_def)

lemma kept_entries_trans:
  "list_all2 kept_entry xs ys \<Longrightarrow> list_all2 kept_entry ys zs \<Longrightarrow> list_all2 kept_entry xs zs"
  by (rule list_all2_trans[OF kept_entry_trans])

text \<open>A queued window has a job under its own stage key.\<close>

definition window_queued :: "submit_env \<Rightarrow> enqueued \<Rightarrow> db \<Rightarrow> bool" where
  "window_queued env q d \<longleftrightarrow> (\<exists>w. window_ok w \<and> (\<exists>r \<in> set (jobs d). job_id r = enq_job_id q
     \<and> job_key r = extraction_key (su_sha env) (su_investigation env) w True \<and> job_owner r = Some (su_owner env)))"

lemma enqueue_grows: "enqueue c n k p ow d = Inr (q, e) \<Longrightarrow> set (jobs d) \<subseteq> set (jobs e)"
  by (auto simp: enqueue_def split: option.splits if_splits)

lemma enqueue_adds_row:
  "enqueue c n k p ow d = Inr (q, e) \<Longrightarrow> \<exists>r \<in> set (jobs e). job_id r = enq_job_id q \<and> job_key r = k \<and> job_owner r = ow"
  by (auto simp: enqueue_def new_job_def split: option.splits if_splits dest!: fetch_SomeD)

lemma enqueue_frame:
  "enqueue c n k p ow d = Inr (q, e) \<Longrightarrow> extraction_runs e = extraction_runs d \<and> report_versions e = report_versions d
     \<and> investigations e = investigations d \<and> capture_sessions e = capture_sessions d"
  by (auto simp: enqueue_def split: option.splits if_splits)

lemma window_queued_mono: "window_queued env q d \<Longrightarrow> set (jobs d) \<subseteq> set (jobs e) \<Longrightarrow> window_queued env q e"
  unfolding window_queued_def by blast

lemma queue_window_Inr:
  assumes "queue_window env l wins es d = Inr (q, e)"
  shows "window_queued env q e" "set (jobs d) \<subseteq> set (jobs e)" "extraction_runs e = extraction_runs d"
proof -
  have w: "window_ok (window_of l wins es)" and n: "enqueue (su_clk env) (su_gen env (length wins))
      (extraction_key (su_sha env) (su_investigation env) (window_of l wins es) True)
      (extraction_payload (su_investigation env) (window_of l wins es) True) (Some (su_owner env)) d = Inr (q, e)"
    using assms by (auto simp: queue_window_def enqueue_extraction_def split: if_splits)
  show "window_queued env q e" unfolding window_queued_def using w enqueue_adds_row[OF n] by blast
  show "set (jobs d) \<subseteq> set (jobs e)" by (rule enqueue_grows[OF n])
  show "extraction_runs e = extraction_runs d" using enqueue_frame[OF n] by simp
qed

lemma submit_loop_result:
  assumes "submit_loop env l ordered wins pending results d = Some (Inr (ordered', wins', results', e))"
    and "round_ok l ordered wins pending"
  shows "\<exists>new rest. results' = results @ new \<and> wins' = wins @ map enq_job_id new
     \<and> loop_ok l ordered' wins' rest \<and> links_ok wins' ordered' \<and> list_all2 kept_entry ordered ordered'
     \<and> (\<forall>x \<in> set ordered'. x \<notin> set rest \<longrightarrow> \<not> waiting x) \<and> (xl_closed l \<longrightarrow> rest = [])
     \<and> (\<forall>q \<in> set new. window_queued env q e) \<and> set (jobs d) \<subseteq> set (jobs e)
     \<and> extraction_runs e = extraction_runs d"
  using assms
proof (induction "length pending" arbitrary: ordered wins pending results d rule: less_induct)
  case less
  note ok = less.prems(2)
  have lok: "loop_ok l ordered wins pending" using ok by (simp add: round_ok_def)
  have shorter: "length (drop (length sel) pending) < length pending" if "is_batch l ordered pending v sel" for v sel
    using that by (cases pending) (auto simp: is_batch_def)
  have refl: "list_all2 kept_entry ordered ordered" by (simp add: list_all2_same kept_entry_def)
  show ?case
  proof (cases "next_batch l ordered wins pending")
    case Halt
    with less.prems(1) have eq: "ordered' = ordered" "wins' = wins" "results' = results" "e = d"
      by (simp_all add: submit_loop.simps)
    show ?thesis
      by (rule exI[of _ "[]"], rule exI[of _ pending])
        (use ok refl next_batch_cases(3)[OF lok Halt] in \<open>auto simp: eq round_ok_def\<close>)
  next
    case (Discard sel)
    then obtain v where v: "is_batch l ordered pending v sel" using next_batch_cases(1)[OF lok] by blast
    have "submit_loop env l (mark_reason sel ordered) wins (drop (length sel) pending) results d
        = Some (Inr (ordered', wins', results', e))"
      using less.prems(1) Discard by (simp add: submit_loop.simps[of env l ordered])
    from less.hyps[OF shorter[OF v] this mark_reason_round(1)[OF ok v]]
    obtain new rest where r: "results' = results @ new" "wins' = wins @ map enq_job_id new"
      "loop_ok l ordered' wins' rest" "links_ok wins' ordered'" "list_all2 kept_entry (mark_reason sel ordered) ordered'"
      "\<forall>x \<in> set ordered'. x \<notin> set rest \<longrightarrow> \<not> waiting x" "xl_closed l \<longrightarrow> rest = []"
      "\<forall>q \<in> set new. window_queued env q e" "set (jobs d) \<subseteq> set (jobs e)" "extraction_runs e = extraction_runs d"
      by blast
    show ?thesis
      by (rule exI[of _ new], rule exI[of _ rest])
        (use r kept_entries_trans[OF mark_reason_round(2)[OF ok v] r(5)] in blast)
  next
    case (Window v sel)
    then have v: "is_batch l ordered pending v sel" using next_batch_cases(2)[OF lok] by blast
    obtain q d1 where q: "queue_window env l wins (v @ sel) d = Inr (q, d1)"
      and run: "submit_loop env l (record_window (enq_job_id q) v sel ordered) (wins @ [enq_job_id q])
        (drop (length sel) pending) (results @ [q]) d1 = Some (Inr (ordered', wins', results', e))"
      using less.prems(1) Window by (auto simp: submit_loop.simps[of env l ordered] split: sum.splits)
    from less.hyps[OF shorter[OF v] run record_window_round(1)[OF ok v]]
    obtain new rest where r: "results' = (results @ [q]) @ new" "wins' = (wins @ [enq_job_id q]) @ map enq_job_id new"
      "loop_ok l ordered' wins' rest" "links_ok wins' ordered'"
      "list_all2 kept_entry (record_window (enq_job_id q) v sel ordered) ordered'"
      "\<forall>x \<in> set ordered'. x \<notin> set rest \<longrightarrow> \<not> waiting x" "xl_closed l \<longrightarrow> rest = []"
      "\<forall>q \<in> set new. window_queued env q e" "set (jobs d1) \<subseteq> set (jobs e)" "extraction_runs e = extraction_runs d1"
      by blast
    note qw = queue_window_Inr[OF q]
    show ?thesis
      by (rule exI[of _ "q # new"], rule exI[of _ rest])
        (use r kept_entries_trans[OF record_window_round(2)[OF ok v] r(5)] qw window_queued_mono[OF qw(1) r(9)] in auto)
  qed
qed

section \<open>The ledger invariant\<close>

definition ledger_ok :: "extraction_ledger \<Rightarrow> bool" where
  "ledger_ok l \<longleftrightarrow> policy_ok (xl_policy l) \<and> entries_ok (xl_observations l) \<and> links_ok (xl_windows l) (xl_observations l)
     \<and> length (xl_windows l) \<le> card (jobbed (xl_observations l))
     \<and> int (length (xl_observations l)) \<le> pol_max_observations (xl_policy l)
     \<and> distinct (map una_id (xl_unadmitted l))
     \<and> una_id ` set (xl_unadmitted l) \<inter> led_id ` set (xl_observations l) = {}
     \<and> 0 \<le> xl_requests l \<and> xl_requests l \<le> pol_max_requests (xl_policy l)
     \<and> 0 \<le> xl_tokens l \<and> xl_tokens l \<le> pol_max_tokens (xl_policy l)"

definition ledgers_ok :: "db \<Rightarrow> bool" where
  "ledgers_ok d \<longleftrightarrow> distinct (map run_investigation (extraction_runs d)) \<and> (\<forall>r \<in> set (extraction_runs d). ledger_ok (run_data r))"

definition submission_ok :: "submission \<Rightarrow> bool" where
  "submission_ok s \<longleftrightarrow> policy_ok (sub_policy s) \<and> list_all observation_ok (sub_observations s)"

lemma new_ledger_ok: "submission_ok s \<Longrightarrow> ledger_ok (new_ledger s)"
  by (simp add: submission_ok_def ledger_ok_def new_ledger_def entries_ok_def links_ok_def policy_ok_def)

text \<open>Admission: old entries stay in front, identifiers stay apart, and nothing submitted is lost.\<close>

definition admits ::
    "ledger_entry list \<Rightarrow> unadmitted_item list \<Rightarrow> observation list \<Rightarrow> ledger_entry list \<Rightarrow> unadmitted_item list \<Rightarrow> bool"
where
  "admits es us xs es' us' \<longleftrightarrow> (\<exists>new. es' = es @ map fresh_entry new \<and> set new \<subseteq> set xs)
     \<and> distinct (map led_id es') \<and> distinct (map una_id us') \<and> una_id ` set us' \<inter> led_id ` set es' = {}
     \<and> set us \<subseteq> set us' \<and> (\<forall>x \<in> set xs. x \<in> led_source ` set es' \<or> ob_id x \<in> una_id ` set us')"

lemma fresh_entry_fields [simp]:
  "led_source (fresh_entry x) = x" "led_id (fresh_entry x) = ob_id x" "led_job (fresh_entry x) = None"
  "led_windows (fresh_entry x) = []" "led_reason (fresh_entry x) = None" "waiting (fresh_entry x)"
  by (simp_all add: fresh_entry_def led_id_def waiting_def)

lemma admits_known:
  "admits es us xs es' us' \<Longrightarrow> x \<in> led_source ` set es' \<or> ob_id x \<in> una_id ` set us' \<Longrightarrow> admits es us (x # xs) es' us'"
  unfolding admits_def by (simp only: set_simps insert_iff) blast

lemma admits_refused:
  assumes "admits es (us @ [unadmitted_of x reason]) xs es' us'"
  shows "admits es us (x # xs) es' us'"
proof -
  have "unadmitted_of x reason \<in> set us'" using assms by (simp add: admits_def)
  then have "ob_id x \<in> una_id ` set us'" by (rule rev_image_eqI) (simp add: unadmitted_of_def)
  moreover have "admits es us xs es' us'" using assms by (simp add: admits_def)
  ultimately show ?thesis by (intro admits_known disjI2)
qed

lemma admits_taken:
  assumes "admits (es @ [fresh_entry x]) us xs es' us'"
  shows "admits es us (x # xs) es' us'"
proof -
  from assms obtain new where n: "es' = (es @ [fresh_entry x]) @ map fresh_entry new" "set new \<subseteq> set xs"
    unfolding admits_def by blast
  have "\<exists>new. es' = es @ map fresh_entry new \<and> set new \<subseteq> set (x # xs)"
    by (rule exI[of _ "x # new"]) (use n in auto)
  moreover have "x \<in> led_source ` set es'" using n(1) by simp
  ultimately show ?thesis using assms unfolding admits_def by (simp only: set_simps insert_iff) blast
qed

lemma admit_all_Inr:
  assumes "admit_all policy produced shut final xs existing unadmitted = Inr (existing', unadmitted')"
    and "distinct (map led_id existing)" "distinct (map una_id unadmitted)"
    and "una_id ` set unadmitted \<inter> led_id ` set existing = {}"
  shows "admits existing unadmitted xs existing' unadmitted'"
  using assms
proof (induction xs arbitrary: existing unadmitted)
  case Nil
  then show ?case by (simp add: admits_def)
next
  case (Cons x xs)
  show ?case
  proof (cases "fetch (\<lambda>e. led_id e = ob_id x) existing")
    case (Some f)
    then have f: "f \<in> set existing" "led_source f = x"
      and r: "admit_all policy produced shut final xs existing unadmitted = Inr (existing', unadmitted')"
      using Cons.prems(1) fetch_SomeD[OF Some] by (auto split: if_splits)
    note a = Cons.IH[OF r Cons.prems(2-4)]
    show ?thesis by (rule admits_known[OF a]) (use f a in \<open>auto simp: admits_def\<close>)
  next
    case None
    then have new: "ob_id x \<notin> led_id ` set existing" by (auto simp: fetch_None_iff)
    show ?thesis
    proof (cases "ob_id x \<in> una_id ` set unadmitted")
      case True
      with None Cons.prems(1) have r: "admit_all policy produced shut final xs existing unadmitted = Inr (existing', unadmitted')"
        by simp
      note a = Cons.IH[OF r Cons.prems(2-4)]
      show ?thesis by (rule admits_known[OF a]) (use True a in \<open>auto simp: admits_def\<close>)
    next
      case False
      show ?thesis
      proof (cases "\<exists>reason. produced \<and> refusal policy shut final existing = Some reason")
        case True
        then obtain reason where reason: "produced" "refusal policy shut final existing = Some reason" by blast
        with None False Cons.prems(1) have r: "admit_all policy produced shut final xs existing
            (unadmitted @ [unadmitted_of x reason]) = Inr (existing', unadmitted')" by simp
        show ?thesis
          by (rule admits_refused, rule Cons.IH[OF r Cons.prems(2)])
            (use Cons.prems(3,4) False new in \<open>auto simp: unadmitted_of_def\<close>)
      next
        case open': False
        then have r: "admit_all policy produced shut final xs (existing @ [fresh_entry x]) unadmitted = Inr (existing', unadmitted')"
          using None False Cons.prems(1) by (cases produced) (auto split: if_splits option.splits)
        show ?thesis
          by (rule admits_taken, rule Cons.IH[OF r])
            (use Cons.prems(2-4) False new in auto)
      qed
    qed
  qed
qed

lemma sorted_entries:
  "entries_ok (sort_key k es) \<longleftrightarrow> entries_ok es" "links_ok ws (sort_key k es) \<longleftrightarrow> links_ok ws es"
  "jobbed (sort_key k es) = jobbed es"
  by (simp_all add: entries_ok_def links_ok_def jobbed_def distinct_map_sort_key)

lemma fresh_entries:
  "jobbed (es @ map fresh_entry xs) = jobbed es"
  "links_ok ws (es @ map fresh_entry xs) \<longleftrightarrow> links_ok ws es"
  by (auto simp: jobbed_def links_ok_def)

lemma one_timebase:
  assumes "\<not> card (ob_timebase ` led_source ` set es) > 1" "e \<in> set es" "f \<in> set es"
  shows "ob_timebase (led_source e) = ob_timebase (led_source f)"
proof -
  let ?T = "ob_timebase ` led_source ` set es"
  have "ob_timebase (led_source e) \<in> ?T" "ob_timebase (led_source f) \<in> ?T" using assms(2,3) by auto
  moreover have "card ?T \<le> 1" "finite ?T" using assms(1) by auto
  ultimately show ?thesis by (metis One_nat_def card_le_Suc0_iff_eq)
qed

lemma admitted_Inr:
  assumes "admitted s final l = Inr m" "ledger_ok l" "submission_ok s"
  shows "ledger_ok m" "set (xl_observations l) \<subseteq> set (xl_observations m)" "xl_windows m = xl_windows l"
    "\<forall>x \<in> set (sub_observations s). x \<in> led_source ` set (xl_observations m) \<or> ob_id x \<in> una_id ` set (xl_unadmitted m)"
    "xl_closed m \<longleftrightarrow> xl_closed l \<or> sub_closed s"
proof -
  obtain es us where a: "admit_all (sub_policy s) (sub_producer s \<noteq> None) (xl_closed l) final (sub_observations s)
      (xl_observations l) (xl_unadmitted l) = Inr (es, us)"
    and same: "xl_policy l = sub_policy s" and len: "int (length es) \<le> pol_max_observations (sub_policy s)"
    and tb: "\<not> card (ob_timebase ` led_source ` set es) > 1"
    and m: "m = l\<lparr>xl_observations := sort_key entry_position es, xl_closed := xl_closed l \<or> sub_closed s,
               xl_unadmitted := sort_key unadmitted_position us\<rparr>"
    using assms(1) by (auto simp: admitted_def config_changed_def rbind_Inr_iff split: if_splits)
  have l: "policy_ok (xl_policy l)" "entries_ok (xl_observations l)" "links_ok (xl_windows l) (xl_observations l)"
    "length (xl_windows l) \<le> card (jobbed (xl_observations l))" "distinct (map una_id (xl_unadmitted l))"
    "una_id ` set (xl_unadmitted l) \<inter> led_id ` set (xl_observations l) = {}"
    "0 \<le> xl_requests l" "xl_requests l \<le> pol_max_requests (xl_policy l)" "0 \<le> xl_tokens l"
    "xl_tokens l \<le> pol_max_tokens (xl_policy l)" using assms(2) by (auto simp: ledger_ok_def)
  have "admits (xl_observations l) (xl_unadmitted l) (sub_observations s) es us"
    by (rule admit_all_Inr[OF a]) (use l in \<open>auto simp: entries_ok_def\<close>)
  then obtain new where n: "es = xl_observations l @ map fresh_entry new" "set new \<subseteq> set (sub_observations s)"
    and d: "distinct (map led_id es)" "distinct (map una_id us)" "una_id ` set us \<inter> led_id ` set es = {}"
    and all: "\<forall>x \<in> set (sub_observations s). x \<in> led_source ` set es \<or> ob_id x \<in> una_id ` set us"
    unfolding admits_def by blast
  have "\<forall>e \<in> set es. observation_ok (led_source e)"
    using l(2) n assms(3) by (auto simp: entries_ok_def submission_ok_def list_all_iff)
  moreover have "length es \<le> 4096" using len l(1) by (simp add: same policy_ok_def)
  moreover have "\<forall>e \<in> set es. \<forall>f \<in> set es. ob_timebase (led_source e) = ob_timebase (led_source f)"
    by (intro ballI one_timebase[OF tb])
  ultimately have "entries_ok es" using d(1) unfolding entries_ok_def by (intro conjI)
  then show "ledger_ok m"
    using l d(2,3) len
    by (simp add: m ledger_ok_def sorted_entries same n(1) fresh_entries distinct_map_sort_key)
  show "set (xl_observations l) \<subseteq> set (xl_observations m)" by (auto simp: m n(1))
  show "xl_windows m = xl_windows l" by (simp add: m)
  show "\<forall>x \<in> set (sub_observations s). x \<in> led_source ` set (xl_observations m) \<or> ob_id x \<in> una_id ` set (xl_unadmitted m)"
    using all by (simp add: m)
  show "xl_closed m \<longleftrightarrow> xl_closed l \<or> sub_closed s" by (simp add: m)
qed

lemma ledger_round:
  "ledger_ok l \<Longrightarrow> round_ok l (xl_observations l) (xl_windows l) (filter waiting (xl_observations l))"
  unfolding round_ok_def loop_ok_def ledger_ok_def
  by (elim conjE, intro conjI, assumption+) (simp_all add: entries_ok_def distinct_map_filter)

interpretation runs_table: keyed run_investigation .

lemma ledger_of_ok: "ledgers_ok d \<Longrightarrow> ledger_of i d = Some l \<Longrightarrow> ledger_ok l"
  by (auto simp: ledgers_ok_def ledger_of_def dest: fetch_SomeD)

lemma ledger_of_same_runs: "extraction_runs e = extraction_runs d \<Longrightarrow> ledger_of i e = ledger_of i d"
  by (simp add: ledger_of_def)

lemma ledger_of_save: "ledger_of j (save_ledger i l d) = (if j = i then map_option (\<lambda>_. l) (ledger_of i d) else ledger_of j d)"
  by (auto simp: ledger_of_def save_ledger_def runs_table.fetch_update option.map_comp comp_def
      intro!: option.map_cong dest: fetch_SomeD)

lemma ledger_of_write: "ledger_of j (write_ledger i l d) = (if j = i then Some l else ledger_of j d)"
proof (cases "ledger_of i d")
  case None
  then show ?thesis by (auto simp: write_ledger_def ledger_of_def fetch_append split: option.splits)
next
  case (Some m)
  then show ?thesis by (simp add: write_ledger_def ledger_of_save)
qed

lemma save_ledger_ok: "ledgers_ok d \<Longrightarrow> ledger_ok l \<Longrightarrow> ledgers_ok (save_ledger i l d)"
  by (auto simp: ledgers_ok_def save_ledger_def map_update_where elim!: in_update_whereE)

lemma write_ledger_ok: "ledgers_ok d \<Longrightarrow> ledger_ok l \<Longrightarrow> ledgers_ok (write_ledger i l d)"
  by (cases "ledger_of i d") (auto simp: write_ledger_def save_ledger_ok,
      auto simp: ledgers_ok_def ledger_of_def fetch_None_iff)

lemma kept_ids: "list_all2 kept_entry es fs \<Longrightarrow> map led_id fs = map led_id es"
  by (induction rule: list_all2_induct) (auto simp: kept_entry_def led_id_def)

text \<open>What an accepted submission leaves behind.\<close>

lemma submission_result:
  assumes "submit_observations env s d = Some (Inr (results, e))" "ledgers_ok d" "submission_ok s"
  defines "i \<equiv> su_investigation env"
  shows "\<exists>m ordered wins e0. e = write_ledger i (m\<lparr>xl_observations := ordered, xl_windows := wins\<rparr>) e0
     \<and> admitted s (final_report i d) (case ledger_of i d of None \<Rightarrow> new_ledger s | Some l \<Rightarrow> l) = Inr m
     \<and> ledger_ok (m\<lparr>xl_observations := ordered, xl_windows := wins\<rparr>)
     \<and> extraction_runs e0 = extraction_runs d \<and> set (jobs d) \<subseteq> set (jobs e0)
     \<and> list_all2 kept_entry (xl_observations m) ordered
     \<and> (xl_closed m \<longrightarrow> \<not> final_report i d \<longrightarrow> (\<forall>x \<in> set ordered. \<not> waiting x))
     \<and> (\<forall>q \<in> set results. window_queued env q e0)"
proof -
  let ?l = "case ledger_of i d of None \<Rightarrow> new_ledger s | Some l \<Rightarrow> l"
  let ?pending = "\<lambda>m. if final_report i d then [] else filter waiting (xl_observations m)"
  obtain m ordered wins e0 where m: "admitted s (final_report i d) ?l = Inr m"
    and loop: "submit_loop env m (xl_observations m) (xl_windows m) (?pending m) [] d = Some (Inr (ordered, wins, results, e0))"
    and e: "e = write_ledger i (m\<lparr>xl_observations := ordered, xl_windows := wins\<rparr>) e0"
    using assms(1) unfolding submit_observations_def Let_def i_def[symmetric]
    by (auto split: if_splits sum.splits option.splits prod.splits)
  have "ledger_ok ?l" using ledger_of_ok[OF assms(2)] new_ledger_ok[OF assms(3)] by (simp split: option.split)
  then have mok: "ledger_ok m" by (rule admitted_Inr(1)[OF m _ assms(3)])
  show ?thesis
  proof (cases "final_report i d")
    case True
    with loop have eq: "ordered = xl_observations m" "wins = xl_windows m" "results = []" "e0 = d"
      by (simp_all add: submit_loop.simps next_batch_def)
    show ?thesis
      by (rule exI[of _ m], rule exI[of _ ordered], rule exI[of _ wins], rule exI[of _ e0])
        (use m mok e True in \<open>simp add: eq list_all2_same kept_entry_def\<close>)
  next
    case False
    from submit_loop_result[OF loop] ledger_round[OF mok] False obtain new rest where
      r: "results = [] @ new" "wins = xl_windows m @ map enq_job_id new" "loop_ok m ordered wins rest"
      "links_ok wins ordered" "list_all2 kept_entry (xl_observations m) ordered"
      "\<forall>x \<in> set ordered. x \<notin> set rest \<longrightarrow> \<not> waiting x" "xl_closed m \<longrightarrow> rest = []"
      "\<forall>q \<in> set new. window_queued env q e0" "set (jobs d) \<subseteq> set (jobs e0)" "extraction_runs e0 = extraction_runs d"
      by (simp only: if_False) blast
    have "map led_id ordered = map led_id (xl_observations m)" by (rule kept_ids[OF r(5)])
    then have ids: "led_id ` set ordered = led_id ` set (xl_observations m)" by (metis list.set_map)
    have "length ordered = length (xl_observations m)" using r(5) by (simp add: list_all2_lengthD)
    then have ok: "ledger_ok (m\<lparr>xl_observations := ordered, xl_windows := wins\<rparr>)"
      using mok r(3,4) ids by (simp add: ledger_ok_def loop_ok_def)
    show ?thesis
      by (rule exI[of _ m], rule exI[of _ ordered], rule exI[of _ wins], rule exI[of _ e0])
        (use m ok e r in simp)
  qed
qed

section \<open>Properties\<close>

text \<open>C14: Submitting observations always ends. Whatever the ledgers of a reachable database hold, a
  submission of valid observations returns or raises: every round of batching takes at least one
  observation from the queue, however long the texts and however small the batches.\<close>

theorem submission_terminates:
  assumes "ledgers_ok d" "submission_ok s"
  shows "\<exists>r. submit_observations env s d = Some r"
proof -
  let ?i = "su_investigation env"
  have "\<exists>r. submit_loop env m (xl_observations m) (xl_windows m)
        (if final_report ?i d then [] else filter waiting (xl_observations m)) [] d = Some r"
    if "admitted s (final_report ?i d) (case ledger_of ?i d of None \<Rightarrow> new_ledger s | Some l \<Rightarrow> l) = Inr m" for m
  proof -
    have "ledger_ok (case ledger_of ?i d of None \<Rightarrow> new_ledger s | Some l \<Rightarrow> l)"
      using ledger_of_ok[OF assms(1)] new_ledger_ok[OF assms(2)] by (simp split: option.split)
    then have "round_ok m (xl_observations m) (xl_windows m) (filter waiting (xl_observations m))"
      by (intro ledger_round admitted_Inr(1)[OF that _ assms(2)])
    then have "loop_ok m (xl_observations m) (xl_windows m)
        (if final_report ?i d then [] else filter waiting (xl_observations m))"
      by (simp add: round_ok_def loop_ok_def)
    then show ?thesis by (rule submit_loop_returns)
  qed
  then show ?thesis
    unfolding submit_observations_def Let_def
    by (fastforce split: sum.split option.split prod.split)
qed

definition ex_submit :: submit_env where
  "ex_submit = \<lparr>su_sha = (\<lambda>_. ''h''), su_clk = ex_clk, su_gen = (\<lambda>n. of_nat n + 50), su_investigation = 1, su_owner = 2\<rparr>"

definition ex_policy :: extraction_policy where
  "ex_policy = \<lparr>pol_max_requests = 10, pol_max_tokens = 1000, pol_reserved_requests = 2, pol_reserved_tokens = 300,
     pol_batch = 4, pol_overlap = 2, pol_max_observations = 8\<rparr>"

definition ex_submission :: submission where
  "ex_submission = \<lparr>sub_policy = ex_policy,
     sub_observations = [ex_obs ''a'' TargetRole ''ice'' 0],
     sub_closed = True, sub_hosted = True, sub_groq = False,
     sub_producer = Some \<lparr>pro_source = ''upload'', pro_reconcile = True\<rparr>\<rparr>"

definition ex_open :: db where
  "ex_open = empty_db\<lparr>investigations := [ex_inv_row]\<rparr>"

lemma ex_open_ok: "ledgers_ok ex_open"
  by code_simp

lemma ex_submission_ok: "submission_ok ex_submission"
  by code_simp

theorem submission_terminates_witness: "\<exists>r. submit_observations ex_submit ex_submission ex_open = Some r"
  by (rule submission_terminates[OF ex_open_ok ex_submission_ok])


definition ex_ledger :: extraction_ledger where
  "ex_ledger = \<lparr>xl_policy = ex_policy, xl_hosted = True, xl_groq = False,
     xl_producer = Some \<lparr>pro_source = ''upload'', pro_reconcile = True\<rparr>, xl_closed = True,
     xl_observations = [fresh_entry (ex_obs ''a'' TargetRole ''ice'' 0)], xl_windows = [], xl_requests = 0,
     xl_tokens = 0, xl_unadmitted = [], xl_sealed = None\<rparr>"

lemma ex_guards:
  "lock_extraction_capture 1 ex_open" "owned_investigation 1 2 ex_open" "ledger_of 1 ex_open = None"
  "\<not> final_report 1 ex_open" "sub_hosted ex_submission" "su_investigation ex_submit = 1" "su_owner ex_submit = 2"
  by code_simp+

lemma ex_admitted: "admitted ex_submission False (new_ledger ex_submission) = Inr ex_ledger"
  by code_simp

lemma ex_batch: "next_batch ex_ledger (xl_observations ex_ledger) [] (xl_observations ex_ledger)
    = Window [] (xl_observations ex_ledger)"
  by code_simp

lemma ex_queued: "is_ok (queue_window ex_submit ex_ledger [] (xl_observations ex_ledger) ex_open)"
  by code_simp

lemma ex_waiting: "filter waiting (xl_observations ex_ledger) = xl_observations ex_ledger"
  "xl_windows ex_ledger = []"
  by code_simp+

lemma next_batch_Nil [simp]: "next_batch l ordered wins [] = Halt"
  by (simp add: next_batch_def)

lemma ex_submits: "\<exists>q e. submit_observations ex_submit ex_submission ex_open = Some (Inr ([q], e))"
proof -
  obtain q e where q: "queue_window ex_submit ex_ledger [] (xl_observations ex_ledger) ex_open = Inr (q, e)"
    using ex_queued by (auto simp: is_ok_def split: sum.splits)
  have "submit_loop ex_submit ex_ledger (xl_observations ex_ledger) [] (xl_observations ex_ledger) [] ex_open
      = Some (Inr (record_window (enq_job_id q) [] (xl_observations ex_ledger) (xl_observations ex_ledger),
          [enq_job_id q], [q], e))"
    by (subst submit_loop.simps) (simp add: ex_batch q submit_loop.simps[where pending = "[]"])
  then show ?thesis
    by (simp add: submit_observations_def Let_def ex_guards ex_admitted ex_waiting)
qed

definition ex_submitted :: db where
  "ex_submitted = (case submit_observations ex_submit ex_submission ex_open of
     Some (Inr (results, e)) \<Rightarrow> e | _ \<Rightarrow> ex_open)"


section \<open>The reserve\<close>

text \<open>A run of booked requests, refused ones changing nothing; the accepted ones with their tokens.\<close>

fun bookings :: "uuid \<Rightarrow> (bool \<times> int \<times> int) list \<Rightarrow> db \<Rightarrow> db \<times> (bool \<times> int) list" where
  "bookings i [] d = (d, [])"
| "bookings i ((reserve, input_bytes, output_tokens) # xs) d =
     (case record_request i input_bytes output_tokens reserve d of
        Inl _ \<Rightarrow> bookings i xs d
      | Inr e \<Rightarrow> (let (f, taken) = bookings i xs e
                  in (f, (reserve, reserved_tokens input_bytes output_tokens) # taken)))"

definition reserve_use :: "(bool \<times> int) list \<Rightarrow> int \<times> int" where
  "reserve_use taken = (int (length (filter fst taken)), sum_list (map snd (filter fst taken)))"

definition within_reserve :: "extraction_ledger \<Rightarrow> int \<Rightarrow> int \<Rightarrow> bool" where
  "within_reserve l n t \<longleftrightarrow> (let p = xl_policy l in
     xl_requests l \<le> pol_max_requests p - pol_reserved_requests p + n \<and> xl_requests l \<le> pol_max_requests p
   \<and> xl_tokens l \<le> pol_max_tokens p - pol_reserved_tokens p + t \<and> xl_tokens l \<le> pol_max_tokens p)"

lemma record_request_Inr:
  assumes "record_request i b t reserve d = Inr e" "ledger_of i d = Some l"
  shows "ledger_of i e = Some (book (reserved_tokens b t) l)" "\<not> over_budget l (reserved_tokens b t) reserve"
  using assms by (auto simp: record_request_def Let_def ledger_of_save split: if_splits)

lemma within_reserve_book:
  assumes "within_reserve l n t" "\<not> over_budget l k reserve" "0 \<le> k" "0 \<le> n" "0 \<le> t" "policy_ok (xl_policy l)"
  shows "within_reserve (book k l) (n + (if reserve then 1 else 0)) (t + (if reserve then k else 0))"
  using assms by (cases reserve) (auto simp: within_reserve_def over_budget_def book_def Let_def policy_ok_def)

lemma bookings_within:
  assumes "bookings i xs d = (e, taken)" "ledger_of i d = Some l" "within_reserve l n t"
    and "\<forall>(r, b, k) \<in> set xs. 0 \<le> b \<and> 0 \<le> k" "0 \<le> n" "0 \<le> t" "policy_ok (xl_policy l)"
  shows "\<exists>m. ledger_of i e = Some m \<and> xl_policy m = xl_policy l
    \<and> within_reserve m (n + fst (reserve_use taken)) (t + snd (reserve_use taken))
    \<and> xl_requests m = xl_requests l + int (length taken) \<and> xl_tokens m = xl_tokens l + sum_list (map snd taken)"
  using assms
proof (induction i xs d arbitrary: l n t taken rule: bookings.induct)
  case (1 i d)
  then show ?case by (simp add: reserve_use_def)
next
  case (2 i r b k xs d)
  show ?case
  proof (cases "record_request i b k r d")
    case (Inl x)
    with "2.prems" show ?thesis by (intro "2.IH"(1)[OF Inl]) auto
  next
    case (Inr d1)
    obtain rest where rest: "bookings i xs d1 = (e, rest)" "taken = (r, reserved_tokens b k) # rest"
      using "2.prems"(1) Inr by (auto split: prod.splits)
    note q = record_request_Inr[OF Inr "2.prems"(2)]
    have pos: "0 \<le> reserved_tokens b k" using "2.prems"(4) by (auto simp: reserved_tokens_def FRAMING_TOKENS_def)
    note w = within_reserve_book[OF "2.prems"(3) q(2) pos "2.prems"(5,6,7)]
    obtain m where "ledger_of i e = Some m" "xl_policy m = xl_policy (book (reserved_tokens b k) l)"
      "within_reserve m ((n + (if r then 1 else 0)) + fst (reserve_use rest))
         ((t + (if r then reserved_tokens b k else 0)) + snd (reserve_use rest))"
      "xl_requests m = xl_requests (book (reserved_tokens b k) l) + int (length rest)"
      "xl_tokens m = xl_tokens (book (reserved_tokens b k) l) + sum_list (map snd rest)"
      using "2.IH"(2)[OF Inr rest(1) q(1) w] "2.prems"(4-7) pos by (auto simp: book_def split: if_splits)
    then show ?thesis by (cases r) (auto simp: rest(2) reserve_use_def book_def algebra_simps)
  qed
qed

text \<open>C16: The reconciliation reserve cannot be spent by extraction. After any sequence of requests against
  a fresh ledger the booked requests and tokens are exactly those of the accepted requests and within the
  run's limits, and as long as reconciliation has used less than its reserve, its next request that fits
  the reserve is accepted, whatever extraction did before.\<close>

theorem reserve_protected:
  assumes "bookings i xs d = (e, taken)" "ledger_of i d = Some l" "policy_ok (xl_policy l)"
    and "xl_requests l = 0" "xl_tokens l = 0" "\<forall>(r, b, k) \<in> set xs. 0 \<le> b \<and> 0 \<le> k"
    and "fst (reserve_use taken) < pol_reserved_requests (xl_policy l)"
    and "snd (reserve_use taken) + reserved_tokens input_bytes output_tokens \<le> pol_reserved_tokens (xl_policy l)"
  shows "\<exists>m. ledger_of i e = Some m
    \<and> xl_requests m = int (length taken) \<and> xl_requests m \<le> pol_max_requests (xl_policy l)
    \<and> xl_tokens m = sum_list (map snd taken) \<and> xl_tokens m \<le> pol_max_tokens (xl_policy l)
    \<and> record_request i input_bytes output_tokens True e
        = Inr (save_ledger i (book (reserved_tokens input_bytes output_tokens) m) e)"
proof -
  have "within_reserve l 0 0" using assms(3-5) by (simp add: within_reserve_def policy_ok_def)
  from bookings_within[OF assms(1,2) this assms(6)] obtain m where m: "ledger_of i e = Some m" "xl_policy m = xl_policy l"
    "within_reserve m (fst (reserve_use taken)) (snd (reserve_use taken))"
    "xl_requests m = int (length taken)" "xl_tokens m = sum_list (map snd taken)"
    using assms(3-5) by auto
  have "\<not> over_budget m (reserved_tokens input_bytes output_tokens) True"
    using m(2,3) assms(7,8) by (auto simp: over_budget_def within_reserve_def Let_def)
  then have "record_request i input_bytes output_tokens True e
      = Inr (save_ledger i (book (reserved_tokens input_bytes output_tokens) m) e)"
    using m(1,2) assms(3) by (simp add: record_request_def Let_def)
  then show ?thesis using m by (auto simp: within_reserve_def Let_def)
qed

definition ex_requests :: "(bool \<times> int \<times> int) list" where
  "ex_requests = [(False, 100, 50), (False, 60, 0), (False, 200, 100)]"

definition ex_run :: db where
  "ex_run = empty_db\<lparr>extraction_runs := [\<lparr>run_investigation = 1, run_data = ex_ledger\<rparr>]\<rparr>"

lemma ex_requests_run: "snd (bookings 1 ex_requests ex_run) = [(False, 406)]"
  by code_simp

theorem reserve_protected_witness:
  "\<exists>f. record_request 1 20 8 True (fst (bookings 1 ex_requests ex_run)) = Inr f"
proof -
  have l: "ledger_of 1 ex_run = Some ex_ledger" "policy_ok (xl_policy ex_ledger)" "xl_requests ex_ledger = 0"
    "xl_tokens ex_ledger = 0" "\<forall>(r, b, k) \<in> set ex_requests. 0 \<le> b \<and> 0 \<le> k"
    "fst (reserve_use [(False, 406)]) < pol_reserved_requests (xl_policy ex_ledger)"
    "snd (reserve_use [(False, 406)]) + reserved_tokens 20 8 \<le> pol_reserved_tokens (xl_policy ex_ledger)"
    by code_simp+
  have "bookings 1 ex_requests ex_run = (fst (bookings 1 ex_requests ex_run), [(False, 406)])"
    by (simp add: ex_requests_run[symmetric])
  from reserve_protected[OF this l] show ?thesis by blast
qed

end
