(* ===== verification/Spec2Isabelle.thy ===== *)
theory Spec2Isabelle
  imports QueueClaims Budget Settings AsrFallback Accounts Worker Quotas Reanalysis EvidenceSafety Incremental
begin

text \<open>
  A verification library for the ovrly backend (\<open>src/backend/services\<close>).

  Overview. A phone captures a clip, a URL or an upload; the API stores an investigation and
  enqueues the first stage in the PostgreSQL job queue; worker processes lease jobs, run the stage's
  handler and publish its result together with the successor jobs in one transaction; the last stage
  publishes an immutable report version, which clients read, export and ask to reanalyse. Provider
  calls are bounded by token buckets, per-owner quotas and a reservation ledger.

  Conventions. A table is the list of its rows (theories Prelude and Schema); one transaction is a
  function from the database to \<open>exn + (result \<times> db)\<close>, where \<open>Inl\<close> is the raised exception and the
  rolled-back database is the one before. A nullable column is an option, an identifier a 128-bit
  word, a fresh identifier a parameter, text a list of characters, a float an exact rational, a time
  rational seconds since the epoch; the clocks a transaction reads are the record \<open>clk\<close>. A raise is a
  value of \<open>exn\<close>. The locale \<open>keyed\<close> is what every keyed table offers, \<open>invariant_system\<close> what a
  component whose steps keep an invariant offers; both are interpreted on the definitions below.

  Theories, in the order of the code's layers.
  Prelude, Pystd, Canonical: results that may raise, tables, systems with an invariant, JSON values; the
  string, integer and UUID routines of Python's standard library the code uses; the canonical JSON that
  request hashes are taken of.
  JobStates (\<open>jobs/states.py\<close>): the pure state machine and its invariants.
  JobRetries (\<open>jobs/retries.py\<close>): retry classes, caps, backoff and the decision.
  Contract (\<open>claims.py\<close>, \<open>api/schemas.py\<close>, \<open>api/text_schemas.py\<close>): the values the services exchange.
  Observations (\<open>pipeline/extraction.py\<close>, \<open>pipeline/incremental.py\<close>): the observations, windows, policy and
  ledger of claim extraction, with their validators.
  Schema (\<open>jobs/models.py\<close>, \<open>models.py\<close>): the rows of every table, the database, exceptions, clocks.
  Settings (\<open>settings.py\<close>): the configuration, its ranges and its validators.
  Analysis (\<open>pipeline/analysis.py\<close>): terminal deadlines and the read model of an uploaded clip.
  JobQueue (\<open>jobs/queue.py\<close>): every queue method as one transaction.
  QueueRows, QueueInvariant, QueueSafety, QueueProperties, QueueGuarantees, QueueClaims: what each
  update does to a row, the invariant of the queue's tables, its preservation by every step and every
  interleaving (\<open>queue_step\<close>, \<open>queue_run\<close>), and the guarantees of the queue: fencing, cancellation,
  deletion, exclusive claims, recovery, idempotent enqueueing, refinement of the state machine.
  Budget (\<open>providers/budget.py\<close>): token buckets, shared charges, holds and slots, with the rate bound.
  ProviderBudgets (\<open>provider_budgets.py\<close>), Quotas (\<open>quotas.py\<close>): what is left of each provider and when
  it recovers, the admission of model requests, the daily budgets and active checks of an owner.
  AsrGroq, AsrLedger, AsrFallback (\<open>asr/groq.py\<close>, \<open>asr/reservations.py\<close>, \<open>asr/fallback.py\<close>): the speech
  provider's replies, the ledger whose rows are committed before a chunk is sent, and the policy that
  chooses a model, with the windows and the rule that an uncertain chunk is never resent.
  ApiErrors (\<open>api/errors.py\<close>), Accounts (\<open>api/auth\<close>, \<open>routes/principals.py\<close>): failures as
  answers, principals, credentials and account linking.
  Captures (\<open>captures.py\<close>, \<open>pipeline/capture.py\<close>): the manifest of a live capture and the publication
  of its stages.
  Worker (\<open>worker/runtime.py\<close>, \<open>pipeline/publish.py\<close>, \<open>pipeline/intake.py\<close>): one execution as a
  sequence of transactions with anything committed between them, the polling loop, and the locale
  \<open>stage_handler\<close> every stage implements.
  Reports (\<open>reports.py\<close>, \<open>report_export.py\<close>, \<open>routes/reports.py\<close>), Investigations
  (\<open>routes/investigations.py\<close>), Reanalysis (\<open>reanalysis.py\<close>): immutable versions, saves and exports, the
  client view and idempotent creation, corrections and the requests that queue evidence work.
  ClaimExtraction (\<open>pipeline/extraction.py\<close>): the stage key of a window, the grounding of a model's
  occurrences in the text they cite, and the cumulative publication of the claims.
  Providers (\<open>providers/http.py\<close>, \<open>router.py\<close>, \<open>papers.py\<close>, \<open>crossref.py\<close>), Retrieval
  (\<open>evidence/retrieval.py\<close>, \<open>bm25.py\<close>), Assessment (\<open>evidence/assessment.py\<close>), Evidence and
  EvidenceSafety (\<open>evidence/stages.py\<close>): the evidence pipeline from the search queries of a claim to the
  citation-checked version, its publication with successors and its place in the worker.

  Interfaces. \<open>keyed\<close> is what every keyed table offers, \<open>invariant_system\<close> what a step relation with an
  invariant offers, \<open>metered\<close> what a charged account offers, \<open>stage_handler\<close> what the worker asks of a
  handler. Each is interpreted on the definitions of the component that provides it; the evidence
  handlers are shown to be stage handlers and their publication to be a run of queue steps, so the
  worker's theorems apply to them.

  Parameters. SHA-256, \<open>uuid5\<close>, the validation and printing of pydantic models, Google's token check, the
  network (a stream of outcomes), \<open>math.log\<close>, ISO timestamps, the full-text client and fresh
  identifiers are arguments. Where a theorem needs a fact about them it is a named hypothesis.

  Bounds. Recursions are structural; \<open>send_limited\<close> and \<open>structured_from\<close> count the code's own attempts
  (\<open>RATE_LIMIT_ATTEMPTS\<close>, one repair), \<open>serve\<close> runs over the list of polling rounds, an expansion over
  the databases its checks find, so no fuel is needed.

  Not modelled. The HTTP transport, logging, health and metrics, asyncio timing (heartbeats in the
  background, cancellation of tasks), file storage and \<open>ffmpeg\<close> have effects outside the database that no
  theorem speaks of. The loop of model attempts in \<open>pipeline/extraction.py\<close>, the observation ledger's
  operations (\<open>incremental.py\<close>), \<open>reconciliation.py\<close>, the gateway \<open>llm.py\<close> and \<open>producers.py\<close> are
  represented by what they publish; the remaining routes (uploads, captures, device text, voice)
  and the retention sweep work on the tables of Schema but are not translated. Evaluation scripts,
  contract tooling and the phone application are separate programs.
\<close>

end
